(* ===== verification/Prelude.thy ===== *)
theory Prelude
  imports Complex_Main "HOL-Library.Word" "HOL-Library.List_Lexorder" "HOL-Library.Char_ord"
begin

text \<open>
  What the component theories share: results that are a value or an error, computations
  over a state that may raise, ordered maps as sorted association lists (the model of
  \<^verbatim>\<open>std::map\<close>), and the searches of \<^verbatim>\<open>std::string\<close>. The named collections
  \<open>result_simps\<close>, \<open>sexn_simps\<close>, \<open>omap_simps\<close> and \<open>string_simps\<close> gather the
  rewriting rules the component proofs pass to the simplifier.
\<close>

named_theorems result_simps
named_theorems sexn_simps
named_theorems omap_simps
named_theorems string_simps

section \<open>Results: a value or an error\<close>

text \<open>\<open>Inl e\<close> is a raise, throw or early error return; \<open>Inr x\<close> is a normal return.\<close>

definition rbind :: "'e + 'a \<Rightarrow> ('a \<Rightarrow> 'e + 'b) \<Rightarrow> 'e + 'b" where
  "rbind m f = (case m of Inl e \<Rightarrow> Inl e | Inr x \<Rightarrow> f x)"

definition is_ok :: "'e + 'a \<Rightarrow> bool" where
  "is_ok m = (case m of Inl e \<Rightarrow> False | Inr x \<Rightarrow> True)"

lemma rbind_Inl [simp, result_simps]: "rbind (Inl e) f = Inl e"
  by (simp add: rbind_def)

lemma rbind_Inr [simp, result_simps]: "rbind (Inr x) f = f x"
  by (simp add: rbind_def)

lemma is_ok_Inl [simp, result_simps]: "\<not> is_ok (Inl e)"
  by (simp add: is_ok_def)

lemma is_ok_Inr [simp, result_simps]: "is_ok (Inr x)"
  by (simp add: is_ok_def)

lemma rbind_eq_Inr [result_simps]: "rbind m f = Inr y \<longleftrightarrow> (\<exists>x. m = Inr x \<and> f x = Inr y)"
  by (cases m) auto

lemma rbind_eq_Inl [result_simps]:
  "rbind m f = Inl e \<longleftrightarrow> m = Inl e \<or> (\<exists>x. m = Inr x \<and> f x = Inl e)"
  by (cases m) auto

lemma is_ok_iff: "is_ok m \<longleftrightarrow> (\<exists>x. m = Inr x)"
  by (cases m) auto

lemma rbind_cong [fundef_cong]:
  "m = m' \<Longrightarrow> (\<And>x. m' = Inr x \<Longrightarrow> f x = f' x) \<Longrightarrow> rbind m f = rbind m' f'"
  by (cases m') auto

text \<open>A loop over a list that carries a value and stops at the first error.\<close>

fun rfold :: "('a \<Rightarrow> 's \<Rightarrow> 'e + 's) \<Rightarrow> 'a list \<Rightarrow> 's \<Rightarrow> 'e + 's" where
  "rfold f [] s = Inr s"
| "rfold f (x # xs) s = rbind (f x s) (rfold f xs)"

fun rmap :: "('a \<Rightarrow> 'e + 'b) \<Rightarrow> 'a list \<Rightarrow> 'e + 'b list" where
  "rmap f [] = Inr []"
| "rmap f (x # xs) = rbind (f x) (\<lambda>y. rbind (rmap f xs) (\<lambda>ys. Inr (y # ys)))"

lemma rfold_cong [fundef_cong]:
  "xs = ys \<Longrightarrow> s = t \<Longrightarrow> (\<And>x u. x \<in> set ys \<Longrightarrow> f x u = g x u) \<Longrightarrow> rfold f xs s = rfold g ys t"
proof (induction xs arbitrary: ys s t)
  case Nil
  then show ?case by auto
next
  case (Cons x xs)
  have head: "f x s = g x t"
    using Cons.prems by auto
  have tail: "rfold f xs u = rfold g xs u" for u
    using Cons.prems by (intro Cons.IH) auto
  show ?case
    using Cons.prems head tail by (cases "g x t") auto
qed

lemma rmap_cong [fundef_cong]:
  "xs = ys \<Longrightarrow> (\<And>x. x \<in> set ys \<Longrightarrow> f x = g x) \<Longrightarrow> rmap f xs = rmap g ys"
proof (induction xs arbitrary: ys)
  case Nil
  then show ?case by auto
next
  case (Cons x xs)
  have "rmap f xs = rmap g xs"
    using Cons.prems by (intro Cons.IH) auto
  then show ?case
    using Cons.prems by auto
qed

lemma rfold_append: "rfold f (xs @ ys) s = rbind (rfold f xs s) (rfold f ys)"
proof (induction xs arbitrary: s)
  case Nil
  then show ?case by simp
next
  case (Cons x xs)
  then show ?case by (cases "f x s") auto
qed

lemma rfold_invariant:
  assumes "rfold f xs s = Inr t" and "P s"
    and step: "\<And>x u v. x \<in> set xs \<Longrightarrow> P u \<Longrightarrow> f x u = Inr v \<Longrightarrow> P v"
  shows "P t"
  using assms(1,2) step
proof (induction xs arbitrary: s)
  case Nil
  then show ?case by simp
next
  case (Cons x xs)
  then obtain u where u: "f x s = Inr u" and t: "rfold f xs u = Inr t"
    by (auto simp: result_simps)
  have "P u" using Cons.prems u by auto
  then show ?case using t Cons.prems by (intro Cons.IH [of u]) auto
qed

lemma is_ok_rbind: "is_ok (rbind m f) \<longleftrightarrow> (\<exists>x. m = Inr x \<and> is_ok (f x))"
  by (cases m) auto

lemma rmap_Inr_length: "rmap f xs = Inr ys \<Longrightarrow> length ys = length xs"
  by (induction xs arbitrary: ys) (auto simp: result_simps)


section \<open>Computations over a state that may raise\<close>

text \<open>
  \<open>('s, 'e, 'a) sexn\<close> maps a state to a result and the state it leaves; a raise keeps the
  state reached so far, as a C++ exception or a Ruby raise leaves the heap.
\<close>

type_synonym ('s, 'e, 'a) sexn = "'s \<Rightarrow> ('e + 'a) \<times> 's"

definition sret :: "'a \<Rightarrow> ('s, 'e, 'a) sexn" where
  "sret x s = (Inr x, s)"

definition sraise :: "'e \<Rightarrow> ('s, 'e, 'a) sexn" where
  "sraise e s = (Inl e, s)"

definition sbind :: "('s, 'e, 'a) sexn \<Rightarrow> ('a \<Rightarrow> ('s, 'e, 'b) sexn) \<Rightarrow> ('s, 'e, 'b) sexn" where
  "sbind m f s = (case m s of (Inl e, t) \<Rightarrow> (Inl e, t) | (Inr x, t) \<Rightarrow> f x t)"

definition sget :: "('s, 'e, 's) sexn" where
  "sget s = (Inr s, s)"

definition sput :: "'s \<Rightarrow> ('s, 'e, unit) sexn" where
  "sput t s = (Inr (), t)"

definition slift :: "'e + 'a \<Rightarrow> ('s, 'e, 'a) sexn" where
  "slift r s = (r, s)"

text \<open>The loop \<^verbatim>\<open>for (i = 0; i < n; i++)\<close> around one computation, collecting its results.\<close>

fun srepeat :: "nat \<Rightarrow> ('s, 'e, 'a) sexn \<Rightarrow> ('s, 'e, 'a list) sexn" where
  "srepeat 0 m = sret []"
| "srepeat (Suc n) m = sbind m (\<lambda>x. sbind (srepeat n m) (\<lambda>xs. sret (x # xs)))"

lemma sret_apply [simp, sexn_simps]: "sret x s = (Inr x, s)"
  by (simp add: sret_def)

lemma sraise_apply [simp, sexn_simps]: "sraise e s = (Inl e, s)"
  by (simp add: sraise_def)

lemma sget_apply [simp, sexn_simps]: "sget s = (Inr s, s)"
  by (simp add: sget_def)

lemma sput_apply [simp, sexn_simps]: "sput t s = (Inr (), t)"
  by (simp add: sput_def)

lemma slift_apply [simp, sexn_simps]: "slift r s = (r, s)"
  by (simp add: slift_def)

lemma sbind_raises: "m s = (Inl e, t) \<Longrightarrow> sbind m f s = (Inl e, t)"
  by (simp add: sbind_def)

lemma sbind_returns: "m s = (Inr x, t) \<Longrightarrow> sbind m f s = f x t"
  by (simp add: sbind_def)

lemma sbind_then: "m s = (Inr x, t) \<Longrightarrow> f x t = r \<Longrightarrow> sbind m f s = r"
  by (simp add: sbind_def)

lemma sbind_eq_Inr [sexn_simps]:
  "sbind m f s = (Inr y, u) \<longleftrightarrow> (\<exists>x t. m s = (Inr x, t) \<and> f x t = (Inr y, u))"
  by (auto simp: sbind_def split: prod.splits sum.splits)

lemma sbind_unit_eq_Inr:
  "sbind m f s = (Inr y, u) \<longleftrightarrow> (\<exists>t. m s = (Inr (), t) \<and> f () t = (Inr y, u))"
  by (simp add: sbind_eq_Inr)

lemma sbind_eq_Inl [sexn_simps]:
  "sbind m f s = (Inl e, u) \<longleftrightarrow>
     m s = (Inl e, u) \<or> (\<exists>x t. m s = (Inr x, t) \<and> f x t = (Inl e, u))"
  by (auto simp: sbind_def split: prod.splits sum.splits)

lemma sbind_sret [simp, sexn_simps]: "sbind (sret x) f s = f x s"
  by (simp add: sbind_def)

lemma sbind_sraise [simp, sexn_simps]: "sbind (sraise e) f s = (Inl e, s)"
  by (simp add: sbind_def)

lemma sbind_sget [simp, sexn_simps]: "sbind sget f s = f s s"
  by (simp add: sbind_def)

lemma sbind_sput [simp, sexn_simps]: "sbind (sput t) f s = f () t"
  by (simp add: sbind_def)

lemma sbind_slift_Inr [simp, sexn_simps]: "sbind (slift (Inr x)) f s = f x s"
  by (simp add: sbind_def)

lemma sbind_slift_Inl [simp, sexn_simps]: "sbind (slift (Inl e)) f s = (Inl e, s)"
  by (simp add: sbind_def)

lemma sbind_unit_fun:
  "sbind (sret x) f = f x" "sbind (slift (Inr x)) f = f x"
  "sbind (sraise e) f = sraise e" "sbind (slift (Inl e)) f = sraise e"
  by (rule ext, simp)+

text \<open>A state predicate that each iteration keeps is kept by the loop, whether or not it raises.\<close>

lemma srepeat_keeps:
  assumes keeps: "\<And>s. P s \<Longrightarrow> P (snd (m s))"
  shows "P s \<Longrightarrow> P (snd (srepeat n m s))"
proof (induction n arbitrary: s)
  case 0
  then show ?case by simp
next
  case (Suc n)
  obtain r t where m: "m s = (r, t)" by (cases "m s")
  then have t: "P t" using keeps [OF Suc.prems] by simp
  show ?case
  proof (cases r)
    case (Inl e)
    then show ?thesis using m t by (simp add: sbind_raises)
  next
    case (Inr x)
    obtain r' u where rest: "srepeat n m t = (r', u)" by (cases "srepeat n m t")
    have "P u" using Suc.IH [OF t] rest by simp
    then show ?thesis using m Inr rest by (cases r') (simp_all add: sbind_returns sbind_raises)
  qed
qed

text \<open>
  Loops over the elements of a container: for their effect (\<open>sfor\<close>), carrying a value
  (\<open>sfold\<close>), or collecting results (\<open>smap\<close>).
\<close>


fun sfor :: "('a \<Rightarrow> ('s, 'e, unit) sexn) \<Rightarrow> 'a list \<Rightarrow> ('s, 'e, unit) sexn" where
  "sfor f [] = sret ()"
| "sfor f (x # xs) = sbind (f x) (\<lambda>_. sfor f xs)"

lemma sbind_cong [fundef_cong]:
  "m = m' \<Longrightarrow> (\<And>x. f x = f' x) \<Longrightarrow> sbind m f = sbind m' f'"
  by presburger

lemma sfor_cong [fundef_cong]:
  "xs = ys \<Longrightarrow> (\<And>x. x \<in> set ys \<Longrightarrow> f x = g x) \<Longrightarrow> sfor f xs = sfor g ys"
proof (induction xs arbitrary: ys)
  case Nil
  then show ?case by auto
next
  case (Cons x xs)
  have "sfor f xs = sfor g xs" using Cons.prems by (intro Cons.IH) auto
  then show ?case using Cons.prems by auto
qed

fun sfold :: "('a \<Rightarrow> 'b \<Rightarrow> ('s, 'e, 'b) sexn) \<Rightarrow> 'a list \<Rightarrow> 'b \<Rightarrow> ('s, 'e, 'b) sexn" where
  "sfold f [] b = sret b"
| "sfold f (x # xs) b = sbind (f x b) (sfold f xs)"

fun smap :: "('a \<Rightarrow> ('s, 'e, 'b) sexn) \<Rightarrow> 'a list \<Rightarrow> ('s, 'e, 'b list) sexn" where
  "smap f [] = sret []"
| "smap f (x # xs) = sbind (f x) (\<lambda>y. sbind (smap f xs) (\<lambda>ys. sret (y # ys)))"

lemma smap_cong [fundef_cong]:
  "xs = ys \<Longrightarrow> (\<And>x. x \<in> set ys \<Longrightarrow> f x = g x) \<Longrightarrow> smap f xs = smap g ys"
proof (induction xs arbitrary: ys)
  case Nil
  then show ?case by auto
next
  case (Cons x xs)
  have "smap f xs = smap g xs" using Cons.prems by (intro Cons.IH) auto
  then show ?case using Cons.prems by auto
qed

section \<open>Ordered maps\<close>

text \<open>
  \<^verbatim>\<open>std::map\<close> is an association list sorted strictly by key: \<open>omap_find\<close> is
  \<^verbatim>\<open>find\<close>, \<open>omap_insert\<close> is \<^verbatim>\<open>m[k] = v\<close>, and iteration goes through
  the list. The laws of the interface are the locale \<open>dictionary\<close> below.
\<close>

fun omap_insert :: "'k::linorder \<Rightarrow> 'v \<Rightarrow> ('k \<times> 'v) list \<Rightarrow> ('k \<times> 'v) list" where
  "omap_insert k v [] = [(k, v)]"
| "omap_insert k v ((k', v') # ps) =
     (if k < k' then (k, v) # (k', v') # ps
      else if k' < k then (k', v') # omap_insert k v ps
      else (k, v) # ps)"

definition omap_find :: "('k \<times> 'v) list \<Rightarrow> 'k \<Rightarrow> 'v option" where
  "omap_find m k = map_of m k"

definition omap_ok :: "('k::linorder \<times> 'v) list \<Rightarrow> bool" where
  "omap_ok m \<longleftrightarrow> sorted_wrt (<) (map fst m)"

text \<open>A map built by inserting the entries of a list in order, as the loops of the code do.\<close>

definition omap_of_list :: "('k::linorder \<times> 'v) list \<Rightarrow> ('k \<times> 'v) list" where
  "omap_of_list ps = foldl (\<lambda>m p. omap_insert (fst p) (snd p) m) [] ps"

lemma omap_find_Nil [simp, omap_simps]: "omap_find [] k = None"
  by (simp add: omap_find_def)

lemma omap_find_Cons [simp, omap_simps]:
  "omap_find ((k', v) # m) k = (if k' = k then Some v else omap_find m k)"
  by (simp add: omap_find_def)

lemma omap_ok_Nil [simp, omap_simps]: "omap_ok []"
  by (simp add: omap_ok_def)

lemma omap_ok_Cons [omap_simps]:
  "omap_ok ((k, v) # m) \<longleftrightarrow> (\<forall>k' \<in> fst ` set m. k < k') \<and> omap_ok m"
  by (auto simp: omap_ok_def)

lemma omap_find_notin: "k \<notin> fst ` set m \<Longrightarrow> omap_find m k = None"
  by (simp add: omap_find_def map_of_eq_None_iff)

lemma omap_insert_keys [omap_simps]: "fst ` set (omap_insert k v m) = insert k (fst ` set m)"
  by (induction k v m rule: omap_insert.induct) auto

lemma omap_insert_find [omap_simps]:
  "omap_ok m \<Longrightarrow> omap_find (omap_insert k v m) k' = (if k' = k then Some v else omap_find m k')"
proof (induction k v m rule: omap_insert.induct)
  case (1 k v)
  then show ?case by auto
next
  case (2 k v k1 v1 ps)
  then show ?case by (auto simp: omap_ok_Cons)
qed

lemma omap_insert_ok [omap_simps]: "omap_ok m \<Longrightarrow> omap_ok (omap_insert k v m)"
proof (induction k v m rule: omap_insert.induct)
  case (1 k v)
  then show ?case by (simp add: omap_ok_def)
next
  case (2 k v k1 v1 ps)
  then show ?case by (auto simp: omap_ok_Cons omap_insert_keys)
qed

lemma omap_find_in_set: "omap_ok m \<Longrightarrow> (k, v) \<in> set m \<Longrightarrow> omap_find m k = Some v"
  by (induction m) (force simp: omap_ok_Cons)+

lemma omap_find_SomeD: "omap_find m k = Some v \<Longrightarrow> (k, v) \<in> set m"
  by (simp add: omap_find_def map_of_SomeD)

lemma omap_distinct: "omap_ok m \<Longrightarrow> distinct (map fst m)"
  by (simp add: omap_ok_def strict_sorted_iff)

text \<open>
  The contract of a dictionary and what a client that fills one from a list gets back:
  the last entry with the key, as repeated assignment leaves it.
\<close>

locale dictionary =
  fixes empty :: "'m"
    and upd :: "'k \<Rightarrow> 'v \<Rightarrow> 'm \<Rightarrow> 'm"
    and look :: "'m \<Rightarrow> 'k \<Rightarrow> 'v option"
    and invar :: "'m \<Rightarrow> bool"
  assumes look_empty: "look empty k = None"
    and look_upd: "invar m \<Longrightarrow> look (upd k v m) k' = (if k' = k then Some v else look m k')"
    and invar_empty: "invar empty"
    and invar_upd: "invar m \<Longrightarrow> invar (upd k v m)"
begin

lemma invar_fill: "invar m \<Longrightarrow> invar (foldl (\<lambda>m p. upd (fst p) (snd p) m) m ps)"
  by (induction ps arbitrary: m) (auto simp: invar_upd)

lemma look_fill:
  "invar m \<Longrightarrow> look (foldl (\<lambda>m p. upd (fst p) (snd p) m) m ps) k =
     (case map_of (rev ps) k of None \<Rightarrow> look m k | Some v \<Rightarrow> Some v)"
proof (induction ps rule: rev_induct)
  case Nil
  then show ?case by simp
next
  case (snoc p ps)
  then show ?case by (cases p) (simp add: look_upd invar_fill)
qed

lemma look_fill_empty: "look (foldl (\<lambda>m p. upd (fst p) (snd p) m) empty ps) k = map_of (rev ps) k"
  by (simp add: look_fill invar_empty look_empty split: option.split)

end

interpretation omap: dictionary "[]" omap_insert omap_find omap_ok
  by unfold_locales (simp_all add: omap_simps)

lemma omap_of_list_ok [omap_simps]: "omap_ok (omap_of_list ps)"
  unfolding omap_of_list_def by (rule omap.invar_fill) simp

lemma omap_of_list_find [omap_simps]: "omap_find (omap_of_list ps) k = map_of (rev ps) k"
  unfolding omap_of_list_def by (rule omap.look_fill_empty)

lemma map_of_rev_unique: "distinct (map fst ps) \<Longrightarrow> map_of (rev ps) k = map_of ps k"
proof (cases "map_of ps k")
  case None
  then have "map_of (rev ps) k = None" by (simp add: map_of_eq_None_iff)
  then show ?thesis using None by simp
next
  case (Some v)
  assume "distinct (map fst ps)"
  then have "distinct (map fst (rev ps))" by (simp add: rev_map [symmetric])
  moreover have "(k, v) \<in> set (rev ps)" using map_of_SomeD [OF Some] by simp
  ultimately have "map_of (rev ps) k = Some v" by (rule map_of_is_SomeI)
  then show ?thesis using Some by simp
qed

lemma omap_of_list_find_distinct:
  "distinct (map fst ps) \<Longrightarrow> omap_find (omap_of_list ps) k = map_of ps k"
  by (simp add: omap_of_list_find map_of_rev_unique)

section \<open>Strings\<close>

text \<open>The searches of \<^verbatim>\<open>std::string\<close>; \<open>None\<close> is \<^verbatim>\<open>npos\<close>.\<close>

fun find_from :: "char \<Rightarrow> nat \<Rightarrow> string \<Rightarrow> nat option" where
  "find_from c i [] = None"
| "find_from c i (x # xs) = (if x = c then Some i else find_from c (Suc i) xs)"

definition str_find :: "char \<Rightarrow> string \<Rightarrow> nat option" where
  "str_find c s = find_from c 0 s"

definition str_find_at :: "char \<Rightarrow> string \<Rightarrow> nat \<Rightarrow> nat option" where
  "str_find_at c s pos = find_from c pos (drop pos s)"

definition str_rfind :: "char \<Rightarrow> string \<Rightarrow> nat option" where
  "str_rfind c s = map_option (\<lambda>i. length s - Suc i) (str_find c (rev s))"

definition substr :: "string \<Rightarrow> nat \<Rightarrow> nat option \<Rightarrow> string" where
  "substr s pos len = (case len of None \<Rightarrow> drop pos s | Some n \<Rightarrow> take n (drop pos s))"

text \<open>The segments between separators, the abstract counterpart of the code's search loops.\<close>

fun split_on :: "char \<Rightarrow> string \<Rightarrow> string list" where
  "split_on c [] = [[]]"
| "split_on c (x # xs) =
     (if x = c then [] # split_on c xs
      else (case split_on c xs of [] \<Rightarrow> [[x]] | s # ss \<Rightarrow> (x # s) # ss))"

lemma find_from_None: "find_from c i s = None \<longleftrightarrow> c \<notin> set s"
  by (induction c i s rule: find_from.induct) auto

lemma find_from_split: "c \<notin> set a \<Longrightarrow> find_from c i (a @ c # b) = Some (i + length a)"
  by (induction a arbitrary: i) auto

lemma find_from_Some:
  "find_from c i s = Some j \<Longrightarrow>
     i \<le> j \<and> j - i < length s \<and> s = take (j - i) s @ c # drop (Suc (j - i)) s \<and> c \<notin> set (take (j - i) s)"
proof (induction c i s rule: find_from.induct)
  case (1 c i)
  then show ?case by simp
next
  case (2 c i x xs)
  show ?case
  proof (cases "x = c")
    case True
    then show ?thesis using "2.prems" by auto
  next
    case False
    with 2 have ih: "Suc i \<le> j" "j - Suc i < length xs"
      "xs = take (j - Suc i) xs @ c # drop (Suc (j - Suc i)) xs" "c \<notin> set (take (j - Suc i) xs)"
      by auto
    obtain k where j: "j = Suc (i + k)"
      using ih(1) by (metis add_Suc less_iff_Suc_add less_eq_Suc_le)
    show ?thesis using ih False by (simp add: j)
  qed
qed

lemma str_find_None [string_simps]: "str_find c s = None \<longleftrightarrow> c \<notin> set s"
  by (simp add: str_find_def find_from_None)

lemma str_find_split: "c \<notin> set a \<Longrightarrow> str_find c (a @ c # b) = Some (length a)"
  by (simp add: str_find_def find_from_split)

lemma str_find_Some:
  assumes "str_find c s = Some j"
  shows "j < length s" and "s = take j s @ c # drop (Suc j) s" and "c \<notin> set (take j s)"
  using find_from_Some [OF assms [unfolded str_find_def]] by auto

lemma split_on_nonempty [simp]: "split_on c s \<noteq> []"
  by (induction s) (auto split: list.splits)

lemma split_on_none: "c \<notin> set s \<Longrightarrow> split_on c s = [s]"
  by (induction s) auto

lemma split_on_at: "c \<notin> set a \<Longrightarrow> split_on c (a @ c # b) = a # split_on c b"
  by (induction a) auto

lemma split_on_find:
  "split_on c s = (case str_find c s of None \<Rightarrow> [s] | Some j \<Rightarrow> take j s # split_on c (drop (Suc j) s))"
proof (cases "str_find c s")
  case None
  then have "c \<notin> set s" by (simp add: str_find_None)
  then show ?thesis using None by (simp add: split_on_none)
next
  case (Some j)
  have "split_on c (take j s @ c # drop (Suc j) s) = take j s # split_on c (drop (Suc j) s)"
    using str_find_Some(3) [OF Some] by (rule split_on_at)
  then show ?thesis using str_find_Some(2) [OF Some] Some by simp
qed

lemma split_on_pieces: "seg \<in> set (split_on c s) \<Longrightarrow> c \<notin> set seg"
  by (induction s arbitrary: seg) (auto split: list.splits if_splits)


text \<open>Decimal output of integers, \<^verbatim>\<open>%d\<close> and \<^verbatim>\<open>out << n\<close>.\<close>

definition digit_char :: "nat \<Rightarrow> char" where
  "digit_char d = char_of (48 + d)"

fun show_nat :: "nat \<Rightarrow> string" where
  "show_nat n = (if n < 10 then [digit_char n] else show_nat (n div 10) @ [digit_char (n mod 10)])"

declare show_nat.simps [simp del]

definition show_int :: "int \<Rightarrow> string" where
  "show_int i = (if i < 0 then CHR ''-'' # show_nat (nat (- i)) else show_nat (nat i))"

definition digit_value :: "char \<Rightarrow> nat" where
  "digit_value c = of_char c - 48"

definition read_nat :: "string \<Rightarrow> nat" where
  "read_nat s = foldl (\<lambda>n c. 10 * n + digit_value c) 0 s"

lemma digit_value_char [simp]: "d < 10 \<Longrightarrow> digit_value (digit_char d) = d"
  by (simp add: digit_value_def digit_char_def of_char_of)

lemma read_nat_show_nat [simp]: "read_nat (show_nat n) = n"
proof (induction n rule: show_nat.induct)
  case (1 n)
  show ?case
  proof (cases "n < 10")
    case True
    then show ?thesis by (subst show_nat.simps) (simp add: read_nat_def)
  next
    case False
    with 1 have "read_nat (show_nat (n div 10)) = n div 10" by simp
    then show ?thesis using False
      by (subst show_nat.simps) (simp add: read_nat_def)
  qed
qed

lemma show_nat_inj: "show_nat m = show_nat n \<longleftrightarrow> m = n"
  by (metis read_nat_show_nat)

lemma digit_char_not_minus: "d < 10 \<Longrightarrow> digit_char d \<noteq> CHR ''-''"
proof
  assume "d < 10" and "digit_char d = CHR ''-''"
  then have "digit_value (CHR ''-'') = d" by (metis digit_value_char)
  moreover have "(of_char (digit_char d) :: nat) = 48 + d"
    using \<open>d < 10\<close> by (simp add: digit_char_def of_char_of)
  ultimately show False
    using \<open>digit_char d = CHR ''-''\<close> by simp
qed

lemma hd_show_nat: "\<exists>d. d < 10 \<and> show_nat n \<noteq> [] \<and> hd (show_nat n) = digit_char d"
proof (induction n rule: show_nat.induct)
  case (1 n)
  show ?case
  proof (cases "n < 10")
    case True
    then show ?thesis by (subst (1 2) show_nat.simps) auto
  next
    case False
    with 1 obtain d where "d < 10" "show_nat (n div 10) \<noteq> []" "hd (show_nat (n div 10)) = digit_char d"
      by auto
    then show ?thesis using False by (subst (1 2) show_nat.simps) auto
  qed
qed

lemma show_int_inj: "show_int i = show_int j \<longleftrightarrow> i = j"
proof
  assume eq: "show_int i = show_int j"
  have minus: "show_nat n \<noteq> CHR ''-'' # s" for n s
    using hd_show_nat [of n] digit_char_not_minus by (metis list.sel(1))
  show "i = j"
    using eq minus by (auto simp: show_int_def show_nat_inj split: if_splits dest: sym)
qed simp

end
