(* ===== verification/Regex.thy ===== *)
theory Regex
  imports Prelude
begin

text \<open>
  Regular expressions as the scanner \<^verbatim>\<open>compiler/src/thriftl.ll\<close> writes them, and how a
  scanner made by flex chooses a rule: the rule that matches the longest piece of the input, the
  first of them in the file when several match it. The choice is by derivatives, and shown to be
  the one described.
\<close>

section \<open>Longest matches of an automaton\<close>

text \<open>
  The length of the longest prefix that leads to an accepting state; a state that is hopeless
  ends the search.
\<close>

fun longest :: "('s \<Rightarrow> 'a \<Rightarrow> 's) \<Rightarrow> ('s \<Rightarrow> bool) \<Rightarrow> ('s \<Rightarrow> bool) \<Rightarrow> 's \<Rightarrow> 'a list \<Rightarrow> nat option" where
  "longest nxt fin hopeless q [] = (if fin q then Some 0 else None)"
| "longest nxt fin hopeless q (x # xs) =
     (if hopeless q then None
      else
        case longest nxt fin hopeless (nxt q x) xs of
          Some n \<Rightarrow> Some (Suc n)
        | None \<Rightarrow> if fin q then Some 0 else None)"

text \<open>The contract of the states, and what the search finds under it.\<close>

locale acceptor =
  fixes nxt :: "'s \<Rightarrow> 'a \<Rightarrow> 's"
    and fin :: "'s \<Rightarrow> bool"
    and hopeless :: "'s \<Rightarrow> bool"
    and accepts :: "'s \<Rightarrow> 'a list \<Rightarrow> bool"
  assumes accepts_Nil: "accepts q [] \<longleftrightarrow> fin q"
    and accepts_Cons: "accepts q (x # xs) \<longleftrightarrow> accepts (nxt q x) xs"
    and hopeless_accepts: "hopeless q \<Longrightarrow> \<not> accepts q xs"
begin

lemma longest_None:
  "longest nxt fin hopeless q xs = None \<Longrightarrow> n \<le> length xs \<Longrightarrow> \<not> accepts q (take n xs)"
proof (induction xs arbitrary: q n)
  case Nil
  then show ?case by (simp add: accepts_Nil split: if_splits)
next
  case (Cons x xs)
  show ?case
  proof (cases "hopeless q")
    case False
    then show ?thesis
      using Cons by (cases n) (auto simp: accepts_Nil accepts_Cons split: if_splits option.splits)
  qed (rule hopeless_accepts)
qed

lemma longest_Some:
  "longest nxt fin hopeless q xs = Some n \<Longrightarrow>
     n \<le> length xs \<and> accepts q (take n xs) \<and> (\<forall>m. m \<le> length xs \<and> accepts q (take m xs) \<longrightarrow> m \<le> n)"
proof (induction xs arbitrary: q n)
  case Nil
  then show ?case by (simp add: accepts_Nil split: if_splits)
next
  case (Cons x xs)
  show ?case
  proof (cases "longest nxt fin hopeless (nxt q x) xs")
    case None
    then have n: "n = 0" "fin q" using Cons.prems by (auto split: if_splits)
    have "m = 0" if "m \<le> length (x # xs)" "accepts q (take m (x # xs))" for m
      using that longest_None [OF None] by (cases m) (auto simp: accepts_Cons)
    then show ?thesis using n by (auto simp: accepts_Nil)
  next
    case (Some k)
    then have n: "n = Suc k" using Cons.prems by (auto split: if_splits)
    note k = Cons.IH [OF Some]
    have "m \<le> Suc k" if "m \<le> length (x # xs)" "accepts q (take m (x # xs))" for m
      using that k by (cases m) (auto simp: accepts_Cons)
    then show ?thesis using n k by (simp add: accepts_Cons)
  qed
qed

lemma longest_eq_Some_iff:
  "longest nxt fin hopeless q xs = Some n \<longleftrightarrow>
     n \<le> length xs \<and> accepts q (take n xs) \<and> (\<forall>m. m \<le> length xs \<and> accepts q (take m xs) \<longrightarrow> m \<le> n)"
proof
  assume max: "n \<le> length xs \<and> accepts q (take n xs) \<and>
    (\<forall>m. m \<le> length xs \<and> accepts q (take m xs) \<longrightarrow> m \<le> n)"
  then obtain k where k: "longest nxt fin hopeless q xs = Some k"
    using longest_None by (cases "longest nxt fin hopeless q xs") auto
  have "k = n" using longest_Some [OF k] max by (meson le_antisym)
  then show "longest nxt fin hopeless q xs = Some n" using k by simp
qed (rule longest_Some)

end

section \<open>Regular expressions\<close>

datatype rx =
  RNone
| REps
| RLit string
| RSet "char \<Rightarrow> bool"
| RSeq rx rx
| RAlt rx rx
| RStar rx

inductive matches :: "rx \<Rightarrow> string \<Rightarrow> bool" where
  eps: "matches REps []"
| lit: "matches (RLit s) s"
| cset: "P c \<Longrightarrow> matches (RSet P) [c]"
| seq: "matches r a \<Longrightarrow> matches s b \<Longrightarrow> matches (RSeq r s) (a @ b)"
| alt1: "matches r a \<Longrightarrow> matches (RAlt r s) a"
| alt2: "matches s a \<Longrightarrow> matches (RAlt r s) a"
| star0: "matches (RStar r) []"
| star1: "matches r a \<Longrightarrow> matches (RStar r) b \<Longrightarrow> matches (RStar r) (a @ b)"

inductive_simps matches_simps [simp]:
  "matches RNone w" "matches REps w" "matches (RLit s) w" "matches (RSet P) w" "matches (RAlt r s) w"

inductive_simps matches_RSeq: "matches (RSeq r s) w"

inductive_cases matches_RStarE: "matches (RStar r) w"

fun nullable :: "rx \<Rightarrow> bool" where
  "nullable RNone = False"
| "nullable REps = True"
| "nullable (RLit s) = (s = [])"
| "nullable (RSet P) = False"
| "nullable (RSeq r s) = (nullable r \<and> nullable s)"
| "nullable (RAlt r s) = (nullable r \<or> nullable s)"
| "nullable (RStar r) = True"

fun hopeless_rx :: "rx \<Rightarrow> bool" where
  "hopeless_rx RNone = True"
| "hopeless_rx _ = False"

fun mk_seq :: "rx \<Rightarrow> rx \<Rightarrow> rx" where
  "mk_seq RNone s = RNone"
| "mk_seq REps s = s"
| "mk_seq r s = RSeq r s"

fun mk_alt :: "rx \<Rightarrow> rx \<Rightarrow> rx" where
  "mk_alt RNone s = s"
| "mk_alt r s = (if hopeless_rx s then r else RAlt r s)"

fun deriv_rx :: "rx \<Rightarrow> char \<Rightarrow> rx" where
  "deriv_rx RNone c = RNone"
| "deriv_rx REps c = RNone"
| "deriv_rx (RLit s) c = (case s of [] \<Rightarrow> RNone | x # xs \<Rightarrow> if x = c then RLit xs else RNone)"
| "deriv_rx (RSet P) c = (if P c then REps else RNone)"
| "deriv_rx (RSeq r s) c =
     (if nullable r then mk_alt (mk_seq (deriv_rx r c) s) (deriv_rx s c) else mk_seq (deriv_rx r c) s)"
| "deriv_rx (RAlt r s) c = mk_alt (deriv_rx r c) (deriv_rx s c)"
| "deriv_rx (RStar r) c = mk_seq (deriv_rx r c) (RStar r)"

text \<open>The operators \<^verbatim>\<open>?\<close> and \<^verbatim>\<open>+\<close> of flex, and a sequence of several parts.\<close>

definition rx_opt :: "rx \<Rightarrow> rx" where
  "rx_opt r = RAlt REps r"

definition rx_plus :: "rx \<Rightarrow> rx" where
  "rx_plus r = RSeq r (RStar r)"

fun rx_seq :: "rx list \<Rightarrow> rx" where
  "rx_seq [] = REps"
| "rx_seq [r] = r"
| "rx_seq (r # rs) = RSeq r (rx_seq rs)"

fun rx_alts :: "rx list \<Rightarrow> rx" where
  "rx_alts [] = RNone"
| "rx_alts [r] = r"
| "rx_alts (r # rs) = RAlt r (rx_alts rs)"

section \<open>Derivatives are correct\<close>

lemma hopeless_rx_matches: "hopeless_rx r \<Longrightarrow> \<not> matches r w"
  by (cases r) auto

lemma nullable_matches: "nullable r \<longleftrightarrow> matches r []"
  by (induction r) (auto simp: matches_RSeq intro: matches.star0)

lemma matches_mk_seq [simp]: "matches (mk_seq r s) w \<longleftrightarrow> matches (RSeq r s) w"
  by (cases r) (auto simp: matches_RSeq)

lemma matches_mk_alt [simp]: "matches (mk_alt r s) w \<longleftrightarrow> matches (RAlt r s) w"
  by (cases r) (auto dest: hopeless_rx_matches)

lemma matches_RSeq_Cons:
  "matches (RSeq r s) (c # w) \<longleftrightarrow>
     matches r [] \<and> matches s (c # w) \<or> (\<exists>a b. w = a @ b \<and> matches r (c # a) \<and> matches s b)"
  unfolding matches_RSeq by (auto simp: Cons_eq_append_conv)

lemma matches_RStar_Cons:
  "matches (RStar r) (c # w) \<longleftrightarrow> (\<exists>a b. w = a @ b \<and> matches r (c # a) \<and> matches (RStar r) b)"
proof
  have "q = RStar r \<Longrightarrow> v = c # w \<Longrightarrow> \<exists>a b. w = a @ b \<and> matches r (c # a) \<and> matches (RStar r) b"
    if "matches q v" for q v
    using that
  proof (induction arbitrary: w)
    case (star1 r' a b)
    then show ?case by (cases a) auto
  qed auto
  then show "matches (RStar r) (c # w) \<Longrightarrow> \<exists>a b. w = a @ b \<and> matches r (c # a) \<and> matches (RStar r) b"
    by blast
next
  assume "\<exists>a b. w = a @ b \<and> matches r (c # a) \<and> matches (RStar r) b"
  then show "matches (RStar r) (c # w)"
    using matches.star1 [of r "c # a" b for a b] by auto
qed

lemma matches_deriv: "matches (deriv_rx r c) w \<longleftrightarrow> matches r (c # w)"
proof (induction r arbitrary: w)
  case (RSeq r s)
  show ?case
    unfolding matches_RSeq_Cons by (auto simp: RSeq matches_RSeq nullable_matches)
next
  case (RStar r)
  show ?case
    unfolding matches_RStar_Cons by (auto simp: RStar matches_RSeq)
next
  case (RLit s)
  then show ?case by (cases s) auto
qed auto

interpretation rxs: acceptor deriv_rx nullable hopeless_rx matches
  by unfold_locales (simp_all add: nullable_matches matches_deriv hopeless_rx_matches)

section \<open>The choice of a rule\<close>

definition match_length :: "rx \<Rightarrow> string \<Rightarrow> nat option" where
  "match_length = longest deriv_rx nullable hopeless_rx"

fun best_rule :: "(rx \<times> 'act) list \<Rightarrow> string \<Rightarrow> (nat \<times> 'act) option" where
  "best_rule [] s = None"
| "best_rule ((r, act) # rules) s =
     (case match_length r s of
        None \<Rightarrow> best_rule rules s
      | Some n \<Rightarrow>
          (case best_rule rules s of
             None \<Rightarrow> Some (n, act)
           | Some (m, act') \<Rightarrow> if n < m then Some (m, act') else Some (n, act)))"

text \<open>Rule \<open>i\<close> matches the first \<open>n\<close> characters.\<close>

definition rule_matches :: "(rx \<times> 'act) list \<Rightarrow> string \<Rightarrow> nat \<Rightarrow> nat \<Rightarrow> bool" where
  "rule_matches rules s i n \<longleftrightarrow> i < length rules \<and> n \<le> length s \<and> matches (fst (rules ! i)) (take n s)"

text \<open>The longest match, and the first rule among the longest.\<close>

definition flex_choice :: "(rx \<times> 'act) list \<Rightarrow> string \<Rightarrow> nat \<Rightarrow> nat \<Rightarrow> bool" where
  "flex_choice rules s i n \<longleftrightarrow>
     rule_matches rules s i n \<and> (\<forall>j m. rule_matches rules s j m \<longrightarrow> m < n \<or> m = n \<and> i \<le> j)"

lemma rule_matches_Cons:
  "rule_matches ((r, act) # rules) s i n \<longleftrightarrow>
     (case i of 0 \<Rightarrow> n \<le> length s \<and> matches r (take n s) | Suc k \<Rightarrow> rule_matches rules s k n)"
  by (cases i) (auto simp: rule_matches_def)

lemma match_length_Some:
  "match_length r s = Some n \<Longrightarrow> n \<le> length s \<and> matches r (take n s)"
  "match_length r s = Some n \<Longrightarrow> m \<le> length s \<Longrightarrow> matches r (take m s) \<Longrightarrow> m \<le> n"
  using rxs.longest_Some [of r s n] by (auto simp: match_length_def)

lemma match_length_None: "match_length r s = None \<Longrightarrow> n \<le> length s \<Longrightarrow> \<not> matches r (take n s)"
  using rxs.longest_None by (auto simp: match_length_def)

lemma best_rule_None: "best_rule rules s = None \<Longrightarrow> \<not> rule_matches rules s i n"
proof (induction rules arbitrary: i)
  case Nil
  then show ?case by (simp add: rule_matches_def)
next
  case (Cons rule rules)
  obtain r act where rule: "rule = (r, act)" by (cases rule)
  then have "match_length r s = None" "best_rule rules s = None"
    using Cons.prems by (auto split: option.splits if_splits)
  then show ?case
    using Cons.IH match_length_None [of r s] rule by (auto simp: rule_matches_Cons split: nat.split)
qed

lemma best_rule_Some:
  "best_rule rules s = Some (n, act) \<Longrightarrow> \<exists>i. flex_choice rules s i n \<and> snd (rules ! i) = act"
proof (induction rules arbitrary: n act)
  case Nil
  then show ?case by simp
next
  case (Cons rule rules)
  obtain r a where rule: "rule = (r, a)" by (cases rule)
  show ?case
  proof (cases "best_rule rules s")
    case None
    then have n: "match_length r s = Some n" "a = act"
      using Cons.prems rule by (auto split: option.splits)
    have "flex_choice (rule # rules) s 0 n"
      using match_length_Some [OF n(1)] best_rule_None [OF None]
      by (auto simp: flex_choice_def rule rule_matches_Cons le_less split: nat.splits)
    then show ?thesis using n rule by (intro exI [of _ 0]) simp
  next
    case (Some best)
    obtain m b where best: "best = (m, b)" by (cases best)
    obtain i where i: "flex_choice rules s i m" "snd (rules ! i) = b"
      using Cons.IH [of m b] Some best by auto
    show ?thesis
    proof (cases "\<exists>k. match_length r s = Some k \<and> \<not> k < m")
      case True
      then have n: "match_length r s = Some n" "a = act" "m \<le> n"
        using Cons.prems rule Some best by (auto split: option.splits if_splits)
      have "k \<le> n" if "rule_matches rules s j k" for j k
        using that i(1) n(3) unfolding flex_choice_def by fastforce
      then have "flex_choice (rule # rules) s 0 n"
        using match_length_Some [OF n(1)]
        by (auto simp: flex_choice_def rule rule_matches_Cons le_less split: nat.splits)
      then show ?thesis using n rule by (intro exI [of _ 0]) simp
    next
      case False
      then have n: "n = m" "act = b"
        using Cons.prems rule Some best by (auto split: option.splits if_splits)
      have "k < m" if "k \<le> length s" "matches r (take k s)" for k
        using that False match_length_None [of r s k] match_length_Some(2) [of r s _ k]
        by (cases "match_length r s") (auto simp: not_less intro: le_less_trans)
      then have "flex_choice (rule # rules) s (Suc i) m"
        using i(1) unfolding flex_choice_def rule rule_matches_Cons
        by (auto split: nat.splits)
      then show ?thesis using n i(2) by (intro exI [of _ "Suc i"]) simp
    qed
  qed
qed

lemma flex_choice_unique: "flex_choice rules s i n \<Longrightarrow> flex_choice rules s j m \<Longrightarrow> i = j \<and> n = m"
  unfolding flex_choice_def by (metis le_antisym less_asym less_irrefl)

lemma best_rule_iff:
  "best_rule rules s = Some (n, act) \<longleftrightarrow> (\<exists>i. flex_choice rules s i n \<and> snd (rules ! i) = act)"
proof
  assume "\<exists>i. flex_choice rules s i n \<and> snd (rules ! i) = act"
  then obtain i where i: "flex_choice rules s i n" "snd (rules ! i) = act" by blast
  then obtain m b where best: "best_rule rules s = Some (m, b)"
    using best_rule_None [of rules s i n] by (cases "best_rule rules s") (auto simp: flex_choice_def)
  obtain j where "flex_choice rules s j m" "snd (rules ! j) = b"
    using best_rule_Some [OF best] by blast
  then show "best_rule rules s = Some (n, act)"
    using flex_choice_unique [OF i(1)] i(2) best by blast
qed (rule best_rule_Some)

end
