(* ===== verification/Doubles.thy ===== *)
theory Doubles
  imports Prelude
begin

unbundle bit_operations_syntax

text \<open>
  Doubles by their bits: the exact value of a finite double, and \<^verbatim>\<open>atof\<close>, the nearest
  double of a decimal, ties to even, with the subnormal numbers and the overflow to infinity.
\<close>

section \<open>The value of a double\<close>

text \<open>The absolute value \<open>n / d\<close> of a finite double.\<close>

definition double_value :: "64 word \<Rightarrow> nat \<times> nat" where
  "double_value w =
     (let e = unat (drop_bit 52 w AND 0x7FF); f = unat (w AND mask 52);
          m = (if e = 0 then f else f + 2 ^ 52) in
      (m * 2 ^ ((if e = 0 then 1 else e) - 1075), 2 ^ (1075 - (if e = 0 then 1 else e))))"

definition round_half_even :: "nat \<Rightarrow> nat \<Rightarrow> nat" where
  "round_half_even n d =
     (let q = n div d; r = n mod d in if 2 * r < d \<or> (2 * r = d \<and> even q) then q else q + 1)"

section \<open>Digits\<close>

definition char_between :: "char \<Rightarrow> char \<Rightarrow> char \<Rightarrow> bool" where
  "char_between a b c \<longleftrightarrow> (of_char a :: nat) \<le> of_char c \<and> (of_char c :: nat) \<le> of_char b"

definition is_digit :: "char \<Rightarrow> bool" where
  "is_digit = char_between (CHR ''0'') (CHR ''9'')"

text \<open>The sign of a number and the rest of it.\<close>

definition split_sign :: "string \<Rightarrow> bool \<times> string" where
  "split_sign s =
     (case s of
        [] \<Rightarrow> (False, [])
      | c # cs \<Rightarrow> if c = CHR ''-'' then (True, cs) else if c = CHR ''+'' then (False, cs) else (False, c # cs))"

definition split_digits :: "string \<Rightarrow> string \<times> string" where
  "split_digits s = (takeWhile is_digit s, dropWhile is_digit s)"

section \<open>The nearest double\<close>

fun log2_floor :: "nat \<Rightarrow> nat" where
  "log2_floor n = (if n < 2 then 0 else Suc (log2_floor (n div 2)))"

declare log2_floor.simps [simp del]

text \<open>The exponent \<open>e\<close> for which \<open>2 ^ 52 \<le> (n / d) / 2 ^ e < 2 ^ 53\<close>, but at least the smallest one.\<close>

definition binary_exponent :: "nat \<Rightarrow> nat \<Rightarrow> int" where
  "binary_exponent n d =
     (let k = int (log2_floor n) - int (log2_floor d);
          k = (if d * 2 ^ nat k \<le> n * 2 ^ nat (- k) then k else k - 1) in
      max (- 1074) (k - 52))"

text \<open>
  The bits of the nearest double of \<open>n / d\<close>. A mantissa that is rounded up to \<open>2 ^ 53\<close> carries
  into the exponent.
\<close>

definition nearest_double :: "nat \<Rightarrow> nat \<Rightarrow> nat" where
  "nearest_double n d =
     (if n = 0 then 0
      else
        let e = binary_exponent n d;
            q = round_half_even (n * 2 ^ nat (- e)) (d * 2 ^ nat e);
            bits = (if q < 2 ^ 52 then q else q - 2 ^ 52 + 2 ^ 52 * nat (e + 1075)) in
        min bits (2047 * 2 ^ 52))"

text \<open>
  \<^verbatim>\<open>atof\<close> on a number with optional sign, digits, fraction and exponent; without any
  digit of the mantissa nothing is converted and the result is zero.
\<close>

definition atof :: "string \<Rightarrow> 64 word" where
  "atof s =
     (let (neg, s) = split_sign s;
          (ip, s) = split_digits s;
          (fp, s) = (case s of c # cs \<Rightarrow> if c = CHR ''.'' then split_digits cs else ([], s) | [] \<Rightarrow> ([], []));
          ex = (case s of
                  c # cs \<Rightarrow>
                    if c = CHR ''e'' \<or> c = CHR ''E'' then
                      (let (eneg, ds) = split_sign cs; n = int (read_nat (fst (split_digits ds))) in
                       if eneg then - n else n)
                    else 0
                | [] \<Rightarrow> 0);
          x = ex - int (length fp) in
      if ip @ fp = [] then 0
      else word_of_nat (nearest_double (read_nat (ip @ fp) * 10 ^ nat x) (10 ^ nat (- x))
             + (if neg then 2 ^ 63 else 0)))"

end
