(* ===== verification/ParseTypes.thy ===== *)
theory ParseTypes
  imports Prelude
begin

text \<open>
  The parse tree of the compiler, \<^verbatim>\<open>compiler/src/parse/\<close>: types, enums, constant
  values, fields, structs, functions and services, with the operations of their classes.
  A pointer to a type object is the object itself: the grammar builds a type before anything
  that points to it, and a name that is not known yet becomes a forward typedef, which holds
  only the name.
\<close>

section \<open>Errors\<close>

text \<open>
  A thrown \<^verbatim>\<open>std::string\<close>, a thrown C string (which no handler of
  \<^verbatim>\<open>parse\<close> catches), \<^verbatim>\<open>exit\<close> with a status and the message printed
  before, a use of an uninitialised or null pointer, the end of the fuel of a loop that
  need not end, and the \<^verbatim>\<open>std::out_of_range\<close> of the string functions.
\<close>

datatype cxx_error = Throw string | ThrowCString string | Exit int string | Undefined | Endless | OutOfRange

abbreviation nl :: string where "nl \<equiv> [CHR 0x0A]"

abbreviation dq :: string where "dq \<equiv> [CHR 0x22]"

abbreviation sq :: string where "sq \<equiv> [CHR 0x27]"

section \<open>Enums\<close>

datatype t_enum_value = t_enum_value (ev_name: string) (ev_value: int) (ev_doc: "string option")

datatype t_enum = t_enum
  (enum_program: string) (enum_name: string) (enum_constants: "t_enum_value list") (enum_doc: "string option")

definition enum_append :: "t_enum_value \<Rightarrow> t_enum \<Rightarrow> t_enum" where
  "enum_append c e =
     t_enum (enum_program e) (enum_name e) (enum_constants e @ [c]) (enum_doc e)"

definition get_constant_by_name :: "t_enum \<Rightarrow> string \<Rightarrow> t_enum_value option" where
  "get_constant_by_name e name = find (\<lambda>c. ev_name c = name) (enum_constants e)"

definition get_constant_by_value :: "t_enum \<Rightarrow> int \<Rightarrow> t_enum_value option" where
  "get_constant_by_value e value = find (\<lambda>c. ev_value c = value) (enum_constants e)"

definition get_min_value :: "t_enum \<Rightarrow> t_enum_value option" where
  "get_min_value e =
     (case enum_constants e of
        [] \<Rightarrow> None
      | front # _ \<Rightarrow>
          Some (foldl (\<lambda>m c. if ev_value c < ev_value m then c else m) front (enum_constants e)))"

definition get_max_value :: "t_enum \<Rightarrow> t_enum_value option" where
  "get_max_value e =
     (case enum_constants e of
        [] \<Rightarrow> None
      | _ \<Rightarrow>
          Some (foldl (\<lambda>m c. if ev_value c > ev_value m then c else m)
            (last (enum_constants e)) (enum_constants e)))"

section \<open>Constant values\<close>

text \<open>
  A \<^verbatim>\<open>t_const_value\<close> with its tag. The map is keyed by pointers: its pairs are listed
  in the order of the keys' addresses, which is the order of iteration. An identifier has the
  enum that \<^verbatim>\<open>set_enum\<close> gave it; before that \<^verbatim>\<open>enum_\<close> is not initialised.
\<close>

datatype t_const_value =
  CV_INTEGER int
| CV_DOUBLE "64 word"
| CV_STRING string
| CV_MAP "(t_const_value \<times> t_const_value) list"
| CV_LIST "t_const_value list"
| CV_IDENTIFIER string "t_enum option"

datatype t_const_value_type = CVT_INTEGER | CVT_DOUBLE | CVT_STRING | CVT_MAP | CVT_LIST | CVT_IDENTIFIER

fun cv_type :: "t_const_value \<Rightarrow> t_const_value_type" where
  "cv_type (CV_INTEGER i) = CVT_INTEGER"
| "cv_type (CV_DOUBLE d) = CVT_DOUBLE"
| "cv_type (CV_STRING s) = CVT_STRING"
| "cv_type (CV_MAP m) = CVT_MAP"
| "cv_type (CV_LIST l) = CVT_LIST"
| "cv_type (CV_IDENTIFIER i e) = CVT_IDENTIFIER"

fun get_string :: "t_const_value \<Rightarrow> string" where
  "get_string (CV_STRING s) = s"
| "get_string _ = []"

fun get_map :: "t_const_value \<Rightarrow> (t_const_value \<times> t_const_value) list" where
  "get_map (CV_MAP m) = m"
| "get_map _ = []"

fun get_list :: "t_const_value \<Rightarrow> t_const_value list" where
  "get_list (CV_LIST l) = l"
| "get_list _ = []"

fun get_identifier :: "t_const_value \<Rightarrow> string" where
  "get_identifier (CV_IDENTIFIER i e) = i"
| "get_identifier _ = []"

fun get_double :: "t_const_value \<Rightarrow> cxx_error + 64 word" where
  "get_double (CV_DOUBLE d) = Inr d"
| "get_double _ = Inl Undefined"

text \<open>The part of an identifier after its last dot.\<close>

definition after_last_dot :: "string \<Rightarrow> string" where
  "after_last_dot s = (case str_rfind CHR ''.'' s of None \<Rightarrow> s | Some dot \<Rightarrow> substr s (Suc dot) None)"

text \<open>
  The test of \<^verbatim>\<open>enum_\<close> against null reads an uninitialised pointer when no enum was
  set: neither constructor initialises it.
\<close>

fun get_integer :: "t_const_value \<Rightarrow> cxx_error + int" where
  "get_integer (CV_INTEGER i) = Inr i"
| "get_integer (CV_IDENTIFIER ident None) = Inl Undefined"
| "get_integer (CV_IDENTIFIER ident (Some e)) =
     (case get_constant_by_name e (after_last_dot ident) of
        None \<Rightarrow> Inl (Throw (''Unable to find enum value '' @ dq @ after_last_dot ident @ dq
          @ '' in enum '' @ dq @ enum_name e @ dq))
      | Some c \<Rightarrow> Inr (ev_value c))"
| "get_integer _ = Inl Undefined"

definition get_identifier_name :: "t_const_value \<Rightarrow> cxx_error + string" where
  "get_identifier_name cv =
     (let ret = get_identifier cv in
      case str_find CHR ''.'' ret of
        None \<Rightarrow> Inl (Throw (''error: identifier '' @ ret @ '' is unqualified!''))
      | Some s \<Rightarrow>
          (let ret = substr ret (Suc s) None in
           case str_find CHR ''.'' ret of
             None \<Rightarrow> Inr ret
           | Some s \<Rightarrow> Inr (substr ret (Suc s) None)))"

definition get_identifier_with_parent :: "t_const_value \<Rightarrow> cxx_error + string" where
  "get_identifier_with_parent cv =
     (let ret = get_identifier cv in
      case str_find CHR ''.'' ret of
        None \<Rightarrow> Inl (Throw (''error: identifier '' @ ret @ '' is unqualified!''))
      | Some s \<Rightarrow>
          (case str_find_at CHR ''.'' ret (Suc s) of
             None \<Rightarrow> Inr ret
           | Some s2 \<Rightarrow> Inr (substr ret (Suc s) None)))"

section \<open>Types\<close>

datatype t_base =
  TYPE_VOID | TYPE_STRING | TYPE_BOOL | TYPE_BYTE | TYPE_I16 | TYPE_I32 | TYPE_I64 | TYPE_DOUBLE

fun t_base_name :: "t_base \<Rightarrow> string" where
  "t_base_name TYPE_VOID = ''void''"
| "t_base_name TYPE_STRING = ''string''"
| "t_base_name TYPE_BOOL = ''bool''"
| "t_base_name TYPE_BYTE = ''byte''"
| "t_base_name TYPE_I16 = ''i16''"
| "t_base_name TYPE_I32 = ''i32''"
| "t_base_name TYPE_I64 = ''i64''"
| "t_base_name TYPE_DOUBLE = ''double''"

datatype e_req = T_REQUIRED | T_OPTIONAL | T_OPT_IN_REQ_OUT

type_synonym annotations = "(string \<times> string) list"

text \<open>
  A type points to its program; here it carries the program's path. A typedef without target
  is a forward one. A base type has its name, the base, and the flags \<^verbatim>\<open>binary_\<close> and
  \<^verbatim>\<open>string_list_\<close>.
\<close>

datatype t_type =
  t_base_type string t_base bool bool
| t_enum_type t_enum
| t_struct_type t_struct
| t_list t_type
| t_set t_type
| t_map t_type t_type
| t_typedef string string "t_type option"
and t_struct = t_struct
  (struct_program: string) (struct_name: string)
  (members: "t_field list") (members_in_id_order: "t_field list")
  (is_xception_flag: bool) (is_union: bool) (members_validated: bool) (members_with_value: int)
  (struct_annotations: annotations) (struct_doc: "string option")
and t_field = t_field
  (field_type: t_type) (field_name: string) (field_key: int) (field_req: e_req)
  (field_default: "t_const_value option") (field_annotations: annotations) (field_doc: "string option")

section \<open>Queries on types\<close>

fun get_name :: "t_type \<Rightarrow> string" where
  "get_name (t_base_type n b bin sl) = n"
| "get_name (t_enum_type e) = enum_name e"
| "get_name (t_struct_type s) = struct_name s"
| "get_name (t_typedef p n t) = n"
| "get_name _ = []"

fun get_program :: "t_type \<Rightarrow> string option" where
  "get_program (t_enum_type e) = Some (enum_program e)"
| "get_program (t_struct_type s) = Some (struct_program s)"
| "get_program (t_typedef p n t) = Some p"
| "get_program _ = None"

fun is_base_type :: "t_type \<Rightarrow> bool" where
  "is_base_type (t_base_type n b bin sl) = True"
| "is_base_type _ = False"

fun is_void :: "t_type \<Rightarrow> bool" where
  "is_void (t_base_type n b bin sl) = (b = TYPE_VOID)"
| "is_void _ = False"

fun is_binary :: "t_type \<Rightarrow> bool" where
  "is_binary (t_base_type n b bin sl) = (b = TYPE_STRING \<and> bin)"
| "is_binary _ = False"

fun is_string_list :: "t_type \<Rightarrow> bool" where
  "is_string_list (t_base_type n b bin sl) = (b = TYPE_STRING \<and> sl)"
| "is_string_list _ = False"

fun is_typedef :: "t_type \<Rightarrow> bool" where
  "is_typedef (t_typedef p n t) = True"
| "is_typedef _ = False"

fun is_enum :: "t_type \<Rightarrow> bool" where
  "is_enum (t_enum_type e) = True"
| "is_enum _ = False"

fun is_struct :: "t_type \<Rightarrow> bool" where
  "is_struct (t_struct_type s) = (\<not> is_xception_flag s)"
| "is_struct _ = False"

fun is_xception :: "t_type \<Rightarrow> bool" where
  "is_xception (t_struct_type s) = is_xception_flag s"
| "is_xception _ = False"

fun is_container :: "t_type \<Rightarrow> bool" where
  "is_container (t_list t) = True"
| "is_container (t_set t) = True"
| "is_container (t_map k v) = True"
| "is_container _ = False"

fun get_base :: "t_type \<Rightarrow> t_base option" where
  "get_base (t_base_type n b bin sl) = Some b"
| "get_base _ = None"

text \<open>
  \<^verbatim>\<open>get_true_type\<close>: a typedef without target looks its name up in the scope of its
  program, and the process ends when it is not there. Typedefs can name each other in a
  circle; fuel bounds the loop.
\<close>

type_synonym type_scopes = "string \<Rightarrow> string \<Rightarrow> t_type option"

definition typedef_get_type :: "type_scopes \<Rightarrow> string \<Rightarrow> string \<Rightarrow> t_type option \<Rightarrow> cxx_error + t_type" where
  "typedef_get_type scopes program symbolic target =
     (case target of
        Some t \<Rightarrow> Inr t
      | None \<Rightarrow>
          (case scopes program symbolic of
             Some t \<Rightarrow> Inr t
           | None \<Rightarrow> Inl (Exit 1 (''Type '' @ dq @ symbolic @ dq @ '' not defined''))))"

fun get_true_type :: "nat \<Rightarrow> type_scopes \<Rightarrow> t_type \<Rightarrow> cxx_error + t_type" where
  "get_true_type 0 scopes t = Inl Endless"
| "get_true_type (Suc n) scopes t =
     (case t of
        t_typedef p s target \<Rightarrow> rbind (typedef_get_type scopes p s target) (get_true_type n scopes)
      | _ \<Rightarrow> Inr t)"

lemma get_true_type_not_typedef: "get_true_type n scopes t = Inr u \<Longrightarrow> \<not> is_typedef u"
  by (induction n scopes t rule: get_true_type.induct)
     (auto simp: result_simps split: t_type.splits)

lemma get_true_type_direct: "\<not> is_typedef t \<Longrightarrow> get_true_type (Suc n) scopes t = Inr t"
  by (cases t) auto

text \<open>The base types that \<^verbatim>\<open>main\<close> creates.\<close>

definition g_type_void :: t_type where "g_type_void = t_base_type ''void'' TYPE_VOID False False"
definition g_type_string :: t_type where "g_type_string = t_base_type ''string'' TYPE_STRING False False"
definition g_type_binary :: t_type where "g_type_binary = t_base_type ''string'' TYPE_STRING True False"
definition g_type_slist :: t_type where "g_type_slist = t_base_type ''string'' TYPE_STRING False True"
definition g_type_bool :: t_type where "g_type_bool = t_base_type ''bool'' TYPE_BOOL False False"
definition g_type_byte :: t_type where "g_type_byte = t_base_type ''byte'' TYPE_BYTE False False"
definition g_type_i16 :: t_type where "g_type_i16 = t_base_type ''i16'' TYPE_I16 False False"
definition g_type_i32 :: t_type where "g_type_i32 = t_base_type ''i32'' TYPE_I32 False False"
definition g_type_i64 :: t_type where "g_type_i64 = t_base_type ''i64'' TYPE_I64 False False"
definition g_type_double :: t_type where "g_type_double = t_base_type ''double'' TYPE_DOUBLE False False"

section \<open>Warnings\<close>

text \<open>
  Most of the compiler runs with a log of the warnings it prints, each with its level; the
  level of the command line decides later which are shown.
\<close>

type_synonym 'a compile = "((nat \<times> string) list, cxx_error, 'a) sexn"

definition pwarning :: "nat \<Rightarrow> string \<Rightarrow> unit compile" where
  "pwarning level msg = sbind sget (\<lambda>log. sput (log @ [(level, msg)]))"

section \<open>Structs\<close>

definition with_req :: "e_req \<Rightarrow> t_field \<Rightarrow> t_field" where
  "with_req r f =
     t_field (field_type f) (field_name f) (field_key f) r (field_default f) (field_annotations f) (field_doc f)"

definition new_struct :: "string \<Rightarrow> string \<Rightarrow> t_struct" where
  "new_struct program name = t_struct program name [] [] False False False 0 [] None"

definition get_field_by_name :: "t_struct \<Rightarrow> string \<Rightarrow> t_field option" where
  "get_field_by_name s name = find (\<lambda>f. field_name f = name) (members_in_id_order s)"

text \<open>
  Both member vectors point to the same fields, so a change of a field shows in both; ids are
  unique, which makes them stand for the pointers.
\<close>

definition update_field :: "(t_field \<Rightarrow> t_field) \<Rightarrow> int \<Rightarrow> t_struct \<Rightarrow> t_struct" where
  "update_field g key s =
     (let upd = map (\<lambda>f. if field_key f = key then g f else f) in
      t_struct (struct_program s) (struct_name s) (upd (members s)) (upd (members_in_id_order s))
        (is_xception_flag s) (is_union s) (members_validated s) (members_with_value s)
        (struct_annotations s) (struct_doc s))"

definition with_members_with_value :: "int \<Rightarrow> t_struct \<Rightarrow> t_struct" where
  "with_members_with_value n s =
     t_struct (struct_program s) (struct_name s) (members s) (members_in_id_order s)
       (is_xception_flag s) (is_union s) (members_validated s) n (struct_annotations s) (struct_doc s)"

definition validate_union_member :: "t_field \<Rightarrow> t_struct \<Rightarrow> t_struct compile" where
  "validate_union_member field s =
     (if is_union s \<and> struct_name s \<noteq> [] then
        sbind (if field_req field = T_REQUIRED then
                 sbind (pwarning 1 (''Required field '' @ field_name field @ '' of union ''
                          @ struct_name s @ '' set to optional.'' @ nl)) (\<lambda>_.
                 sret (update_field (with_req T_OPTIONAL) (field_key field) s))
               else sret s) (\<lambda>s.
        if field_default field \<noteq> None then
          (let n = members_with_value s + 1 in
           if 1 < n then
             sraise (Throw (''Error: Field '' @ field_name field
               @ '' provides another default value for union '' @ struct_name s))
           else sret (with_members_with_value n s))
        else sret s)
      else sret s)"

definition validate_union_members :: "t_struct \<Rightarrow> t_struct compile" where
  "validate_union_members s =
     (if is_union s \<and> struct_name s \<noteq> [] \<and> \<not> members_validated s then
        sbind (sfold validate_union_member (members_in_id_order s) s) (\<lambda>s.
        sret (t_struct (struct_program s) (struct_name s) (members s) (members_in_id_order s)
          (is_xception_flag s) (is_union s) True (members_with_value s)
          (struct_annotations s) (struct_doc s)))
      else sret s)"

definition struct_set_name :: "string \<Rightarrow> t_struct \<Rightarrow> t_struct compile" where
  "struct_set_name name s =
     validate_union_members
       (t_struct (struct_program s) name (members s) (members_in_id_order s) (is_xception_flag s)
         (is_union s) (members_validated s) (members_with_value s) (struct_annotations s) (struct_doc s))"

definition set_union :: "bool \<Rightarrow> t_struct \<Rightarrow> t_struct compile" where
  "set_union u s =
     validate_union_members
       (t_struct (struct_program s) (struct_name s) (members s) (members_in_id_order s)
         (is_xception_flag s) u (members_validated s) (members_with_value s)
         (struct_annotations s) (struct_doc s))"

definition set_xception :: "bool \<Rightarrow> t_struct \<Rightarrow> t_struct" where
  "set_xception x s =
     t_struct (struct_program s) (struct_name s) (members s) (members_in_id_order s) x
       (is_union s) (members_validated s) (members_with_value s) (struct_annotations s) (struct_doc s)"

text \<open>
  \<^verbatim>\<open>append\<close>. On a sorted vector \<^verbatim>\<open>equal_range\<close> gives the first position
  whose key is not smaller and the first whose key is larger.
\<close>

definition equal_range :: "t_field list \<Rightarrow> int \<Rightarrow> nat \<times> nat" where
  "equal_range fs key =
     (length (takeWhile (\<lambda>f. field_key f < key) fs), length (takeWhile (\<lambda>f. \<not> key < field_key f) fs))"

definition struct_append :: "t_field \<Rightarrow> t_struct \<Rightarrow> (bool \<times> t_struct) compile" where
  "struct_append elem s =
     (let (first, second) = equal_range (members_in_id_order s) (field_key elem) in
      if first \<noteq> second then sret (False, s)
      else if get_field_by_name s (field_name elem) \<noteq> None then sret (False, s)
      else
        sbind (validate_union_member elem
          (t_struct (struct_program s) (struct_name s) (members s @ [elem])
             (take second (members_in_id_order s) @ elem # drop second (members_in_id_order s))
             (is_xception_flag s) (is_union s) (members_validated s) (members_with_value s)
             (struct_annotations s) (struct_doc s))) (\<lambda>s.
        sret (True, s)))"

section \<open>Functions and services\<close>

record t_function =
  returntype :: t_type
  fun_name :: string
  arglist :: t_struct
  xceptions :: t_struct
  is_oneway :: bool

definition new_function ::
  "t_type \<Rightarrow> string \<Rightarrow> t_struct \<Rightarrow> t_struct \<Rightarrow> bool \<Rightarrow> t_function compile" where
  "new_function rt name args xs oneway =
     (if oneway \<and> members xs \<noteq> [] then sraise (Throw ''Oneway methods can't throw exceptions.'')
      else
        sbind (if oneway \<and> \<not> is_void rt then pwarning 1 (''Oneway methods should return void.'' @ nl)
               else sret ()) (\<lambda>_.
        sret \<lparr>returntype = rt, fun_name = name, arglist = args, xceptions = xs, is_oneway = oneway\<rparr>))"

record t_service =
  svc_name :: string
  svc_functions :: "t_function list"
  extends :: "string option"
  svc_doc :: "string option"

definition add_function :: "t_function \<Rightarrow> t_service \<Rightarrow> cxx_error + t_service" where
  "add_function func s =
     (if fun_name func \<in> fun_name ` set (svc_functions s) then
        Inl (Throw (''Function '' @ fun_name func @ '' is already defined''))
      else Inr (s\<lparr>svc_functions := svc_functions s @ [func]\<rparr>))"

record t_const =
  const_type :: t_type
  const_name :: string
  const_value :: t_const_value
  const_doc :: "string option"

end
