(* ===== verification/Scope.thy ===== *)
theory Scope
  imports ParseTypes
begin

text \<open>
  Scopes (\<^verbatim>\<open>parse/t_scope.h\<close>): the tables of types, constants and services of a program,
  and \<^verbatim>\<open>resolve_const_value\<close>, which turns the identifiers of a constant value into
  values. A table is a \<^verbatim>\<open>std::map\<close> whose index operator inserts a null pointer
  (\<open>None\<close>) under a key it does not have.
\<close>

section \<open>Tables\<close>

record t_scope =
  sc_types :: "(string \<times> t_type option) list"
  sc_constants :: "(string \<times> t_const option) list"
  sc_services :: "(string \<times> t_service option) list"

definition new_scope :: t_scope where
  "new_scope = \<lparr>sc_types = [], sc_constants = [], sc_services = []\<rparr>"

text \<open>\<^verbatim>\<open>m[k]\<close> as a value: the entry, and the map with the entry in it.\<close>

definition omap_index ::
  "('k::linorder \<times> 'v option) list \<Rightarrow> 'k \<Rightarrow> 'v option \<times> ('k \<times> 'v option) list" where
  "omap_index m k =
     (case omap_find m k of Some v \<Rightarrow> (v, m) | None \<Rightarrow> (None, omap_insert k None m))"

type_synonym 'a scoped = "(t_scope, cxx_error, 'a) sexn"

definition add_type :: "string \<Rightarrow> t_type \<Rightarrow> unit scoped" where
  "add_type name ty =
     sbind sget (\<lambda>s. sput (s\<lparr>sc_types := omap_insert name (Some ty) (sc_types s)\<rparr>))"

definition get_type :: "string \<Rightarrow> t_type option scoped" where
  "get_type name =
     sbind sget (\<lambda>s. let (r, m) = omap_index (sc_types s) name in
       sbind (sput (s\<lparr>sc_types := m\<rparr>)) (\<lambda>_. sret r))"

definition add_service :: "string \<Rightarrow> t_service \<Rightarrow> unit scoped" where
  "add_service name service =
     sbind sget (\<lambda>s. sput (s\<lparr>sc_services := omap_insert name (Some service) (sc_services s)\<rparr>))"

definition get_service :: "string \<Rightarrow> t_service option scoped" where
  "get_service name =
     sbind sget (\<lambda>s. let (r, m) = omap_index (sc_services s) name in
       sbind (sput (s\<lparr>sc_services := m\<rparr>)) (\<lambda>_. sret r))"

definition add_constant :: "string \<Rightarrow> t_const \<Rightarrow> unit scoped" where
  "add_constant name c =
     sbind sget (\<lambda>s.
       if omap_find (sc_constants s) name \<noteq> None then
         sraise (Throw (''Enum '' @ name @ '' is already defined!''))
       else sput (s\<lparr>sc_constants := omap_insert name (Some c) (sc_constants s)\<rparr>))"

definition get_constant :: "string \<Rightarrow> t_const option scoped" where
  "get_constant name =
     sbind sget (\<lambda>s. let (r, m) = omap_index (sc_constants s) name in
       sbind (sput (s\<lparr>sc_constants := m\<rparr>)) (\<lambda>_. sret r))"

text \<open>\<^verbatim>\<open>print\<close>: a null entry, which a failed lookup leaves, is dereferenced.\<close>

definition scope_print :: "t_scope \<Rightarrow> cxx_error + string list" where
  "scope_print s =
     rmap (\<lambda>(name, ty). case ty of
         None \<Rightarrow> Inl Undefined
       | Some t \<Rightarrow> Inr (name @ '' => '' @ get_name t)) (sc_types s)"

definition scope_ok :: "t_scope \<Rightarrow> bool" where
  "scope_ok s \<longleftrightarrow> omap_ok (sc_types s) \<and> omap_ok (sc_constants s) \<and> omap_ok (sc_services s)"

section \<open>Constant resolution\<close>

text \<open>
  The value a constant gives to an identifier that names it. The fuel is for the typedefs of
  the constant's type.
\<close>

definition constant_value :: "nat \<Rightarrow> type_scopes \<Rightarrow> t_const \<Rightarrow> t_const_value \<Rightarrow> cxx_error + t_const_value" where
  "constant_value fuel scopes c const_val =
     rbind (get_true_type fuel scopes (const_type c)) (\<lambda>ty.
     case ty of
       t_base_type n b bin sl \<Rightarrow>
         (case b of
            TYPE_STRING \<Rightarrow> Inr (CV_STRING (get_string (const_value c)))
          | TYPE_DOUBLE \<Rightarrow> rbind (get_double (const_value c)) (\<lambda>d. Inr (CV_DOUBLE d))
          | TYPE_VOID \<Rightarrow> Inl (ThrowCString ''Constants cannot be of type VOID'')
          | _ \<Rightarrow> rbind (get_integer (const_value c)) (\<lambda>i. Inr (CV_INTEGER i)))
     | t_map k v \<Rightarrow> Inr (CV_MAP (get_map (const_value c)))
     | t_list e \<Rightarrow> Inr (CV_LIST (get_list (const_value c)))
     | _ \<Rightarrow> Inr const_val)"

lemma size_pair_elem: "(a, b) \<in> set ps \<Longrightarrow> size a < Suc (size_list (size_prod size size) ps)"
  "(a, b) \<in> set ps \<Longrightarrow> size b < Suc (size_list (size_prod size size) ps)"
  for ps :: "(t_const_value \<times> t_const_value) list"
  by (induction ps) auto

lemma get_map_smaller:
  "(a, b) \<in> set (get_map cv) \<Longrightarrow> size a < size cv" "(a, b) \<in> set (get_map cv) \<Longrightarrow> size b < size cv"
  by (cases cv; simp add: size_pair_elem)+

lemma get_list_smaller: "a \<in> set (get_list cv) \<Longrightarrow> size a < size cv"
  by (cases cv) (auto simp: less_Suc_eq_le intro: size_list_estimation')

text \<open>
  \<^verbatim>\<open>resolve_const_value\<close> gives the value as it is changed in place: on a map, list or
  struct type the value is not looked at itself, only the elements it has as a map or list.
\<close>

definition rebuild_map :: "t_const_value \<Rightarrow> (t_const_value \<times> t_const_value) list \<Rightarrow> t_const_value" where
  "rebuild_map cv ps = (case cv of CV_MAP m \<Rightarrow> CV_MAP ps | _ \<Rightarrow> cv)"

definition rebuild_list :: "t_const_value \<Rightarrow> t_const_value list \<Rightarrow> t_const_value" where
  "rebuild_list cv vs = (case cv of CV_LIST l \<Rightarrow> CV_LIST vs | _ \<Rightarrow> cv)"

function resolve_const_value :: "nat \<Rightarrow> type_scopes \<Rightarrow> t_const_value \<Rightarrow> t_type \<Rightarrow> t_const_value scoped" where
  "resolve_const_value fuel scopes const_val ttype =
     (case ttype of
        t_map kt vt \<Rightarrow>
          sbind (smap (\<lambda>(k, v).
            sbind (resolve_const_value fuel scopes k kt) (\<lambda>k'.
            sbind (resolve_const_value fuel scopes v vt) (\<lambda>v'. sret (k', v')))) (get_map const_val)) (\<lambda>ps.
          sret (rebuild_map const_val ps))
      | t_list et \<Rightarrow>
          sbind (smap (\<lambda>v. resolve_const_value fuel scopes v et) (get_list const_val)) (\<lambda>vs.
          sret (rebuild_list const_val vs))
      | t_set et \<Rightarrow>
          sbind (smap (\<lambda>v. resolve_const_value fuel scopes v et) (get_list const_val)) (\<lambda>vs.
          sret (rebuild_list const_val vs))
      | _ \<Rightarrow>
     if is_struct ttype then
       (case ttype of
          t_struct_type tstruct \<Rightarrow>
            sbind (smap (\<lambda>(k, v).
              case get_field_by_name tstruct (get_string k) of
                None \<Rightarrow> sraise (Throw (''No field named '' @ dq @ get_string k @ dq
                  @ '' was found in struct of type '' @ dq @ struct_name tstruct @ dq))
              | Some field \<Rightarrow>
                  sbind (resolve_const_value fuel scopes v (field_type field)) (\<lambda>v'. sret (k, v')))
              (get_map const_val)) (\<lambda>ps.
            sret (rebuild_map const_val ps))
        | _ \<Rightarrow> sret const_val)
     else
       (case const_val of
          CV_IDENTIFIER ident en \<Rightarrow>
            (case ttype of
               t_enum_type tenum \<Rightarrow> sret (CV_IDENTIFIER ident (Some tenum))
             | _ \<Rightarrow>
                 sbind (get_constant ident) (\<lambda>c.
                 case c of
                   None \<Rightarrow> sraise (Throw (''No enum value or constant found named '' @ dq @ ident
                     @ dq @ ''!''))
                 | Some c \<Rightarrow> slift (constant_value fuel scopes c const_val)))
        | _ \<Rightarrow>
            (case ttype of
               t_enum_type tenum \<Rightarrow>
                 sbind (slift (get_integer const_val)) (\<lambda>i.
                 case get_constant_by_value tenum i of
                   None \<Rightarrow> sraise (Throw (''Couldn't find a named value in enum '' @ enum_name tenum
                     @ '' for value '' @ show_int i))
                 | Some ev \<Rightarrow>
                     sret (CV_IDENTIFIER (enum_name tenum @ ''.'' @ ev_name ev) (Some tenum)))
             | _ \<Rightarrow> sret const_val)))"
  by pat_completeness auto
termination
  by (relation "measure (\<lambda>(fuel, scopes, cv, ty). size cv)") (auto intro: get_map_smaller get_list_smaller)

declare resolve_const_value.simps [simp del]

end
