(* ===== verification/ThriftProgram.thy ===== *)
theory ThriftProgram
  imports Scope
begin

text \<open>
  Programs (\<^verbatim>\<open>parse/t_program.h\<close>): one parsed file with its definitions, namespaces
  and includes, and the tests for colliding type names. The functions on file names are
  those of \<^verbatim>\<open>main.cc\<close>.
\<close>

section \<open>File names\<close>

definition program_name :: "string \<Rightarrow> string" where
  "program_name filename =
     (let filename = (case str_rfind CHR ''/'' filename of
                        Some slash \<Rightarrow> substr filename (Suc slash) None | None \<Rightarrow> filename) in
      case str_rfind CHR ''.'' filename of
        Some dot \<Rightarrow> substr filename 0 (Some dot) | None \<Rightarrow> filename)"

definition directory_name :: "string \<Rightarrow> string" where
  "directory_name filename =
     (case str_rfind CHR ''/'' filename of
        None \<Rightarrow> ''.'' | Some slash \<Rightarrow> substr filename 0 (Some slash))"

section \<open>The record of a program\<close>

text \<open>
  \<open>objects\<close> lists structs and exceptions together in the order of declaration. A typedef
  comes with its doc text, as the type itself does not carry one. The programs it includes
  are below it in the tree \<open>program\<close>.
\<close>

record t_program =
  prog_path :: string
  prog_name :: string
  out_path :: string
  out_path_is_absolute :: bool
  prog_namespace :: string
  include_prefix :: string
  prog_scope :: t_scope
  typedefs :: "(t_type \<times> string option) list"
  enums :: "t_enum list"
  prog_consts :: "t_const list"
  objects :: "t_struct list"
  structs :: "t_struct list"
  prog_xceptions :: "t_struct list"
  services :: "t_service list"
  namespaces :: "(string \<times> string) list"
  cpp_includes :: "string list"
  c_includes :: "string list"
  prog_doc :: "string option"

datatype program = Program (the_program: t_program) (get_includes: "program list")

text \<open>The programs of a tree, each before the ones it includes.\<close>

fun program_tree :: "program \<Rightarrow> t_program list" where
  "program_tree (Program p incs) = p # concat (map program_tree incs)"

definition new_program :: "string \<Rightarrow> t_program" where
  "new_program path =
     \<lparr>prog_path = path, prog_name = program_name path, out_path = ''./'',
      out_path_is_absolute = False, prog_namespace = [], include_prefix = [],
      prog_scope = new_scope, typedefs = [], enums = [], prog_consts = [], objects = [], structs = [],
      prog_xceptions = [], services = [], namespaces = [], cpp_includes = [], c_includes = [],
      prog_doc = None\<rparr>"

definition add_typedef :: "t_type \<Rightarrow> string option \<Rightarrow> t_program \<Rightarrow> t_program" where
  "add_typedef td doc p = p\<lparr>typedefs := typedefs p @ [(td, doc)]\<rparr>"

definition add_enum :: "t_enum \<Rightarrow> t_program \<Rightarrow> t_program" where
  "add_enum te p = p\<lparr>enums := enums p @ [te]\<rparr>"

definition add_const :: "t_const \<Rightarrow> t_program \<Rightarrow> t_program" where
  "add_const tc p = p\<lparr>prog_consts := prog_consts p @ [tc]\<rparr>"

definition add_struct :: "t_struct \<Rightarrow> t_program \<Rightarrow> t_program" where
  "add_struct ts p = p\<lparr>objects := objects p @ [ts], structs := structs p @ [ts]\<rparr>"

definition add_xception :: "t_struct \<Rightarrow> t_program \<Rightarrow> t_program" where
  "add_xception tx p = p\<lparr>objects := objects p @ [tx], prog_xceptions := prog_xceptions p @ [tx]\<rparr>"

definition prog_add_service :: "t_service \<Rightarrow> t_program \<Rightarrow> t_program" where
  "prog_add_service ts p = p\<lparr>services := services p @ [ts]\<rparr>"

text \<open>\<^verbatim>\<open>out_path_.at(size - 1)\<close> throws on an empty path.\<close>

definition set_out_path :: "string \<Rightarrow> bool \<Rightarrow> t_program \<Rightarrow> cxx_error + t_program" where
  "set_out_path path absolute p =
     (if path = [] then Inl OutOfRange
      else if last path = CHR ''/'' \<or> last path = CHR 0x5C
      then Inr (p\<lparr>out_path := path, out_path_is_absolute := absolute\<rparr>)
      else Inr (p\<lparr>out_path := path @ ''/'', out_path_is_absolute := absolute\<rparr>))"

definition set_include_prefix :: "string \<Rightarrow> t_program \<Rightarrow> t_program" where
  "set_include_prefix prefix p =
     p\<lparr>include_prefix := if prefix \<noteq> [] \<and> last prefix \<noteq> CHR ''/'' then prefix @ ''/'' else prefix\<rparr>"

text \<open>The prefix is the site of the include without its file name.\<close>

definition new_include :: "string \<Rightarrow> string \<Rightarrow> t_program" where
  "new_include path include_site =
     set_include_prefix
       (case str_rfind CHR ''/'' include_site of
          Some last_slash \<Rightarrow> substr include_site 0 (Some last_slash) | None \<Rightarrow> [])
       (new_program path)"

fun add_include :: "string \<Rightarrow> string \<Rightarrow> program \<Rightarrow> program" where
  "add_include path include_site (Program p incs) =
     Program p (incs @ [Program (new_include path include_site) []])"

section \<open>Namespaces\<close>

text \<open>
  \<open>generators\<close> is the registry: the test \<^verbatim>\<open>is_valid_namespace\<close> of each registered
  generator, by its short name.
\<close>

type_synonym gen_map = "(string \<times> (string \<Rightarrow> bool)) list"

definition set_namespace :: "gen_map \<Rightarrow> string \<Rightarrow> string \<Rightarrow> t_program \<Rightarrow> t_program compile" where
  "set_namespace generators language name_space p =
     sbind (if language \<noteq> ''*'' then
        (let sub_index = str_find CHR ''.'' language;
             base_language = substr language 0 sub_index in
         sbind (if base_language = ''smalltalk'' then
                  pwarning 1 (''Namespace '' @ sq @ ''smalltalk'' @ sq @ '' is deprecated. Use ''
                    @ sq @ ''st'' @ sq @ '' instead'')
                else sret ()) (\<lambda>_.
         let base_language = (if base_language = ''smalltalk'' then ''st'' else base_language) in
         case omap_find generators base_language of
           None \<Rightarrow> sret ()
         | Some valid \<Rightarrow>
             (case sub_index of
                None \<Rightarrow> sret ()
              | Some i \<Rightarrow>
                  if valid (substr language (Suc i) None) then sret ()
                  else pwarning 1 (base_language @ '' generator does not accept '' @ sq
                    @ substr language (Suc i) None @ sq @ '' as sub-namespace!''))))
      else sret ()) (\<lambda>_.
     sret (p\<lparr>namespaces := omap_insert language name_space (namespaces p)\<rparr>))"

definition get_namespace :: "t_program \<Rightarrow> string \<Rightarrow> string" where
  "get_namespace p language =
     (case omap_find (namespaces p) language of
        Some ns \<Rightarrow> ns
      | None \<Rightarrow> (case omap_find (namespaces p) ''*'' of Some ns \<Rightarrow> ns | None \<Rightarrow> []))"

section \<open>Colliding type names\<close>

text \<open>
  A type of a program is referred to by the collection it is in and its position there, as a
  pointer would; \<open>ref_owner\<close> is its program.
\<close>

datatype collection = Typedefs | Enums | Objects | Services

record type_ref =
  ref_owner :: t_program
  ref_collection :: collection
  ref_position :: nat

fun collection_names :: "t_program \<Rightarrow> collection \<Rightarrow> string list" where
  "collection_names p Typedefs = map (get_name \<circ> fst) (typedefs p)"
| "collection_names p Enums = map enum_name (enums p)"
| "collection_names p Objects = map struct_name (objects p)"
| "collection_names p Services = map svc_name (services p)"

definition ref_name :: "type_ref \<Rightarrow> string" where
  "ref_name t = collection_names (ref_owner t) (ref_collection t) ! ref_position t"

text \<open>
  Programs are compared by their paths. The test is made for a type of the program being
  parsed, against that program and its includes, and an include with the program's own path
  would be a cycle of includes, which the parse does not leave.
\<close>

definition same_program :: "t_program \<Rightarrow> t_program \<Rightarrow> bool" where
  "same_program p q \<longleftrightarrow> prog_path p = prog_path q"

text \<open>One of the two loops of \<^verbatim>\<open>is_common_namespace\<close>, over the namespaces of one program.\<close>

definition namespaces_match ::
  "string \<Rightarrow> t_program \<Rightarrow> t_program \<Rightarrow> t_program \<Rightarrow> t_program \<Rightarrow> bool \<Rightarrow> bool compile" where
  "namespaces_match tname owner prog of_prog other match =
     sfold (\<lambda>(scope, ns) match.
       if ns = get_namespace other scope then
         sbind (pwarning 1 (''Duplicate typename '' @ tname @ '' found in '' @ prog_name owner @ '',''
           @ scope @ '','' @ ns @ '' and '' @ prog_name prog @ '','' @ scope @ '','' @ ns
           @ '' [file,scope,ns]'')) (\<lambda>_. sret match)
       else sret False) (namespaces of_prog) match"

definition is_common_namespace :: "t_program \<Rightarrow> type_ref \<Rightarrow> bool compile" where
  "is_common_namespace prog t =
     (let tname = ref_name t; owner = ref_owner t in
      if same_program prog owner then
        sbind (pwarning 1 (''Duplicate typename '' @ tname @ '' found in '' @ prog_name owner)) (\<lambda>_.
        sret True)
      else
        sbind (namespaces_match tname owner prog prog owner True) (\<lambda>match.
        sbind (namespaces_match tname owner prog owner prog match) (\<lambda>match.
        sbind (if namespaces prog = [] \<and> namespaces owner = [] then
                 pwarning 1 (''Duplicate typename '' @ tname @ '' found in '' @ prog_name owner
                   @ '' and '' @ prog_name prog)
               else sret ()) (\<lambda>_.
        sret match))))"

definition collection_typename_count :: "t_program \<Rightarrow> collection \<Rightarrow> type_ref \<Rightarrow> nat compile" where
  "collection_typename_count prog coll t =
     sfold (\<lambda>(i, name) occurrences.
       if \<not> (same_program prog (ref_owner t) \<and> ref_collection t = coll \<and> ref_position t = i)
          \<and> ref_name t = name
       then sbind (is_common_namespace prog t) (\<lambda>c. sret (if c then occurrences + 1 else occurrences))
       else sret occurrences) (enumerate 0 (collection_names prog coll)) 0"

definition program_typename_count :: "t_program \<Rightarrow> type_ref \<Rightarrow> nat compile" where
  "program_typename_count prog t =
     sbind (collection_typename_count prog Typedefs t) (\<lambda>a.
     sbind (collection_typename_count prog Enums t) (\<lambda>b.
     sbind (collection_typename_count prog Objects t) (\<lambda>c.
     sbind (collection_typename_count prog Services t) (\<lambda>d.
     sret (a + b + c + d)))))"

definition is_unique_typename :: "program \<Rightarrow> type_ref \<Rightarrow> bool compile" where
  "is_unique_typename p t =
     sbind (program_typename_count (the_program p) t) (\<lambda>occurrences.
     sbind (sfold (\<lambda>inc n. sbind (program_typename_count (the_program inc) t) (\<lambda>m. sret (n + m)))
              (get_includes p) occurrences) (\<lambda>occurrences.
     sret (occurrences = 0)))"

end
