(* ===== verification/Globals.thy ===== *)
theory Globals
  imports ThriftProgram
begin

text \<open>
  The global variables of the compiler (\<^verbatim>\<open>main.cc\<close>, \<^verbatim>\<open>globals.h\<close>) as one record, and
  the functions that print messages. What is printed is kept in \<open>printed\<close>, with the stream,
  and the generated files with their contents in \<open>written\<close>.
\<close>

datatype stream = Stdout | Stderr

datatype PROGDOCTEXT_STATUS =
  INVALID | STILL_CANDIDATE | ALREADY_PROCESSED | ABSOLUTELY_SURE | NO_PROGRAM_DOCTEXT

record globals =
  g_curdir :: string
  g_curpath :: string
  g_incl_searchpath :: "string list"
  g_debug :: int
  g_strict :: int
  g_warn :: int
  g_verbose :: int
  g_doctext :: "string option"
  g_doctext_lineno :: int
  g_program_doctext_candidate :: "string option"
  g_program_doctext_lineno :: int
  g_program_doctext_status :: PROGDOCTEXT_STATUS
  g_allow_neg_field_keys :: bool
  g_allow_64bit_consts :: bool
  gen_recurse :: bool
  g_audit :: bool
  g_return_failure :: bool
  g_audit_fatal :: bool
  generated_files :: "string list"
  program_to_scope :: "(string \<times> t_scope) list"
  yylineno :: int
  yytext :: string
  printed :: "(stream \<times> string) list"
  written :: "(string \<times> string) list"

definition initial_globals :: globals where
  "initial_globals =
     \<lparr>g_curdir = [], g_curpath = [], g_incl_searchpath = [], g_debug = 0, g_strict = 127, g_warn = 1,
      g_verbose = 0, g_doctext = None, g_doctext_lineno = 0, g_program_doctext_candidate = None,
      g_program_doctext_lineno = 0, g_program_doctext_status = INVALID,
      g_allow_neg_field_keys = False, g_allow_64bit_consts = False, gen_recurse = False,
      g_audit = False, g_return_failure = False, g_audit_fatal = True, generated_files = [],
      program_to_scope = [], yylineno = 1, yytext = [], printed = [], written = []\<rparr>"

type_synonym 'a comp = "(globals, cxx_error, 'a) sexn"

definition modify :: "(globals \<Rightarrow> globals) \<Rightarrow> unit comp" where
  "modify f = sbind sget (\<lambda>g. sput (f g))"

definition print_to :: "stream \<Rightarrow> string \<Rightarrow> unit comp" where
  "print_to st s = modify (\<lambda>g. g\<lparr>printed := printed g @ [(st, s)]\<rparr>)"

section \<open>Messages\<close>

definition yyerror :: "string \<Rightarrow> unit comp" where
  "yyerror msg = sbind sget (\<lambda>g.
     print_to Stderr (''[ERROR:'' @ g_curpath g @ '':'' @ show_int (yylineno g)
       @ ''] (last token was '' @ sq @ yytext g @ sq @ '')'' @ nl @ msg @ nl))"

definition pdebug :: "string \<Rightarrow> unit comp" where
  "pdebug msg = sbind sget (\<lambda>g.
     if g_debug g = 0 then sret ()
     else print_to Stdout (''[PARSE:'' @ show_int (yylineno g) @ ''] '' @ msg @ nl))"

definition pverbose :: "string \<Rightarrow> unit comp" where
  "pverbose msg = sbind sget (\<lambda>g. if g_verbose g = 0 then sret () else print_to Stdout msg)"

definition print_warning :: "int \<Rightarrow> string \<Rightarrow> unit comp" where
  "print_warning level msg = sbind sget (\<lambda>g.
     if g_warn g < level then sret ()
     else print_to Stdout (''[WARNING:'' @ g_curpath g @ '':'' @ show_int (yylineno g) @ ''] ''
       @ msg @ nl))"

definition failure :: "string \<Rightarrow> 'a comp" where
  "failure msg = sbind sget (\<lambda>g.
     sbind (print_to Stderr (''[FAILURE:'' @ g_curpath g @ '':'' @ show_int (yylineno g) @ ''] '' @ msg)) (\<lambda>_.
     sbind (print_to Stdout nl) (\<lambda>_.
     sraise (Exit 1 []))))"

text \<open>
  The parse tree logs its warnings with their levels; here they are printed, in order, under
  the level of the command line.
\<close>

definition print_log :: "'a compile \<Rightarrow> 'a comp" where
  "print_log m g =
     (let (r, warnings) = m [] in
      case sfor (\<lambda>(level, msg). print_warning (int level) msg) warnings g of
        (Inl e, g') \<Rightarrow> (Inl e, g') | (Inr _, g') \<Rightarrow> (r, g'))"

lemma modify_apply [simp]: "modify f g = (Inr (), f g)"
  by (simp add: modify_def)

lemma print_to_apply [simp]: "print_to st s g = (Inr (), g\<lparr>printed := printed g @ [(st, s)]\<rparr>)"
  by (simp add: print_to_def)

lemma sbind_modify [simp]: "sbind (modify f) k g = k () (f g)"
  by (simp add: sbind_returns)

lemma sbind_print_to [simp]: "sbind (print_to st s) k g = k () (g\<lparr>printed := printed g @ [(st, s)]\<rparr>)"
  by (simp add: sbind_returns)

text \<open>A message function changes nothing but what is printed.\<close>

definition only_prints :: "unit comp \<Rightarrow> bool" where
  "only_prints m \<longleftrightarrow> (\<forall>g. \<exists>out. m g = (Inr (), g\<lparr>printed := printed g @ out\<rparr>))"

lemma only_prints_if: "only_prints m \<Longrightarrow> only_prints n \<Longrightarrow> only_prints (if c then m else n)"
  by simp

lemma only_prints_ret: "only_prints (sret ())"
  unfolding only_prints_def by (metis append_Nil2 globals.surjective globals.update_convs(23) sret_apply)

lemma only_prints_print: "only_prints (print_to st s)"
  by (auto simp: only_prints_def)

lemma only_prints_get: "(\<And>g. only_prints (f g)) \<Longrightarrow> only_prints (sbind sget f)"
  by (simp add: only_prints_def)

lemma only_prints_bind:
  assumes "only_prints m" "only_prints (f ())"
  shows "only_prints (sbind m f)"
  unfolding only_prints_def
proof
  fix g
  obtain a where a: "m g = (Inr (), g\<lparr>printed := printed g @ a\<rparr>)"
    using assms(1) unfolding only_prints_def by blast
  obtain b where b: "f () (g\<lparr>printed := printed g @ a\<rparr>) = (Inr (), g\<lparr>printed := (printed g @ a) @ b\<rparr>)"
    using assms(2) [unfolded only_prints_def, rule_format, of "g\<lparr>printed := printed g @ a\<rparr>"] by auto
  show "\<exists>out. sbind m f g = (Inr (), g\<lparr>printed := printed g @ out\<rparr>)"
    using a b by (intro exI [of _ "a @ b"]) (simp add: sbind_returns)
qed

lemma messages_only_print:
  "only_prints (yyerror msg)" "only_prints (pdebug msg)" "only_prints (pverbose msg)"
  "only_prints (print_warning level msg)"
  unfolding yyerror_def pdebug_def pverbose_def print_warning_def
  by (intro only_prints_get only_prints_if only_prints_ret only_prints_print)+

lemma sbind_only_prints:
  assumes "only_prints m"
  shows "\<exists>out. sbind m f g = f () (g\<lparr>printed := printed g @ out\<rparr>)"
  using assms unfolding only_prints_def by (metis sbind_returns)

end
