(* ===== verification/Doctext.thy ===== *)
theory Doctext
  imports Globals
begin

text \<open>
  Doc comments (\<^verbatim>\<open>main.cc\<close>, \<^verbatim>\<open>parse/t_doc.h\<close>): which comment is the
  program's, the clean-up of a comment's text, and the dump of all docs.
\<close>

section \<open>The program doc text\<close>

definition clear_doctext :: "unit comp" where
  "clear_doctext = sbind sget (\<lambda>g.
     sbind (if g_doctext g \<noteq> None
            then print_warning 2 (''Uncaptured doctext at on line '' @ show_int (g_doctext_lineno g) @ ''.'')
            else sret ()) (\<lambda>_.
     modify (\<lambda>g. g\<lparr>g_doctext := None\<rparr>)))"

definition reset_program_doctext_info :: "unit comp" where
  "reset_program_doctext_info =
     sbind (modify (\<lambda>g. g\<lparr>g_program_doctext_candidate := None, g_program_doctext_lineno := 0,
       g_program_doctext_status := INVALID\<rparr>)) (\<lambda>_.
     pdebug ''program doctext set to INVALID'')"

definition declare_valid_program_doctext :: "unit comp" where
  "declare_valid_program_doctext = sbind sget (\<lambda>g.
     if g_program_doctext_candidate g \<noteq> None \<and> g_program_doctext_status g = STILL_CANDIDATE
     then sbind (modify (\<lambda>g. g\<lparr>g_program_doctext_status := ABSOLUTELY_SURE\<rparr>)) (\<lambda>_.
            pdebug ''program doctext set to ABSOLUTELY_SURE'')
     else sbind (modify (\<lambda>g. g\<lparr>g_program_doctext_status := NO_PROGRAM_DOCTEXT\<rparr>)) (\<lambda>_.
            pdebug ''program doctext set to NO_PROGRAM_DOCTEXT''))"

text \<open>\<^verbatim>\<open>t_doc::set_doc\<close>; the doc of the object is the result.\<close>

definition set_doc :: "string \<Rightarrow> string option comp" where
  "set_doc doc = sbind sget (\<lambda>g.
     sbind (if g_program_doctext_lineno g = g_doctext_lineno g
               \<and> g_program_doctext_status g = STILL_CANDIDATE
            then sbind (modify (\<lambda>g. g\<lparr>g_program_doctext_status := ALREADY_PROCESSED\<rparr>)) (\<lambda>_.
                   pdebug ''program doctext set to ALREADY_PROCESSED'')
            else sret ()) (\<lambda>_.
     sret (Some doc)))"

section \<open>Cleaning a comment\<close>

definition blank :: "char \<Rightarrow> bool" where
  "blank c \<longleftrightarrow> c = CHR 0x20 \<or> c = CHR 0x09"

text \<open>\<^verbatim>\<open>find_first_not_of\<close> and \<^verbatim>\<open>find_last_not_of\<close> the blanks.\<close>

definition first_not_blank :: "string \<Rightarrow> nat option" where
  "first_not_blank s = (let n = length (takeWhile blank s) in if n = length s then None else Some n)"

definition last_not_blank :: "string \<Rightarrow> nat option" where
  "last_not_blank s = map_option (\<lambda>n. length s - Suc n) (first_not_blank (rev s))"

function doc_lines :: "string \<Rightarrow> string list" where
  "doc_lines s =
     (case str_find CHR 0x0A s of
        None \<Rightarrow> (if first_not_blank s = None then [] else [s])
      | Some pos \<Rightarrow> take pos s # doc_lines (drop (Suc pos) s))"
  by pat_completeness auto
termination
  by (relation "measure length") (auto dest: str_find_Some(1))

declare doc_lines.simps [simp del]

text \<open>
  The search for a common prefix of blanks and a star: it clears lines of blanks on its way,
  and stops at the first line that breaks the pattern. The result has the lines, whether the
  pattern held, and the position of the star.
\<close>

fun star_prefix :: "bool \<Rightarrow> nat \<Rightarrow> string list \<Rightarrow> string list \<times> bool \<times> nat" where
  "star_prefix found prefix_len [] = ([], True, prefix_len)"
| "star_prefix found prefix_len (l # ls) =
     (let keep = (\<lambda>l (ls', r). (l # ls', r)) in
      if l = [] then keep l (star_prefix found prefix_len ls)
      else
        case first_not_blank l of
          None \<Rightarrow> keep [] (star_prefix found prefix_len ls)
        | Some pos \<Rightarrow>
            if l ! pos = CHR ''*'' \<and> (\<not> found \<or> pos = prefix_len)
            then keep l (star_prefix True pos ls)
            else (l # ls, False, prefix_len))"

definition min_indent :: "string list \<Rightarrow> nat option" where
  "min_indent ls =
     foldl (\<lambda>r l. if l = [] then r
       else case first_not_blank l of
         None \<Rightarrow> r
       | Some pos \<Rightarrow> (case r of None \<Rightarrow> Some pos | Some n \<Rightarrow> if pos < n then Some pos else r)) None ls"

definition trim_right :: "string \<Rightarrow> string" where
  "trim_right l =
     (case last_not_blank l of
        None \<Rightarrow> l
      | Some pos \<Rightarrow> if pos \<noteq> length l - 1 then take (Suc pos) l else l)"

definition clean_up_doctext :: "string \<Rightarrow> string option" where
  "clean_up_doctext doctext =
     (case doc_lines (filter (\<lambda>c. c \<noteq> CHR 0x0D) doctext) of
        [] \<Rightarrow> None
      | front # ls \<Rightarrow>
          (let front = (case first_not_blank front of None \<Rightarrow> [] | Some pos \<Rightarrow> drop pos front);
               (ls, have_prefix, prefix_len) = star_prefix False 0 ls;
               ls = (if have_prefix then map (drop (Suc prefix_len)) ls else ls);
               ls = (case min_indent ls of None \<Rightarrow> ls | Some n \<Rightarrow> map (drop n) ls);
               all = map trim_right (front # ls);
               kept = (if hd all = [] then tl all else all)
           in Some (concat (map (\<lambda>l. l @ [CHR 0x0A]) kept))))"

section \<open>Dumping the docs\<close>

definition dump_doc :: "string \<Rightarrow> string \<Rightarrow> string option \<Rightarrow> unit comp" where
  "dump_doc kind name doc =
     (case doc of
        None \<Rightarrow> sret ()
      | Some d \<Rightarrow> print_to Stdout (kind @ '' '' @ name @ '':'' @ nl @ d @ nl))"

definition dump_docstrings :: "t_program \<Rightarrow> unit comp" where
  "dump_docstrings p =
     sbind (case prog_doc p of
              None \<Rightarrow> sret ()
            | Some d \<Rightarrow> if d = [] then sret ()
                        else print_to Stdout (''Whole program doc:'' @ nl @ d @ nl)) (\<lambda>_.
     sbind (sfor (\<lambda>(td, doc). dump_doc ''typedef'' (get_name td) doc) (typedefs p)) (\<lambda>_.
     sbind (sfor (\<lambda>en. dump_doc ''enum'' (enum_name en) (enum_doc en)) (enums p)) (\<lambda>_.
     sbind (sfor (\<lambda>co. dump_doc ''const'' (const_name co) (const_doc co)) (prog_consts p)) (\<lambda>_.
     sbind (sfor (\<lambda>st. dump_doc ''struct'' (struct_name st) (struct_doc st)) (structs p)) (\<lambda>_.
     sbind (sfor (\<lambda>xn. dump_doc ''xception'' (struct_name xn) (struct_doc xn)) (prog_xceptions p)) (\<lambda>_.
     sfor (\<lambda>sv. dump_doc ''service'' (svc_name sv) (svc_doc sv)) (services p)))))))"

end
