(* ===== verification/ConstCheck.thy ===== *)
theory ConstCheck
  imports Scope
begin

text \<open>
  The checks of \<^verbatim>\<open>main.cc\<close> on parsed definitions: the declared type of a constant or
  default value against the value, identifiers, and the members of a throws clause.
\<close>

section \<open>Checks that warn or end the process\<close>

datatype PARSE_MODE = INCLUDES | PROGRAM

definition check_for_list_of_bytes :: "PARSE_MODE \<Rightarrow> t_type option \<Rightarrow> unit compile" where
  "check_for_list_of_bytes g_parse_mode list_elem_type =
     (if g_parse_mode = PROGRAM \<and> list_elem_type \<noteq> None \<and> is_base_type (the list_elem_type)
         \<and> get_base (the list_elem_type) = Some TYPE_BYTE
      then pwarning 1 (''Consider using the more efficient '' @ dq @ ''binary'' @ dq
             @ '' type instead of '' @ dq @ ''list<byte>'' @ dq @ ''.'')
      else sret ())"

definition validate_simple_identifier :: "string \<Rightarrow> cxx_error + unit" where
  "validate_simple_identifier identifier =
     (if str_find CHR ''.'' identifier \<noteq> None
      then Inl (Exit 1 (''Identifier '' @ identifier @ [CHR 0x20] @ ''can'' @ sq @ ''t have a dot.''))
      else Inr ())"

section \<open>Constants against their types\<close>

definition base_const_ok :: "t_base \<Rightarrow> t_const_value \<Rightarrow> bool" where
  "base_const_ok b value =
     (case b of
        TYPE_VOID \<Rightarrow> False
      | TYPE_STRING \<Rightarrow> cv_type value = CVT_STRING
      | TYPE_DOUBLE \<Rightarrow> cv_type value = CVT_INTEGER \<or> cv_type value = CVT_DOUBLE
      | _ \<Rightarrow> cv_type value = CVT_INTEGER)"

text \<open>The last field of the name, as the search loop has no \<^verbatim>\<open>break\<close>.\<close>

definition find_field_type :: "t_field list \<Rightarrow> string \<Rightarrow> t_type option" where
  "find_field_type fs name =
     foldl (\<lambda>r f. if field_name f = name then Some (field_type f) else r) None fs"

function validate_const_rec :: "string \<Rightarrow> t_type \<Rightarrow> t_const_value \<Rightarrow> cxx_error + unit" where
  "validate_const_rec name type value =
     (if is_void type then Inl (Throw (''type error: cannot declare a void const: '' @ name))
      else
      case type of
        t_base_type n b bin sl \<Rightarrow>
          if base_const_ok b value then Inr ()
          else Inl (Throw (''type error: const '' @ dq @ name @ dq @ '' was declared as '' @ t_base_name b))
      | t_enum_type e \<Rightarrow>
          if cv_type value \<noteq> CVT_IDENTIFIER
          then Inl (Throw (''type error: const '' @ dq @ name @ dq @ '' was declared as enum''))
          else
            rbind (get_identifier_name value) (\<lambda>name_portion.
            if name_portion \<in> ev_name ` set (enum_constants e) then Inr ()
            else Inl (Throw (''type error: const '' @ name @ '' was declared as type '' @ enum_name e
              @ '' which is an enum, but '' @ get_identifier value @ '' is not a valid value for that enum'')))
      | t_struct_type s \<Rightarrow>
          if cv_type value \<noteq> CVT_MAP
          then Inl (Throw (''type error: const '' @ dq @ name @ dq @ '' was declared as struct/xception''))
          else
            rfold (\<lambda>(k, v) _.
              if cv_type k \<noteq> CVT_STRING
              then Inl (Throw (''type error: '' @ name @ '' struct key must be string''))
              else
                case find_field_type (members s) (get_string k) of
                  None \<Rightarrow> Inl (Throw (''type error: '' @ struct_name s @ '' has no field '' @ get_string k))
                | Some ft \<Rightarrow> validate_const_rec (name @ ''.'' @ get_string k) ft v) (get_map value) ()
      | t_map kt vt \<Rightarrow>
          rfold (\<lambda>(k, v) _.
            rbind (validate_const_rec (name @ ''<key>'') kt k) (\<lambda>_.
            validate_const_rec (name @ ''<val>'') vt v)) (get_map value) ()
      | t_list et \<Rightarrow>
          rfold (\<lambda>v _. validate_const_rec (name @ ''<elem>'') et v) (get_list value) ()
      | t_set et \<Rightarrow>
          rfold (\<lambda>v _. validate_const_rec (name @ ''<elem>'') et v) (get_list value) ()
      | t_typedef p n t \<Rightarrow> Inr ())"
  by pat_completeness auto
termination
  by (relation "measure (\<lambda>(name, ty, cv). size cv)") (auto intro: get_map_smaller get_list_smaller)

declare validate_const_rec.simps [simp del]

definition validate_const_type :: "t_const \<Rightarrow> cxx_error + unit" where
  "validate_const_type c = validate_const_rec (const_name c) (const_type c) (const_value c)"

definition validate_field_value :: "t_field \<Rightarrow> t_const_value \<Rightarrow> cxx_error + unit" where
  "validate_field_value field cv = validate_const_rec (field_name field) (field_type field) cv"

section \<open>Throws clauses\<close>

fun throws_ok :: "nat \<Rightarrow> type_scopes \<Rightarrow> t_field list \<Rightarrow> cxx_error + bool" where
  "throws_ok fuel scopes [] = Inr True"
| "throws_ok fuel scopes (f # fs) =
     rbind (get_true_type fuel scopes (field_type f)) (\<lambda>t.
     if is_xception t then throws_ok fuel scopes fs else Inr False)"

definition validate_throws :: "nat \<Rightarrow> type_scopes \<Rightarrow> t_struct \<Rightarrow> cxx_error + bool" where
  "validate_throws fuel scopes throws = throws_ok fuel scopes (members throws)"

end
