(* ===== verification/Lexer.thy ===== *)
theory Lexer
  imports Regex Doubles Doctext ConstCheck
begin

text \<open>
  The scanner \<^verbatim>\<open>compiler/src/thriftl.ll\<close>: its tokens, its rules in the order of the file,
  the actions of the rules, and \<^verbatim>\<open>yylex\<close>. Characters are bytes. A C string ends at its
  first null character.
\<close>

section \<open>Tokens\<close>

text \<open>
  The tokens with their semantic values. \<open>tok_sym\<close> is a token that is a character, and
  \<open>tok_eof\<close> the end of the input, which is any token number below one.
\<close>

datatype (plugins only: code size) token =
  tok_eof | tok_sym char | tok_identifier string | tok_literal string | tok_st_identifier string
| tok_int_constant int | tok_dub_constant "64 word"
  | tok_namespace | tok_cpp_namespace | tok_cpp_include | tok_cpp_type | tok_java_package
  | tok_cocoa_prefix | tok_csharp_namespace | tok_delphi_namespace | tok_php_namespace
  | tok_py_module | tok_perl_package | tok_ruby_namespace | tok_smalltalk_category
  | tok_smalltalk_prefix | tok_xsd_all | tok_xsd_optional | tok_xsd_nillable
  | tok_xsd_namespace | tok_xsd_attrs | tok_include | tok_void | tok_bool | tok_byte | tok_i16
  | tok_i32 | tok_i64 | tok_double | tok_string | tok_binary | tok_slist | tok_senum | tok_map
  | tok_list | tok_set | tok_oneway | tok_typedef | tok_struct | tok_union | tok_xception
  | tok_extends | tok_throws | tok_service | tok_enum | tok_const | tok_required | tok_optional
  | tok_reference | tok_resource

section \<open>Patterns\<close>

text \<open>Classes of characters, as \<^verbatim>\<open>[abc]\<close> and \<^verbatim>\<open>[^abc]\<close>.\<close>

definition one_of :: "string \<Rightarrow> char \<Rightarrow> bool" where
  "one_of cs c \<longleftrightarrow> c \<in> set cs"

definition none_of :: "string \<Rightarrow> char \<Rightarrow> bool" where
  "none_of cs c \<longleftrightarrow> c \<notin> set cs"

definition rx_digit :: rx where
  "rx_digit = RSet is_digit"

definition rx_sign :: rx where
  "rx_sign = rx_opt (RSet (one_of ''+-''))"

definition is_letter :: "char \<Rightarrow> bool" where
  "is_letter c \<longleftrightarrow> char_between (CHR ''a'') (CHR ''z'') c \<or> char_between (CHR ''A'') (CHR ''Z'') c"

definition is_hex_digit :: "char \<Rightarrow> bool" where
  "is_hex_digit c \<longleftrightarrow> is_digit c \<or> char_between (CHR ''A'') (CHR ''F'') c \<or> char_between (CHR ''a'') (CHR ''f'') c"

definition intconstant :: rx where
  "intconstant = RSeq rx_sign (rx_plus rx_digit)"

definition hexconstant :: rx where
  "hexconstant = rx_seq [rx_sign, RLit ''0x'', rx_plus (RSet is_hex_digit)]"

definition dubconstant :: rx where
  "dubconstant = rx_seq [rx_sign, RStar rx_digit, rx_opt (RSeq (RLit ''.'') (rx_plus rx_digit)),
     rx_opt (rx_seq [RSet (one_of ''eE''), rx_sign, rx_plus rx_digit])]"

definition id_char :: "char \<Rightarrow> bool" where
  "id_char c \<longleftrightarrow> is_letter c \<or> is_digit c \<or> c = CHR ''_''"

definition id_start :: "char \<Rightarrow> bool" where
  "id_start c \<longleftrightarrow> is_letter c \<or> c = CHR ''_''"

definition st_start :: "char \<Rightarrow> bool" where
  "st_start c \<longleftrightarrow> is_letter c \<or> c = CHR ''-''"

definition st_char :: "char \<Rightarrow> bool" where
  "st_char c \<longleftrightarrow> id_char c \<or> c = CHR ''-''"

definition rx_identifier :: rx where
  "rx_identifier = RSeq (RSet id_start)
     (RStar (RAlt (RSeq (RLit ''.'') (RSet id_char)) (RSet id_char)))"

definition st_identifier :: rx where
  "st_identifier = RSeq (RSet st_start)
     (RStar (RAlt (RSeq (RLit ''.'') (RSet st_char)) (RSet st_char)))"

definition whitespace :: rx where
  "whitespace = RStar (RSet (one_of [CHR '' '', CHR 0x09, CHR 0x0D, CHR 0x0A]))"

definition rx_stars :: rx where
  "rx_stars = RStar (RLit ''*'')"

definition sillycomm :: rx where
  "sillycomm = rx_seq [RLit ''/*'', rx_stars, RLit ''*/'']"

text \<open>\<^verbatim>\<open>([^*/]|[^*]"/"|"*"[^/])*\<close>, the inside of a comment.\<close>

definition comment_body :: rx where
  "comment_body = RStar (rx_alts
     [RSet (none_of ''*/''),
      RSeq (RSet (none_of ''*'')) (RLit ''/''),
      RSeq (RLit ''*'') (RSet (none_of ''/''))])"

definition multicomm :: rx where
  "multicomm = rx_seq [RLit ''/*'', RSet (none_of ''*''), RStar (RLit ''/''),
     comment_body, rx_stars, RLit ''*/'']"

definition doctext :: rx where
  "doctext = rx_seq [RLit ''/**'', comment_body, rx_stars, RLit ''*/'']"

definition comment :: rx where
  "comment = RSeq (RLit ''//'') (RStar (RSet (none_of [CHR 0x0A])))"

definition unixcomment :: rx where
  "unixcomment = RSeq (RLit ''#'') (RStar (RSet (none_of [CHR 0x0A])))"

definition symbol :: rx where
  "symbol = RSet (one_of '':;,{}()=<>[]'')"

definition literal_begin :: rx where
  "literal_begin = RSet (one_of [CHR 0x27, CHR 0x22])"

section \<open>Rules\<close>

text \<open>What the action of a rule does; \<open>Deprecated\<close> warns and returns a token.\<close>

datatype lex_action =
  Ignore | ReturnChar | Return token | ReturnInt int | Deprecated string token | Reserved
| IntConstant | HexConstant | DubConstant | Identifier | StIdentifier | LiteralBegin | DocText | Unexpected

definition keyword_rules :: "(string \<times> lex_action) list" where
  "keyword_rules =
     [
      (''false'', ReturnInt 0), (''true'', ReturnInt 1), (''namespace'', Return tok_namespace),
      (''cpp_namespace'', Return tok_cpp_namespace), (''cpp_include'', Return tok_cpp_include),
      (''cpp_type'', Return tok_cpp_type), (''java_package'', Return tok_java_package),
      (''cocoa_prefix'', Return tok_cocoa_prefix),
      (''csharp_namespace'', Return tok_csharp_namespace),
      (''delphi_namespace'', Return tok_delphi_namespace),
      (''php_namespace'', Return tok_php_namespace), (''py_module'', Return tok_py_module),
      (''perl_package'', Return tok_perl_package),
      (''ruby_namespace'', Return tok_ruby_namespace),
      (''smalltalk_category'', Return tok_smalltalk_category),
      (''smalltalk_prefix'', Return tok_smalltalk_prefix), (''xsd_all'', Return tok_xsd_all),
      (''xsd_optional'', Return tok_xsd_optional), (''xsd_nillable'', Return tok_xsd_nillable),
      (''xsd_namespace'', Return tok_xsd_namespace), (''xsd_attrs'', Return tok_xsd_attrs),
      (''include'', Return tok_include), (''void'', Return tok_void),
      (''bool'', Return tok_bool), (''byte'', Return tok_byte), (''i16'', Return tok_i16),
      (''i32'', Return tok_i32), (''i64'', Return tok_i64), (''double'', Return tok_double),
      (''string'', Return tok_string), (''binary'', Return tok_binary),
      (''slist'', Deprecated (dq @ ''slist'' @ dq @ '' is deprecated and will be removed in a future compiler version.  This type should be replaced with '' @ dq @ ''string'' @ dq @ ''.'' @ nl) tok_slist),
      (''senum'', Deprecated (dq @ ''senum'' @ dq @ '' is deprecated and will be removed in a future compiler version.  This type should be replaced with '' @ dq @ ''string'' @ dq @ ''.'' @ nl) tok_senum),
      (''map'', Return tok_map), (''list'', Return tok_list), (''set'', Return tok_set),
      (''oneway'', Return tok_oneway), (''typedef'', Return tok_typedef),
      (''struct'', Return tok_struct), (''union'', Return tok_union),
      (''exception'', Return tok_xception), (''extends'', Return tok_extends),
      (''throws'', Return tok_throws), (''service'', Return tok_service),
      (''enum'', Return tok_enum), (''const'', Return tok_const),
      (''required'', Return tok_required), (''optional'', Return tok_optional),
      (''async'', Deprecated (dq @ ''async'' @ dq @ '' is deprecated.  It is called '' @ dq @ ''oneway'' @ dq @ '' now.'' @ nl) tok_oneway),
      (''&'', Return tok_reference), (''resource'', Return tok_resource)]"

definition reserved_words :: "string list" where
  "reserved_words =
     [
      ''BEGIN'', ''END'', ''__CLASS__'', ''__DIR__'', ''__FILE__'', ''__FUNCTION__'',
      ''__LINE__'', ''__METHOD__'', ''__NAMESPACE__'', ''abstract'', ''alias'', ''and'',
      ''args'', ''as'', ''assert'', ''begin'', ''break'', ''case'', ''catch'', ''class'',
      ''clone'', ''continue'', ''declare'', ''def'', ''default'', ''del'', ''delete'', ''do'',
      ''dynamic'', ''elif'', ''else'', ''elseif'', ''elsif'', ''end'', ''enddeclare'',
      ''endfor'', ''endforeach'', ''endif'', ''endswitch'', ''endwhile'', ''ensure'', ''except'',
      ''exec'', ''finally'', ''float'', ''for'', ''foreach'', ''from'', ''function'', ''global'',
      ''goto'', ''if'', ''implements'', ''import'', ''in'', ''inline'', ''instanceof'',
      ''interface'', ''is'', ''lambda'', ''module'', ''native'', ''new'', ''next'', ''nil'',
      ''not'', ''or'', ''package'', ''pass'', ''public'', ''print'', ''private'', ''protected'',
      ''public'', ''raise'', ''redo'', ''rescue'', ''retry'', ''register'', ''return'', ''self'',
      ''sizeof'', ''static'', ''super'', ''switch'', ''synchronized'', ''then'', ''this'',
      ''throw'', ''transient'', ''try'', ''undef'', ''union'', ''unless'', ''unsigned'',
      ''until'', ''use'', ''var'', ''virtual'', ''volatile'', ''when'', ''while'', ''with'',
      ''xor'', ''yield'']"

text \<open>The dot of flex is any character but a line break; its second rule is never the first.\<close>

definition rx_any :: rx where
  "rx_any = RSet (none_of [CHR 0x0A])"

definition lex_rules :: "(rx \<times> lex_action) list" where
  "lex_rules =
     [(whitespace, Ignore), (sillycomm, Ignore), (multicomm, Ignore), (comment, Ignore),
      (unixcomment, Ignore), (symbol, ReturnChar), (RLit ''*'', ReturnChar)]
     @ map (\<lambda>(w, act). (RLit w, act)) keyword_rules
     @ map (\<lambda>w. (RLit w, Reserved)) reserved_words
     @ [(intconstant, IntConstant), (hexconstant, HexConstant), (dubconstant, DubConstant),
        (rx_identifier, Identifier), (st_identifier, StIdentifier), (literal_begin, LiteralBegin),
        (doctext, DocText), (rx_any, Unexpected), (rx_any, ReturnChar)]"

section \<open>Numbers\<close>

text \<open>\<^verbatim>\<open>strtoll\<close>, with \<open>None\<close> for a number out of range.\<close>

definition in_int64 :: "int \<Rightarrow> int option" where
  "in_int64 i = (if - (2 ^ 63) \<le> i \<and> i < 2 ^ 63 then Some i else None)"

definition strtoll_10 :: "string \<Rightarrow> int option" where
  "strtoll_10 s =
     (let (neg, ds) = split_sign s in in_int64 (if neg then - int (read_nat ds) else int (read_nat ds)))"

definition hex_value :: "char \<Rightarrow> nat" where
  "hex_value c =
     (if is_digit c then digit_value c
      else if char_between (CHR ''a'') (CHR ''f'') c then of_char c - 87 else of_char c - 55)"

definition strtoll_16 :: "string \<Rightarrow> int option" where
  "strtoll_16 ds = in_int64 (int (foldl (\<lambda>n c. 16 * n + hex_value c) 0 ds))"

definition hex_constant :: "string \<Rightarrow> int option" where
  "hex_constant s =
     (let sign = hd s; shift = (if sign = CHR ''0'' then 2 else 3) in
      map_option (\<lambda>i. if sign = CHR ''-'' then - i else i) (strtoll_16 (drop shift s)))"

section \<open>Literals\<close>

definition c_str :: "string \<Rightarrow> string" where
  "c_str = takeWhile (\<lambda>c. c \<noteq> CHR 0x00)"

definition escape_value :: "char \<Rightarrow> char option" where
  "escape_value c =
     (if c = CHR ''r'' then Some (CHR 0x0D) else if c = CHR ''n'' then Some (CHR 0x0A)
      else if c = CHR ''t'' then Some (CHR 0x09)
      else if c \<in> {CHR 0x22, CHR 0x27, CHR 0x5C} then Some c else None)"

text \<open>
  The loop that reads a literal character by character up to its closing mark: the literal and the
  rest of the input, or why it stops; a bad escape stops with the character after the backslash.
\<close>

datatype literal_end = LitDone string string | LitEof | LitEol | LitBadEscape "char option" string

fun read_literal :: "char \<Rightarrow> string \<Rightarrow> string \<Rightarrow> literal_end" where
  "read_literal mark result [] = LitEof"
| "read_literal mark result (ch # s) =
     (if ch = CHR 0x0A then LitEol
      else if ch = CHR 0x5C then
        (case s of
           [] \<Rightarrow> LitBadEscape None []
         | e # s' \<Rightarrow>
             (case escape_value e of
                Some c \<Rightarrow> read_literal mark (result @ [c]) s'
              | None \<Rightarrow> LitBadEscape (Some e) s'))
      else if ch = mark then LitDone result s
      else read_literal mark (result @ [ch]) s)"

section \<open>Actions\<close>

definition fatal :: "string \<Rightarrow> 'a comp" where
  "fatal msg = sbind (yyerror msg) (\<lambda>_. sraise (Exit 1 []))"

definition thrift_reserved_keyword :: "string \<Rightarrow> 'a comp" where
  "thrift_reserved_keyword keyword = fatal (''Cannot use reserved language keyword: '' @ dq @ keyword @ dq @ nl)"

definition integer_overflow :: "string \<Rightarrow> 'a comp" where
  "integer_overflow tx = fatal (''This integer is too big: '' @ dq @ tx @ dq @ nl)"

definition unexpected_token :: "string \<Rightarrow> 'a comp" where
  "unexpected_token tx = fatal (''Unexpected token in input: '' @ dq @ tx @ dq @ nl)"

text \<open>The scanner counts the lines of a match and sets \<^verbatim>\<open>yytext\<close> before the action.\<close>

definition count_lines :: "string \<Rightarrow> int" where
  "count_lines s = int (length (filter (\<lambda>c. c = CHR 0x0A) s))"

definition begin_action :: "string \<Rightarrow> unit comp" where
  "begin_action tx = modify (\<lambda>g. g\<lparr>yytext := tx, yylineno := yylineno g + count_lines tx\<rparr>)"

definition lex_literal :: "char \<Rightarrow> string \<Rightarrow> (token \<times> string) comp" where
  "lex_literal mark s =
     (case read_literal mark [] s of
        LitDone result rest \<Rightarrow> sret (tok_literal (c_str result), rest)
      | LitEof \<Rightarrow> sbind sget (\<lambda>g.
          fatal (''End of file while read string at '' @ show_int (yylineno g) @ nl))
      | LitEol \<Rightarrow>
          sbind (modify (\<lambda>g. g\<lparr>yylineno := yylineno g + 1\<rparr>)) (\<lambda>_. sbind sget (\<lambda>g.
          fatal (''End of line while read string at '' @ show_int (yylineno g - 1) @ nl)))
      | LitBadEscape e rest \<Rightarrow>
          sbind (if e = Some (CHR 0x0A) then modify (\<lambda>g. g\<lparr>yylineno := yylineno g + 1\<rparr>) else sret ()) (\<lambda>_.
          sbind (yyerror (''Bad escape character'' @ nl)) (\<lambda>_.
          sret (tok_eof, rest))))"

text \<open>
  The rule of doc comments. The assertion on the length fails on a null character at the start of
  the comment, and ends the process.
\<close>

definition capture_doctext :: "PARSE_MODE \<Rightarrow> string \<Rightarrow> unit comp" where
  "capture_doctext mode tx =
     (if mode = PROGRAM then
        sbind clear_doctext (\<lambda>_.
        let d = c_str (drop 3 tx) in
        if length d < 2 then sraise (Exit 134 [])
        else
          case clean_up_doctext (take (length d - 2) d @ '' '') of
            None \<Rightarrow> sraise Undefined
          | Some doc \<Rightarrow>
              sbind (modify (\<lambda>g. g\<lparr>g_doctext := Some doc, g_doctext_lineno := yylineno g\<rparr>)) (\<lambda>_.
              sbind sget (\<lambda>g.
              if g_program_doctext_candidate g = None \<and> g_program_doctext_status g = INVALID then
                sbind (modify (\<lambda>g. g\<lparr>g_program_doctext_candidate := Some doc,
                  g_program_doctext_lineno := g_doctext_lineno g,
                  g_program_doctext_status := STILL_CANDIDATE\<rparr>)) (\<lambda>_.
                pdebug ''program doctext set to STILL_CANDIDATE'')
              else sret ())))
      else sret ())"

text \<open>The actions that return a token, on the matched text and the rest of the input.\<close>

definition lex_return :: "lex_action \<Rightarrow> string \<Rightarrow> string \<Rightarrow> (token \<times> string) comp" where
  "lex_return act tx rest =
     (case act of
        ReturnChar \<Rightarrow> sret (tok_sym (hd tx), rest)
      | Return tok \<Rightarrow> sret (tok, rest)
      | ReturnInt i \<Rightarrow> sret (tok_int_constant i, rest)
      | Deprecated msg tok \<Rightarrow> sbind (print_warning 0 msg) (\<lambda>_. sret (tok, rest))
      | IntConstant \<Rightarrow>
          (case strtoll_10 tx of None \<Rightarrow> integer_overflow tx | Some i \<Rightarrow> sret (tok_int_constant i, rest))
      | HexConstant \<Rightarrow>
          (case hex_constant tx of None \<Rightarrow> integer_overflow tx | Some i \<Rightarrow> sret (tok_int_constant i, rest))
      | DubConstant \<Rightarrow> sret (tok_dub_constant (atof tx), rest)
      | Identifier \<Rightarrow> sret (tok_identifier tx, rest)
      | StIdentifier \<Rightarrow> sret (tok_st_identifier tx, rest)
      | LiteralBegin \<Rightarrow> lex_literal (hd tx) rest
      | Reserved \<Rightarrow> thrift_reserved_keyword tx
      | _ \<Rightarrow> unexpected_token (c_str tx))"

text \<open>
  \<^verbatim>\<open>yylex\<close>: the next token and the rest of the input. An empty match, which the rules
  exclude, would loop.
\<close>

function yylex :: "PARSE_MODE \<Rightarrow> string \<Rightarrow> (token \<times> string) comp" where
  "yylex mode s =
     (if s = [] then sbind (modify (\<lambda>g. g\<lparr>yytext := []\<rparr>)) (\<lambda>_. sret (tok_eof, []))
      else
        case best_rule lex_rules s of
          None \<Rightarrow> sraise Undefined
        | Some (n, act) \<Rightarrow>
            if n = 0 then sraise Endless
            else
              sbind (begin_action (take n s)) (\<lambda>_.
              case act of
                Ignore \<Rightarrow> yylex mode (drop n s)
              | DocText \<Rightarrow> sbind (capture_doctext mode (take n s)) (\<lambda>_. yylex mode (drop n s))
              | _ \<Rightarrow> lex_return act (take n s) (drop n s)))"
  by pat_completeness auto
termination
  by (relation "measure (\<lambda>(mode, s). length s)") auto

declare yylex.simps [simp del]

end
