(* ===== verification/ThriftAudit.thy ===== *)
theory ThriftAudit
  imports Globals
begin

text \<open>
  The audit (\<^verbatim>\<open>audit/t_audit.cpp\<close>): the comparison of a new version of a program with
  an old one. Changes that break readers of old data are failures, which latch
  \<^verbatim>\<open>g_return_failure\<close>; the others are warnings.
\<close>

section \<open>Diagnostics\<close>

definition thrift_audit_warning :: "int \<Rightarrow> string \<Rightarrow> unit comp" where
  "thrift_audit_warning level msg = sbind sget (\<lambda>g.
     if g_warn g < level then sret ()
     else print_to Stdout (''[Thrift Audit Warning:'' @ g_curpath g @ ''] '' @ msg @ nl))"

definition thrift_audit_failure :: "string \<Rightarrow> unit comp" where
  "thrift_audit_failure msg = sbind sget (\<lambda>g.
     sbind (print_to Stderr (''[Thrift Audit Failure:'' @ g_curpath g @ ''] '' @ msg @ nl)) (\<lambda>_.
     modify (\<lambda>g. g\<lparr>g_return_failure := True\<rparr>)))"

text \<open>
  The shape of most comparisons: a map of the new entries by name, in which a later entry
  replaces an earlier one, and a loop over the old ones.
\<close>

definition by_name ::
  "('a \<Rightarrow> string) \<Rightarrow> ('a \<Rightarrow> unit comp) \<Rightarrow> ('a \<Rightarrow> 'a \<Rightarrow> unit comp) \<Rightarrow> 'a list \<Rightarrow> 'a list \<Rightarrow> unit comp" where
  "by_name name missing compare new_list old_list =
     (let new_map = omap_of_list (map (\<lambda>x. (name x, x)) new_list) in
      sfor (\<lambda>old. case omap_find new_map (name old) of
                    None \<Rightarrow> missing old
                  | Some new \<Rightarrow> compare new old) old_list)"

section \<open>Namespaces and enums\<close>

definition compare_namespace :: "t_program \<Rightarrow> t_program \<Rightarrow> unit comp" where
  "compare_namespace newp oldp =
     sfor (\<lambda>(lang, ns).
       case omap_find (namespaces newp) lang of
         None \<Rightarrow> thrift_audit_warning 1 (''Language '' @ lang @ '' not found in new thrift file'' @ nl)
       | Some new_ns \<Rightarrow>
           if new_ns \<noteq> ns
           then thrift_audit_warning 1 (''Namespace '' @ ns @ '' changed in new thrift file'' @ nl)
           else sret ()) (namespaces oldp)"

definition compare_enum_values :: "t_enum \<Rightarrow> t_enum \<Rightarrow> unit comp" where
  "compare_enum_values new_enum old_enum =
     sfor (\<lambda>old.
       case get_constant_by_value new_enum (ev_value old) of
         Some new \<Rightarrow>
           if ev_name old \<noteq> ev_name new
           then thrift_audit_warning 1 (''Name of the value '' @ show_int (ev_value old)
                  @ '' changed in enum '' @ enum_name old_enum @ nl)
           else sret ()
       | None \<Rightarrow>
           thrift_audit_failure (''Enum value '' @ show_int (ev_value old) @ '' missing in ''
             @ enum_name old_enum @ nl)) (enum_constants old_enum)"

definition missing_enum :: "t_enum \<Rightarrow> unit comp" where
  "missing_enum old =
     thrift_audit_warning 1 (''Enum '' @ enum_name old @ '' not found in new thrift file'' @ nl)"

definition compare_enums :: "t_enum list \<Rightarrow> t_enum list \<Rightarrow> unit comp" where
  "compare_enums =
     by_name enum_name
       missing_enum
       compare_enum_values"

section \<open>Types and default values\<close>

text \<open>Types are compared by name; only containers, which have none, by their elements.\<close>

fun compare_type :: "t_type \<Rightarrow> t_type \<Rightarrow> bool" where
  "compare_type new old =
     (if get_name new = [] \<and> get_name old = [] then
        (case (new, old) of
           (t_list e, t_list e') \<Rightarrow> compare_type e e'
         | (t_map k v, t_map k' v') \<Rightarrow> compare_type k k' \<and> compare_type v v'
         | (t_set e, t_set e') \<Rightarrow> compare_type e e'
         | _ \<Rightarrow> False)
      else get_name new = get_name old)"

declare compare_type.simps [simp del]

text \<open>Equality of the doubles with these bits: no NaN is equal to anything, and the zeros are equal.\<close>

definition is_nan :: "64 word \<Rightarrow> bool" where
  "is_nan d \<longleftrightarrow> (uint d div 2 ^ 52) mod 2 ^ 11 = 2047 \<and> uint d mod 2 ^ 52 \<noteq> 0"

definition double_eq :: "64 word \<Rightarrow> 64 word \<Rightarrow> bool" where
  "double_eq a b \<longleftrightarrow> \<not> is_nan a \<and> \<not> is_nan b \<and> (a = b \<or> uint a mod 2 ^ 63 = 0 \<and> uint b mod 2 ^ 63 = 0)"

function compare_values :: "t_const_value \<Rightarrow> t_const_value \<Rightarrow> bool" where
  "compare_values new old =
     (case (new, old) of
        (CV_INTEGER i, CV_INTEGER j) \<Rightarrow> i = j
      | (CV_DOUBLE a, CV_DOUBLE b) \<Rightarrow> double_eq a b
      | (CV_STRING s, CV_STRING t) \<Rightarrow> s = t
      | (CV_LIST l, CV_LIST m) \<Rightarrow> length m = length l \<and> list_all2 compare_values l m
      | (CV_MAP l, CV_MAP m) \<Rightarrow> length m = length l
          \<and> list_all2 (\<lambda>p q. compare_values (fst p) (fst q) \<and> compare_values (snd p) (snd q)) l m
      | (CV_IDENTIFIER i e, CV_IDENTIFIER j e') \<Rightarrow> i = j
      | _ \<Rightarrow> False)"
  by pat_completeness auto
termination
proof (relation "measure (\<lambda>(new, old). size new)", goal_cases)
  case 1
  show ?case by simp
next
  case (2 new old x y l m a b)
  then have new: "new = CV_MAP l" "(fst a, snd a) \<in> set l" by auto
  show ?case using size_pair_elem(1) [OF new(2)] new(1) by simp
next
  case (3 new old x y l m a b)
  then have new: "new = CV_MAP l" "(fst a, snd a) \<in> set l" by auto
  show ?case using size_pair_elem(2) [OF new(2)] new(1) by simp
next
  case (4 new old x y l m a b)
  then show ?case by (auto simp: less_Suc_eq_le intro: size_list_estimation')
qed

declare compare_values.simps [simp del]

fun compare_defaults :: "t_const_value option \<Rightarrow> t_const_value option \<Rightarrow> bool" where
  "compare_defaults None None = True"
| "compare_defaults None (Some old) = False"
| "compare_defaults (Some new) None = False"
| "compare_defaults (Some new) (Some old) = compare_values new old"

section \<open>Structs\<close>

definition compare_struct_field :: "t_field \<Rightarrow> t_field \<Rightarrow> string \<Rightarrow> unit comp" where
  "compare_struct_field new old sname =
     (let pos = '' for Id = '' @ show_int (field_key new) @ '' in '' @ sname;
          new_optional = (field_req new \<noteq> T_REQUIRED);
          old_optional = (field_req old \<noteq> T_REQUIRED) in
      sbind (if \<not> compare_type (field_type new) (field_type old)
             then thrift_audit_failure (''Struct Field Type Changed'' @ pos @ '' '' @ nl)
             else sret ()) (\<lambda>_.
      sbind (if new_optional \<noteq> old_optional
             then thrift_audit_failure (''Struct Field Requiredness Changed'' @ pos @ '' '' @ nl)
             else sret ()) (\<lambda>_.
      sbind (if (new_optional \<or> old_optional)
                \<and> \<not> compare_defaults (field_default new) (field_default old)
             then thrift_audit_warning 1 (''Default value changed'' @ pos @ '' '' @ nl)
             else sret ()) (\<lambda>_.
      if field_name new \<noteq> field_name old
      then thrift_audit_warning 1 (''Struct field name changed'' @ pos @ nl)
      else sret ()))))"

text \<open>The walk along the members of both structs, in the order of their ids.\<close>

fun compare_members :: "string \<Rightarrow> t_field list \<Rightarrow> t_field list \<Rightarrow> unit comp" where
  "compare_members name [] [] = sret ()"
| "compare_members name [] (old # olds) =
     sbind (thrift_audit_failure (''Struct Field removed for Id = '' @ show_int (field_key old)
              @ '' in '' @ name @ '' '' @ nl)) (\<lambda>_.
     compare_members name [] olds)"
| "compare_members name (new # news) [] =
     sbind (if field_req new = T_REQUIRED
            then thrift_audit_failure (''Required Struct Field Added for Id = ''
                   @ show_int (field_key new) @ '' in '' @ name @ '' '' @ nl)
            else sret ()) (\<lambda>_.
     compare_members name news [])"
| "compare_members name (new # news) (old # olds) =
     (if field_key new = field_key old then
        sbind (compare_struct_field new old name) (\<lambda>_. compare_members name news olds)
      else if field_key new < field_key old then
        sbind (thrift_audit_failure (''Struct field is added in the middle with Id = ''
                 @ show_int (field_key new) @ '' in '' @ name @ nl)) (\<lambda>_.
        compare_members name news (old # olds))
      else
        sbind (thrift_audit_failure (''Struct Field removed for Id = '' @ show_int (field_key old)
                 @ '' in '' @ name @ '' '' @ nl)) (\<lambda>_.
        compare_members name (new # news) olds))"

definition compare_single_struct :: "t_struct \<Rightarrow> t_struct \<Rightarrow> string \<Rightarrow> unit comp" where
  "compare_single_struct news olds old_name =
     compare_members (if old_name = [] then struct_name olds else old_name)
       (members_in_id_order news) (members_in_id_order olds)"

definition missing_struct :: "t_struct \<Rightarrow> unit comp" where
  "missing_struct old =
     thrift_audit_failure (''Struct '' @ struct_name old @ '' not found in new thrift file'' @ nl)"

definition compare_structs :: "t_struct list \<Rightarrow> t_struct list \<Rightarrow> unit comp" where
  "compare_structs =
     by_name struct_name
       missing_struct
       (\<lambda>new old. compare_single_struct new old [])"

section \<open>Services\<close>

definition compare_single_function :: "t_function \<Rightarrow> t_function \<Rightarrow> unit comp" where
  "compare_single_function new old =
     sbind (if is_oneway new \<noteq> is_oneway old
            then thrift_audit_failure (''Oneway attribute changed for function '' @ fun_name old @ nl)
            else sret ()) (\<lambda>_.
     sbind (if \<not> compare_type (returntype new) (returntype old)
            then thrift_audit_failure (''Return type changed for function '' @ fun_name old @ nl)
            else sret ()) (\<lambda>_.
     sbind (compare_single_struct (arglist new) (arglist old) []) (\<lambda>_.
     compare_single_struct (xceptions new) (xceptions old) (fun_name old @ ''_exception''))))"

definition missing_function :: "t_function \<Rightarrow> unit comp" where
  "missing_function old =
     thrift_audit_failure (''New Thrift File has missing function '' @ fun_name old @ nl)"

definition compare_functions :: "t_function list \<Rightarrow> t_function list \<Rightarrow> unit comp" where
  "compare_functions =
     by_name fun_name
       missing_function
       compare_single_function"

definition compare_single_service :: "t_service \<Rightarrow> t_service \<Rightarrow> unit comp" where
  "compare_single_service new old =
     sbind (case (extends old, extends new) of
              (None, _) \<Rightarrow> sret ()
            | (Some old_extends, None) \<Rightarrow>
                thrift_audit_failure (''Change in Service inheritance for '' @ svc_name old @ nl)
            | (Some old_extends, Some new_extends) \<Rightarrow>
                if new_extends \<noteq> old_extends
                then thrift_audit_failure (''Change in Service inheritance for '' @ svc_name old @ nl)
                else sret ()) (\<lambda>_.
     compare_functions (svc_functions new) (svc_functions old))"

definition missing_service :: "t_service \<Rightarrow> unit comp" where
  "missing_service old =
     thrift_audit_failure (''New Thrift file is missing a service '' @ svc_name old @ nl)"

definition compare_services :: "t_service list \<Rightarrow> t_service list \<Rightarrow> unit comp" where
  "compare_services =
     by_name svc_name
       missing_service
       compare_single_service"

section \<open>Constants\<close>

definition compare_single_const :: "t_const \<Rightarrow> t_const \<Rightarrow> unit comp" where
  "compare_single_const new old =
     (if \<not> compare_type (const_type new) (const_type old)
      then thrift_audit_warning 1 (''Constant '' @ const_name old @ '' is of different type '' @ nl)
      else if \<not> compare_values (const_value new) (const_value old)
      then thrift_audit_warning 1 (''Constant '' @ const_name old @ '' has different value'' @ nl)
      else sret ())"

definition missing_const :: "t_const \<Rightarrow> unit comp" where
  "missing_const old =
     thrift_audit_warning 1 (''Constants Missing '' @ const_name old @ '' '' @ nl)"

definition compare_consts :: "t_const list \<Rightarrow> t_const list \<Rightarrow> unit comp" where
  "compare_consts =
     by_name const_name
       missing_const
       compare_single_const"

text \<open>The comparisons of \<^verbatim>\<open>audit\<close> in \<^verbatim>\<open>main.cc\<close>, after both programs are parsed.\<close>

definition compare_programs :: "t_program \<Rightarrow> t_program \<Rightarrow> unit comp" where
  "compare_programs newp oldp =
     sbind (compare_namespace newp oldp) (\<lambda>_.
     sbind (compare_services (services newp) (services oldp)) (\<lambda>_.
     sbind (compare_enums (enums newp) (enums oldp)) (\<lambda>_.
     sbind (compare_structs (structs newp) (structs oldp)) (\<lambda>_.
     sbind (compare_structs (prog_xceptions newp) (prog_xceptions oldp)) (\<lambda>_.
     compare_consts (prog_consts newp) (prog_consts oldp))))))"

end
