(* ===== verification/Driver.thy ===== *)
theory Driver
  imports Doctext ConstCheck ThriftAudit
begin

text \<open>
  The driver of the compiler (\<^verbatim>\<open>main.cc\<close>): finding included files, the two passes
  of the parse over a tree of includes, code generation over the tree, and the audit.
\<close>

section \<open>What the driver calls\<close>

text \<open>
  The operating system, the parser that bison makes from the grammar, and the generators of
  the registry. \<open>yyparse\<close> gets the pass, the text, the prefix for the parent's scope, the
  program under construction and the parent's scope; it returns its status and both updated.
  Making a generator may throw, or give none for a name the registry does not have; running it
  gives the outcome and the files it has written.
\<close>

record host =
  realpath :: "string \<Rightarrow> string option"
  stat :: "string \<Rightarrow> string + bool"
  fopen :: "string \<Rightarrow> string option"
  yyparse :: "PARSE_MODE \<Rightarrow> string \<Rightarrow> string \<Rightarrow> program \<times> t_scope option
    \<Rightarrow> (int \<times> program \<times> t_scope option) comp"
  get_generator :: "program \<Rightarrow> string
    \<Rightarrow> cxx_error + ((cxx_error + unit) \<times> (string \<times> string) list) option"
  generator_docs :: "(string \<times> string \<times> string) list"
  THRIFT_VERSION :: string

definition check_is_directory :: "host \<Rightarrow> string \<Rightarrow> bool comp" where
  "check_is_directory h dir_name =
     (case stat h dir_name of
        Inl err \<Rightarrow>
          sbind (print_to Stderr (''Output directory '' @ dir_name @ '' is unusable: '' @ err @ nl)) (\<lambda>_.
          sret False)
      | Inr False \<Rightarrow>
          sbind (print_to Stderr (''Output directory '' @ dir_name @ '' exists but is not a directory'' @ nl)) (\<lambda>_.
          sret False)
      | Inr True \<Rightarrow> sret True)"

section \<open>Included files\<close>

fun first_existing :: "host \<Rightarrow> string list \<Rightarrow> string option" where
  "first_existing h [] = None"
| "first_existing h (f # fs) =
     (case realpath h f of
        None \<Rightarrow> first_existing h fs
      | Some rp \<Rightarrow> (case stat h rp of Inr _ \<Rightarrow> Some rp | Inl _ \<Rightarrow> first_existing h fs))"

definition include_file :: "host \<Rightarrow> string \<Rightarrow> string comp" where
  "include_file h filename = sbind sget (\<lambda>g.
     let not_found = sbind (print_warning 0 (''Could not find include file '' @ filename @ nl)) (\<lambda>_. sret []) in
     if filename \<noteq> [] \<and> hd filename = CHR ''/'' then
       case realpath h filename of
         None \<Rightarrow> sbind (print_warning 0 (''Cannot open include file '' @ filename @ nl)) (\<lambda>_. sret [])
       | Some rp \<Rightarrow> (case stat h rp of Inr _ \<Rightarrow> sret rp | Inl _ \<Rightarrow> not_found)
     else
       case first_existing h (map (\<lambda>dir. dir @ ''/'' @ filename) (g_curdir g # g_incl_searchpath g)) of
         Some rp \<Rightarrow> sret rp
       | None \<Rightarrow> not_found)"

section \<open>Parsing\<close>

text \<open>Whether there is a mark, and the text after it.\<close>

definition skip_utf8_bom :: "string \<Rightarrow> bool \<times> string" where
  "skip_utf8_bom f =
     (if take 3 f = [CHR 0xEF, CHR 0xBB, CHR 0xBF] then (True, drop 3 f) else (False, f))"

text \<open>
  Opening a file and running one pass of the parser on it; a thrown string ends the process,
  a thrown C string is not caught here.
\<close>

definition open_input :: "host \<Rightarrow> string \<Rightarrow> string comp" where
  "open_input h path =
     (case fopen h path of
        None \<Rightarrow> failure (''Could not open input file: '' @ dq @ path @ dq)
      | Some f \<Rightarrow>
          (let (bom, text) = skip_utf8_bom f in
           sbind (if bom then pverbose (''Skipped UTF-8 BOM at '' @ path @ nl) else sret ()) (\<lambda>_.
           sret text)))"

definition parse_pass ::
  "host \<Rightarrow> PARSE_MODE \<Rightarrow> string \<Rightarrow> string \<Rightarrow> program \<times> t_scope option \<Rightarrow> (program \<times> t_scope option) comp" where
  "parse_pass h mode text prefix st = (\<lambda>g.
     case yyparse h mode text prefix st (g\<lparr>yylineno := 1\<rparr>) of
       (Inl (Throw x), g') \<Rightarrow> failure x g'
     | (Inl e, g') \<Rightarrow> (Inl e, g')
     | (Inr (status, st'), g') \<Rightarrow>
         if status \<noteq> 0
         then failure (''Parser error during '' @ (case mode of INCLUDES \<Rightarrow> ''include'' | PROGRAM \<Rightarrow> ''types'')
                @ '' pass.'') g'
         else (Inr st', g'))"

definition with_scope :: "t_scope \<Rightarrow> t_program \<Rightarrow> t_program" where
  "with_scope s p = p\<lparr>prog_scope := s\<rparr>"

text \<open>
  \<^verbatim>\<open>parse\<close>. The includes of a file are parsed, each with the scope of the file as
  its parent scope, before its own definitions; nothing stops a cycle of includes, as a file
  gets its entry in \<^verbatim>\<open>program_to_scope\<close> only after its includes. The result is the
  program and the parent's scope.
\<close>

fun parse :: "nat \<Rightarrow> host \<Rightarrow> program \<Rightarrow> (string \<times> t_scope) option \<Rightarrow> (program \<times> t_scope option) comp" where
  "parse 0 h program parent = sraise Endless"
| "parse (Suc fuel) h program parent =
     (let path = prog_path (the_program program);
          parent_path = (case parent of Some (pp, _) \<Rightarrow> pp | None \<Rightarrow> ''null'') in
      sbind sget (\<lambda>g.
      sbind
        (case omap_find (program_to_scope g) path of
           Some scope \<Rightarrow>
             sbind (pverbose (''Skipping recursion for parsed program '' @ path @ nl)) (\<lambda>_.
             sret (Program (with_scope scope (the_program program)) (get_includes program)))
         | None \<Rightarrow>
             sbind (modify (\<lambda>g. g\<lparr>g_curdir := directory_name path, g_curpath := path\<rparr>)) (\<lambda>_.
             sbind (open_input h path) (\<lambda>text.
             sbind (pverbose (''Scanning includes from '' @ path @ '' '' @ nl)) (\<lambda>_.
             sbind (parse_pass h INCLUDES text [] (program, None)) (\<lambda>(program, _).
             sbind (sfold (\<lambda>inc (scope, done).
                      sbind (parse fuel h inc (Some (path, scope))) (\<lambda>(inc, scope').
                      sret (the scope', done @ [inc])))
                    (get_includes program) (prog_scope (the_program program), [])) (\<lambda>(scope, incs).
             sbind (modify (\<lambda>g. g\<lparr>program_to_scope := omap_insert path scope (program_to_scope g)\<rparr>)) (\<lambda>_.
             sret (Program (with_scope scope (the_program program)) incs)))))))) (\<lambda>program.
      sbind reset_program_doctext_info (\<lambda>_.
      sbind (modify (\<lambda>g. g\<lparr>g_curpath := path\<rparr>)) (\<lambda>_.
      sbind (open_input h path) (\<lambda>text.
      sbind (pverbose (''Parsing types from '' @ path @ '' with parent '' @ parent_path @ nl)) (\<lambda>_.
      parse_pass h PROGRAM text (prog_name (the_program program) @ ''.'')
        (program, map_option snd parent))))))))"

declare parse.simps [simp del]

section \<open>Generating\<close>

text \<open>The loop over the generators of one program; an exception of one ends the loop.\<close>

definition generate_one :: "host \<Rightarrow> program \<Rightarrow> string \<Rightarrow> unit comp" where
  "generate_one h p gen =
     sbind (slift (get_generator h p gen)) (\<lambda>generator.
      case generator of
        None \<Rightarrow> print_warning 1 (''Unable to get a generator for '' @ dq @ gen @ dq @ ''.'' @ nl)
      | Some (outcome, files) \<Rightarrow>
          sbind (pverbose (''Generating code with arg '' @ dq @ gen @ dq @ '' for '' @ prog_path (the_program p) @ nl)) (\<lambda>_.
          sbind (modify (\<lambda>g. g\<lparr>written := written g @ files\<rparr>)) (\<lambda>_.
          slift outcome)))"

definition catch_and_print :: "unit comp \<Rightarrow> unit comp" where
  "catch_and_print m = (\<lambda>g.
     case m g of
       (Inl (Throw s), g') \<Rightarrow> print_to Stdout (''Error: '' @ s @ nl) g'
     | (Inl (ThrowCString s), g') \<Rightarrow> print_to Stdout (''Error: '' @ s @ nl) g'
     | r \<Rightarrow> r)"

lemma include_smaller: "inc \<in> set incs \<Longrightarrow> size inc < Suc (size_list size incs)" for inc :: program
  by (simp add: less_Suc_eq_le size_list_estimation')

text \<open>
  \<^verbatim>\<open>dump_docs\<close> is a constant of the file and false. The output path goes from a
  program to its includes before they are generated.
\<close>

function generate :: "host \<Rightarrow> string list \<Rightarrow> program \<Rightarrow> unit comp" where
  "generate h generator_strings (Program p incs) = sbind sget (\<lambda>g.
     if prog_path p \<in> set (generated_files g) then
       pverbose (''Skipping an already generated file '' @ prog_path p @ nl)
     else
       sbind (if gen_recurse g then
                sfor (\<lambda>inc.
                  sbind (slift (set_out_path (out_path p) (out_path_is_absolute p) (the_program inc))) (\<lambda>q.
                  generate h generator_strings (Program q (get_includes inc)))) incs
              else sret ()) (\<lambda>_.
       sbind (catch_and_print
                (sbind (pverbose (''Program to generate code: '' @ prog_path p @ nl)) (\<lambda>_.
                 sfor (generate_one h (Program p incs)) generator_strings))) (\<lambda>_.
       modify (\<lambda>g. g\<lparr>generated_files := List.insert (prog_path p) (generated_files g)\<rparr>))))"
  by pat_completeness auto
termination
proof (relation "measure (\<lambda>(h, gens, p). size p)", goal_cases)
  case (2 h gens p incs g inc q)
  then have "size inc < Suc (size_list size incs)" by (intro include_smaller) auto
  then show ?case by (cases inc) simp
qed simp

declare generate.simps [simp del]

section \<open>Audit\<close>

definition audit :: "nat \<Rightarrow> host \<Rightarrow> program \<Rightarrow> program \<Rightarrow> string \<Rightarrow> string \<Rightarrow> unit comp" where
  "audit fuel h newp oldp new_include_path old_include_path = sbind sget (\<lambda>g.
     let searchpath = g_incl_searchpath g in
     sbind (if old_include_path \<noteq> []
            then modify (\<lambda>g. g\<lparr>g_incl_searchpath := g_incl_searchpath g @ [old_include_path]\<rparr>)
            else sret ()) (\<lambda>_.
     sbind (parse fuel h oldp None) (\<lambda>(oldp, _).
     sbind (modify (\<lambda>g. g\<lparr>g_incl_searchpath := searchpath\<rparr>)) (\<lambda>_.
     sbind (if new_include_path \<noteq> []
            then modify (\<lambda>g. g\<lparr>g_incl_searchpath := g_incl_searchpath g @ [new_include_path]\<rparr>)
            else sret ()) (\<lambda>_.
     sbind (parse fuel h newp None) (\<lambda>(newp, _).
     compare_programs (the_program newp) (the_program oldp)))))))"

end
