(* ===== verification/Grammar.thy ===== *)
theory Grammar
  imports Lexer Driver
begin

text \<open>
  The grammar \<^verbatim>\<open>compiler/src/thrifty.yy\<close> with the actions of its productions. A
  nonterminal is a computation over the state of the parser that recognises it and runs the
  actions in the order in which the parser made by bison reduces: from left to right, after the
  parts of a production. The next token is read only where the parser needs it to choose, and an
  empty alternative is taken on every token that starts no other one, as the default reductions of
  bison do; what is scanned ahead decides which comment an action finds in \<^verbatim>\<open>g_doctext\<close>.
\<close>

section \<open>The state of the parser\<close>

text \<open>
  The global variables that the grammar uses beside those of \<^verbatim>\<open>main.cc\<close>, the rest of
  the input, and the token that was read ahead.
\<close>

record pstate =
  ps_globals :: globals
  ps_program :: program
  ps_parent :: "t_scope option"
  ps_input :: string
  ps_look :: "token option"
  y_field_val :: int
  y_enum_val :: int
  g_arglist :: bool

text \<open>
  What does not change during a pass: the mode, the prefix for the parent's scope, the file system
  and the registry of generators, and the fuel for chains of typedefs.
\<close>

record penv =
  pe_mode :: PARSE_MODE
  pe_prefix :: string
  pe_host :: host
  pe_generators :: gen_map
  pe_fuel :: nat

text \<open>A C++ error or exit, the return of \<^verbatim>\<open>yyparse\<close> on a syntax error, and the end of the fuel.\<close>

datatype parse_stop = Failed cxx_error | YYABORT | NoFuel

type_synonym 'a parser = "(pstate, parse_stop, 'a) sexn"

definition run_comp :: "'a comp \<Rightarrow> 'a parser" where
  "run_comp m s =
     (case m (ps_globals s) of
        (Inl e, g) \<Rightarrow> (Inl (Failed e), s\<lparr>ps_globals := g\<rparr>)
      | (Inr x, g) \<Rightarrow> (Inr x, s\<lparr>ps_globals := g\<rparr>))"

definition run_log :: "'a compile \<Rightarrow> 'a parser" where
  "run_log m = run_comp (print_log m)"

definition run_result :: "cxx_error + 'a \<Rightarrow> 'a parser" where
  "run_result r = run_comp (slift r)"

text \<open>Assignments to the variables of the parser.\<close>

definition set_program :: "program \<Rightarrow> unit parser" where
  "set_program p s = (Inr (), s\<lparr>ps_program := p\<rparr>)"

definition set_parent :: "t_scope option \<Rightarrow> unit parser" where
  "set_parent sc s = (Inr (), s\<lparr>ps_parent := sc\<rparr>)"

definition set_field_val :: "int \<Rightarrow> unit parser" where
  "set_field_val v s = (Inr (), s\<lparr>y_field_val := v\<rparr>)"

definition set_enum_val :: "int \<Rightarrow> unit parser" where
  "set_enum_val v s = (Inr (), s\<lparr>y_enum_val := v\<rparr>)"

definition set_arglist :: "bool \<Rightarrow> unit parser" where
  "set_arglist b s = (Inr (), s\<lparr>g_arglist := b\<rparr>)"

definition update_program :: "(t_program \<Rightarrow> t_program) \<Rightarrow> unit parser" where
  "update_program f = sbind sget (\<lambda>s.
     set_program (Program (f (the_program (ps_program s))) (get_includes (ps_program s))))"

text \<open>Operations on \<^verbatim>\<open>g_scope\<close>, the scope of the program, and on \<^verbatim>\<open>g_parent_scope\<close> if there is one.\<close>

definition in_scope :: "'a scoped \<Rightarrow> 'a parser" where
  "in_scope m = sbind sget (\<lambda>s.
     case m (prog_scope (the_program (ps_program s))) of
       (r, sc) \<Rightarrow> sbind (update_program (with_scope sc)) (\<lambda>_. run_result r))"

definition in_parent_scope :: "unit scoped \<Rightarrow> unit parser" where
  "in_parent_scope m = sbind sget (\<lambda>s.
     case ps_parent s of
       None \<Rightarrow> sret ()
     | Some parent \<Rightarrow>
         (case m parent of (r, sc) \<Rightarrow> sbind (set_parent (Some sc)) (\<lambda>_. run_result r)))"

definition debug :: "string \<Rightarrow> unit parser" where
  "debug msg = run_comp (pdebug msg)"

definition warn :: "int \<Rightarrow> string \<Rightarrow> unit parser" where
  "warn level msg = run_comp (print_warning level msg)"

definition exit_with :: "string \<Rightarrow> 'a parser" where
  "exit_with msg = run_comp (fatal msg)"

definition simple_identifier :: "string \<Rightarrow> unit parser" where
  "simple_identifier name =
     (case validate_simple_identifier name of
        Inr _ \<Rightarrow> sret () | Inl (Exit n msg) \<Rightarrow> exit_with msg | Inl e \<Rightarrow> run_result (Inl e))"

text \<open>The types that the programs of the tree define, to which forward typedefs lead.\<close>

definition tree_scopes :: "program \<Rightarrow> type_scopes" where
  "tree_scopes p path name =
     (case find (\<lambda>q. prog_path q = path) (program_tree p) of
        None \<Rightarrow> None
      | Some q \<Rightarrow> (case omap_find (sc_types (prog_scope q)) name of Some (Some t) \<Rightarrow> Some t | _ \<Rightarrow> None))"

definition own_path :: "pstate \<Rightarrow> string" where
  "own_path s = prog_path (the_program (ps_program s))"

text \<open>A conversion to \<^verbatim>\<open>int32_t\<close>, and its range.\<close>

definition to_int32 :: "int \<Rightarrow> int" where
  "to_int32 i = sint (word_of_int i :: 32 word)"

definition in_int32 :: "int \<Rightarrow> bool" where
  "in_int32 i \<longleftrightarrow> - (2 ^ 31) \<le> i \<and> i < 2 ^ 31"

section \<open>Tokens\<close>

definition peek :: "penv \<Rightarrow> token parser" where
  "peek env = sbind sget (\<lambda>s.
     case ps_look s of
       Some t \<Rightarrow> sret t
     | None \<Rightarrow>
         sbind (run_comp (yylex (pe_mode env) (ps_input s))) (\<lambda>(t, rest). sbind sget (\<lambda>s.
         sbind (sput (s\<lparr>ps_input := rest, ps_look := Some t\<rparr>)) (\<lambda>_. sret t))))"

definition shift :: "unit parser" where
  "shift = sbind sget (\<lambda>s. sput (s\<lparr>ps_look := None\<rparr>))"

definition syntax_error :: "'a parser" where
  "syntax_error = sbind (run_comp (yyerror ''syntax error'')) (\<lambda>_. sraise YYABORT)"

definition expect :: "penv \<Rightarrow> token \<Rightarrow> unit parser" where
  "expect env t = sbind (peek env) (\<lambda>t'. if t' = t then shift else syntax_error)"

definition expect_identifier :: "penv \<Rightarrow> string parser" where
  "expect_identifier env = sbind (peek env) (\<lambda>t.
     case t of tok_identifier name \<Rightarrow> sbind shift (\<lambda>_. sret name) | _ \<Rightarrow> syntax_error)"

definition expect_st_identifier :: "penv \<Rightarrow> string parser" where
  "expect_st_identifier env = sbind (peek env) (\<lambda>t.
     case t of tok_st_identifier name \<Rightarrow> sbind shift (\<lambda>_. sret name) | _ \<Rightarrow> syntax_error)"

definition expect_literal :: "penv \<Rightarrow> string parser" where
  "expect_literal env = sbind (peek env) (\<lambda>t.
     case t of tok_literal s \<Rightarrow> sbind shift (\<lambda>_. sret s) | _ \<Rightarrow> syntax_error)"

text \<open>A token that may be there, as in the nonterminals \<open>XsdOptional\<close> or \<open>Oneway\<close>.\<close>

definition optional :: "penv \<Rightarrow> token \<Rightarrow> bool parser" where
  "optional env t = sbind (peek env) (\<lambda>t'. if t' = t then sbind shift (\<lambda>_. sret True) else sret False)"

text \<open>A left recursive list up to a token that ends it.\<close>

fun list_until :: "nat \<Rightarrow> penv \<Rightarrow> (token \<Rightarrow> bool) \<Rightarrow> ('a \<Rightarrow> 'a parser) \<Rightarrow> 'a \<Rightarrow> 'a parser" where
  "list_until 0 env stops item acc = sraise NoFuel"
| "list_until (Suc n) env stops item acc = sbind (peek env) (\<lambda>t.
     if stops t then sret acc else sbind (item acc) (list_until n env stops item))"

definition CommaOrSemicolonOptional :: "penv \<Rightarrow> unit parser" where
  "CommaOrSemicolonOptional env = sbind (peek env) (\<lambda>t.
     if t = tok_sym CHR '','' \<or> t = tok_sym CHR '';'' then shift else sret ())"

section \<open>Comments\<close>

definition CaptureDocText :: "penv \<Rightarrow> string option parser" where
  "CaptureDocText env =
     (if pe_mode env = PROGRAM
      then run_comp (sbind sget (\<lambda>g. sbind (sput (g\<lparr>g_doctext := None\<rparr>)) (\<lambda>_. sret (g_doctext g))))
      else sret None)"

definition DestroyDocText :: "penv \<Rightarrow> unit parser" where
  "DestroyDocText env = (if pe_mode env = PROGRAM then run_comp clear_doctext else sret ())"

text \<open>\<^verbatim>\<open>set_doc\<close> on an object, if a comment was captured.\<close>

definition doc_if :: "string option \<Rightarrow> string option parser" where
  "doc_if doc = (case doc of None \<Rightarrow> sret None | Some d \<Rightarrow> run_comp (set_doc d))"

section \<open>Annotations\<close>

text \<open>The annotations of types and those of resources have the same productions but for their names.\<close>

definition AnnotationValue :: "penv \<Rightarrow> string \<Rightarrow> string parser" where
  "AnnotationValue env kind = sbind (optional env (tok_sym CHR ''='')) (\<lambda>eq.
     if eq then sbind (expect_literal env) (\<lambda>v.
       sbind (debug (kind @ ''AnnotationValue -> = tok_literal'')) (\<lambda>_. sret v))
     else sbind (debug (kind @ ''AnnotationValue ->'')) (\<lambda>_. sret ''1''))"

definition Annotation :: "penv \<Rightarrow> string \<Rightarrow> annotations \<Rightarrow> annotations parser" where
  "Annotation env kind as =
     sbind (expect_identifier env) (\<lambda>key.
     sbind (AnnotationValue env kind) (\<lambda>val.
     sbind (CommaOrSemicolonOptional env) (\<lambda>_.
     sbind (debug (kind @ ''Annotation -> '' @ kind @ ''AnnotationValue'')) (\<lambda>_.
     sbind (debug (kind @ ''AnnotationList -> '' @ kind @ ''AnnotationList , '' @ kind @ ''Annotation'')) (\<lambda>_.
     sret (omap_insert key val as))))))"

definition AnnotationList :: "nat \<Rightarrow> penv \<Rightarrow> string \<Rightarrow> annotations option parser" where
  "AnnotationList n env kind =
     sbind (expect env (tok_sym CHR ''('')) (\<lambda>_.
     sbind (list_until n env (\<lambda>t. t = tok_sym CHR '')'') (Annotation env kind) []) (\<lambda>as.
     sbind (expect env (tok_sym CHR '')'')) (\<lambda>_.
     sbind (debug (kind @ ''Annotations -> ( '' @ kind @ ''AnnotationList )'')) (\<lambda>_.
     sret (Some as)))))"

definition TypeAnnotations :: "nat \<Rightarrow> penv \<Rightarrow> annotations option parser" where
  "TypeAnnotations n env = sbind (peek env) (\<lambda>t.
     if t = tok_sym CHR ''('' then AnnotationList n env ''Type'' else sret None)"

definition ResourceAnnotations :: "nat \<Rightarrow> penv \<Rightarrow> annotations option parser" where
  "ResourceAnnotations n env = sbind (optional env tok_resource) (\<lambda>r.
     if r then AnnotationList n env ''Resource'' else sret None)"

section \<open>Types\<close>

fun SimpleBaseType :: "token \<Rightarrow> (t_type \<times> string) option" where
  "SimpleBaseType tok_string = Some (g_type_string, ''string'')"
| "SimpleBaseType tok_binary = Some (g_type_binary, ''binary'')"
| "SimpleBaseType tok_slist = Some (g_type_slist, ''slist'')"
| "SimpleBaseType tok_bool = Some (g_type_bool, ''bool'')"
| "SimpleBaseType tok_byte = Some (g_type_byte, ''byte'')"
| "SimpleBaseType tok_i16 = Some (g_type_i16, ''i16'')"
| "SimpleBaseType tok_i32 = Some (g_type_i32, ''i32'')"
| "SimpleBaseType tok_i64 = Some (g_type_i64, ''i64'')"
| "SimpleBaseType tok_double = Some (g_type_double, ''double'')"
| "SimpleBaseType _ = None"

text \<open>
  In the pass over the includes the type of an identifier is a null pointer (\<open>None\<close>). Inside a
  field or a container of that pass it is \<open>null_type\<close>, which nothing reads: what the pass
  builds is dropped.
\<close>

definition null_type :: t_type where
  "null_type = t_typedef [] [] None"

definition type_or_null :: "t_type option \<Rightarrow> t_type" where
  "type_or_null t = (case t of Some t \<Rightarrow> t | None \<Rightarrow> null_type)"

text \<open>The annotations of base types and containers and the names of containers in C++ are read and dropped.\<close>

definition BaseType :: "nat \<Rightarrow> penv \<Rightarrow> t_type \<Rightarrow> string \<Rightarrow> t_type parser" where
  "BaseType n env ty name =
     sbind shift (\<lambda>_.
     sbind (debug (''BaseType -> tok_'' @ name)) (\<lambda>_.
     sbind (TypeAnnotations n env) (\<lambda>_.
     sbind (debug ''BaseType -> SimpleBaseType TypeAnnotations'') (\<lambda>_. sret ty))))"

definition CppType :: "penv \<Rightarrow> string option parser" where
  "CppType env = sbind (optional env tok_cpp_type) (\<lambda>c.
     if c then sbind (expect_literal env) (\<lambda>s. sret (Some s)) else sret None)"

text \<open>The containers, over the nonterminal for their elements.\<close>

definition MapType :: "penv \<Rightarrow> t_type option parser \<Rightarrow> t_type parser" where
  "MapType env elem =
     sbind shift (\<lambda>_.
     sbind (CppType env) (\<lambda>_.
     sbind (expect env (tok_sym CHR ''<'')) (\<lambda>_.
     sbind elem (\<lambda>k.
     sbind (expect env (tok_sym CHR '','')) (\<lambda>_.
     sbind elem (\<lambda>v.
     sbind (expect env (tok_sym CHR ''>'')) (\<lambda>_.
     sbind (debug ''MapType -> tok_map <FieldType, FieldType>'') (\<lambda>_.
     sbind (debug ''SimpleContainerType -> MapType'') (\<lambda>_.
     sret (t_map (type_or_null k) (type_or_null v)))))))))))"

definition SetType :: "penv \<Rightarrow> t_type option parser \<Rightarrow> t_type parser" where
  "SetType env elem =
     sbind shift (\<lambda>_.
     sbind (CppType env) (\<lambda>_.
     sbind (expect env (tok_sym CHR ''<'')) (\<lambda>_.
     sbind elem (\<lambda>e.
     sbind (expect env (tok_sym CHR ''>'')) (\<lambda>_.
     sbind (debug ''SetType -> tok_set<FieldType>'') (\<lambda>_.
     sbind (debug ''SimpleContainerType -> SetType'') (\<lambda>_.
     sret (t_set (type_or_null e)))))))))"

definition ListType :: "penv \<Rightarrow> t_type option parser \<Rightarrow> t_type parser" where
  "ListType env elem =
     sbind shift (\<lambda>_.
     sbind (expect env (tok_sym CHR ''<'')) (\<lambda>_.
     sbind elem (\<lambda>e.
     sbind (expect env (tok_sym CHR ''>'')) (\<lambda>_.
     sbind (CppType env) (\<lambda>_.
     sbind (debug ''ListType -> tok_list<FieldType>'') (\<lambda>_.
     sbind (run_log (check_for_list_of_bytes (pe_mode env) e)) (\<lambda>_.
     sbind (debug ''SimpleContainerType -> ListType'') (\<lambda>_.
     sret (t_list (type_or_null e))))))))))"

definition ContainerType :: "nat \<Rightarrow> penv \<Rightarrow> t_type parser \<Rightarrow> t_type option parser" where
  "ContainerType n env simple =
     sbind simple (\<lambda>ty.
     sbind (TypeAnnotations n env) (\<lambda>_.
     sbind (debug ''ContainerType -> SimpleContainerType TypeAnnotations'') (\<lambda>_.
     sbind (debug ''FieldType -> ContainerType'') (\<lambda>_. sret (Some ty)))))"

text \<open>A name that the scope does not have yet is a forward typedef.\<close>

definition named_type :: "penv \<Rightarrow> string \<Rightarrow> t_type option parser" where
  "named_type env name =
     sbind shift (\<lambda>_.
     sbind (debug ''FieldType -> tok_identifier'') (\<lambda>_.
     if pe_mode env = INCLUDES then sret None
     else
       sbind (in_scope (get_type name)) (\<lambda>ty.
       case ty of
         Some t \<Rightarrow> sret (Some t)
       | None \<Rightarrow> sbind sget (\<lambda>s. sret (Some (t_typedef (own_path s) name None))))))"

fun FieldType :: "nat \<Rightarrow> penv \<Rightarrow> t_type option parser" where
  "FieldType 0 env = sraise NoFuel"
| "FieldType (Suc n) env = sbind (peek env) (\<lambda>t.
     case t of
       tok_identifier name \<Rightarrow> named_type env name
     | tok_map \<Rightarrow> ContainerType n env (MapType env (FieldType n env))
     | tok_set \<Rightarrow> ContainerType n env (SetType env (FieldType n env))
     | tok_list \<Rightarrow> ContainerType n env (ListType env (FieldType n env))
     | _ \<Rightarrow>
         (case SimpleBaseType t of
            Some (ty, name) \<Rightarrow> sbind (BaseType n env ty name) (\<lambda>ty.
              sbind (debug ''FieldType -> BaseType'') (\<lambda>_. sret (Some ty)))
          | None \<Rightarrow> syntax_error))"

section \<open>Constant values\<close>

definition int_const_value :: "int \<Rightarrow> t_const_value parser" where
  "int_const_value i =
     sbind shift (\<lambda>_.
     sbind (debug ''ConstValue => tok_int_constant'') (\<lambda>_. sbind sget (\<lambda>s.
     sbind (if \<not> g_allow_64bit_consts (ps_globals s) \<and> \<not> in_int32 i
            then warn 1 (''64-bit constant '' @ dq @ show_int i @ dq @ '' may not work in all languages.'' @ nl)
            else sret ()) (\<lambda>_.
     sret (CV_INTEGER i)))))"

definition leaf_const_value :: "t_const_value \<Rightarrow> string \<Rightarrow> t_const_value parser" where
  "leaf_const_value v name =
     sbind shift (\<lambda>_. sbind (debug (''ConstValue => '' @ name)) (\<lambda>_. sret v))"

text \<open>
  The elements of lists and maps, over the nonterminal for the elements. The keys of a map are
  pointers; they are kept in the order in which they are allocated.
\<close>

definition ConstList_item :: "penv \<Rightarrow> t_const_value parser \<Rightarrow> t_const_value list \<Rightarrow> t_const_value list parser" where
  "ConstList_item env value vs =
     sbind value (\<lambda>v.
     sbind (CommaOrSemicolonOptional env) (\<lambda>_.
     sbind (debug ''ConstListContents => ConstListContents ConstValue CommaOrSemicolonOptional'') (\<lambda>_.
     sret (vs @ [v]))))"

definition ConstMap_item ::
  "penv \<Rightarrow> t_const_value parser \<Rightarrow> (t_const_value \<times> t_const_value) list
     \<Rightarrow> (t_const_value \<times> t_const_value) list parser" where
  "ConstMap_item env value ps =
     sbind value (\<lambda>k.
     sbind (expect env (tok_sym CHR '':'')) (\<lambda>_.
     sbind value (\<lambda>v.
     sbind (CommaOrSemicolonOptional env) (\<lambda>_.
     sbind (debug ''ConstMapContents => ConstMapContents ConstValue CommaOrSemicolonOptional'') (\<lambda>_.
     sret (ps @ [(k, v)]))))))"

definition ConstList :: "nat \<Rightarrow> penv \<Rightarrow> t_const_value parser \<Rightarrow> t_const_value parser" where
  "ConstList n env value =
     sbind shift (\<lambda>_.
     sbind (debug ''ConstListContents =>'') (\<lambda>_.
     sbind (list_until n env (\<lambda>t. t = tok_sym CHR '']'') (ConstList_item env value) []) (\<lambda>vs.
     sbind (expect env (tok_sym CHR '']'')) (\<lambda>_.
     sbind (debug ''ConstList => [ ConstListContents ]'') (\<lambda>_.
     sbind (debug ''ConstValue => ConstList'') (\<lambda>_. sret (CV_LIST vs)))))))"

definition ConstMap :: "nat \<Rightarrow> penv \<Rightarrow> t_const_value parser \<Rightarrow> t_const_value parser" where
  "ConstMap n env value =
     sbind shift (\<lambda>_.
     sbind (debug ''ConstMapContents =>'') (\<lambda>_.
     sbind (list_until n env (\<lambda>t. t = tok_sym CHR ''}'') (ConstMap_item env value) []) (\<lambda>ps.
     sbind (expect env (tok_sym CHR ''}'')) (\<lambda>_.
     sbind (debug ''ConstMap => { ConstMapContents }'') (\<lambda>_.
     sbind (debug ''ConstValue => ConstMap'') (\<lambda>_. sret (CV_MAP ps)))))))"

fun ConstValue :: "nat \<Rightarrow> penv \<Rightarrow> t_const_value parser" where
  "ConstValue 0 env = sraise NoFuel"
| "ConstValue (Suc n) env = sbind (peek env) (\<lambda>t.
     case t of
       tok_int_constant i \<Rightarrow> int_const_value i
     | tok_dub_constant d \<Rightarrow> leaf_const_value (CV_DOUBLE d) ''tok_dub_constant''
     | tok_literal s \<Rightarrow> leaf_const_value (CV_STRING s) ''tok_literal''
     | tok_identifier name \<Rightarrow> leaf_const_value (CV_IDENTIFIER name None) ''tok_identifier''
     | tok_sym c \<Rightarrow>
         if c = CHR ''['' then ConstList n env (ConstValue n env)
         else if c = CHR ''{'' then ConstMap n env (ConstValue n env)
         else syntax_error
     | _ \<Rightarrow> syntax_error)"

text \<open>\<^verbatim>\<open>g_scope->resolve_const_value\<close>.\<close>

definition resolve_in_scope :: "penv \<Rightarrow> t_const_value \<Rightarrow> t_type option \<Rightarrow> t_const_value parser" where
  "resolve_in_scope env v ty = sbind sget (\<lambda>s.
     in_scope (resolve_const_value (pe_fuel env) (tree_scopes (ps_program s)) v (type_or_null ty)))"

text \<open>A symbol goes into the scope of the program and, with its prefix, into the parent's.\<close>

definition add_symbol :: "penv \<Rightarrow> (string \<Rightarrow> unit scoped) \<Rightarrow> string \<Rightarrow> unit parser" where
  "add_symbol env add name =
     sbind (in_scope (add name)) (\<lambda>_. in_parent_scope (add (pe_prefix env @ name)))"

definition Const :: "nat \<Rightarrow> penv \<Rightarrow> string option \<Rightarrow> t_const option parser" where
  "Const n env doc =
     sbind shift (\<lambda>_.
     sbind (FieldType n env) (\<lambda>ty.
     sbind (expect_identifier env) (\<lambda>name.
     sbind (expect env (tok_sym CHR ''='')) (\<lambda>_.
     sbind (ConstValue n env) (\<lambda>v.
     sbind (CommaOrSemicolonOptional env) (\<lambda>_.
     sbind (debug ''Const -> tok_const FieldType tok_identifier = ConstValue'') (\<lambda>_.
     if pe_mode env = PROGRAM then
       sbind (simple_identifier name) (\<lambda>_.
       sbind (resolve_in_scope env v ty) (\<lambda>v.
       let c = \<lparr>const_type = type_or_null ty, const_name = name, const_value = v, const_doc = doc\<rparr> in
       sbind (run_result (validate_const_type c)) (\<lambda>_.
       sbind (add_symbol env (\<lambda>key. add_constant key c) name) (\<lambda>_. sret (Some c)))))
     else sret None)))))))"

section \<open>Fields\<close>

text \<open>
  The id of a field and whether it was assigned. The value of an explicit id is cut to 32 bits;
  counting down and the subtraction overflow at the smallest integers. The warning prints a 64-bit
  value as an \<^verbatim>\<open>int\<close>.
\<close>

definition auto_field_id :: "(int \<times> bool) parser" where
  "auto_field_id = sbind sget (\<lambda>s.
     if y_field_val s = - (2 ^ 31) then run_result (Inl Undefined)
     else sbind (set_field_val (y_field_val s - 1)) (\<lambda>_. sret (y_field_val s, True)))"

definition explicit_field_id :: "int \<Rightarrow> (int \<times> bool) parser" where
  "explicit_field_id i = sbind sget (\<lambda>s.
     if i \<le> 0 then
       if g_allow_neg_field_keys (ps_globals s) then
         sbind (if i \<noteq> y_field_val s
                then warn 1 (''Nonpositive field key ('' @ show_int i @ '') differs from what would be ''
                       @ ''auto-assigned by thrift ('' @ show_int (y_field_val s) @ '').'' @ nl)
                else sret ()) (\<lambda>_.
         if i = - (2 ^ 63) then run_result (Inl Undefined)
         else sbind (set_field_val (to_int32 (i - 1))) (\<lambda>_. sret (to_int32 i, False)))
       else
         sbind (warn 1 (''Nonpositive value ('' @ show_int (to_int32 i) @ '') not allowed as a field key.'' @ nl))
           (\<lambda>_. auto_field_id)
     else sret (to_int32 i, False))"

definition FieldIdentifier :: "penv \<Rightarrow> (int \<times> bool) parser" where
  "FieldIdentifier env = sbind (peek env) (\<lambda>t.
     case t of
       tok_int_constant i \<Rightarrow>
         sbind shift (\<lambda>_. sbind (expect env (tok_sym CHR '':'')) (\<lambda>_. explicit_field_id i))
     | _ \<Rightarrow> auto_field_id)"

definition FieldRequiredness :: "penv \<Rightarrow> e_req parser" where
  "FieldRequiredness env = sbind (peek env) (\<lambda>t.
     if t = tok_required then sbind shift (\<lambda>_. sret T_REQUIRED)
     else if t = tok_optional then
       sbind shift (\<lambda>_. sbind sget (\<lambda>s.
       if g_arglist s then
         sbind (if pe_mode env = PROGRAM
                then warn 1 (''optional keyword is ignored in argument lists.'' @ nl) else sret ()) (\<lambda>_.
         sret T_OPT_IN_REQ_OUT)
       else sret T_OPTIONAL))
     else sret T_OPT_IN_REQ_OUT)"

definition FieldValue :: "nat \<Rightarrow> penv \<Rightarrow> t_const_value option parser" where
  "FieldValue n env = sbind (optional env (tok_sym CHR ''='')) (\<lambda>eq.
     if eq then sbind (ConstValue n env) (\<lambda>v. sret (if pe_mode env = PROGRAM then Some v else None))
     else sret None)"

text \<open>The action of \<^verbatim>\<open>Field\<close>. References and xsd attributes are dropped.\<close>

definition check_field_id :: "string \<Rightarrow> bool \<Rightarrow> unit parser" where
  "check_field_id name auto_assigned =
     (if auto_assigned then
        sbind (warn 1 (''No field key specified for '' @ name
          @ '', resulting protocol may have conflicts or not be backwards compatible!'' @ nl)) (\<lambda>_. sbind sget (\<lambda>s.
        if 192 \<le> g_strict (ps_globals s)
        then exit_with ''Implicit field keys are deprecated and not allowed with -strict''
        else sret ()))
      else sret ())"

definition make_field ::
  "penv \<Rightarrow> string option \<Rightarrow> int \<times> bool \<Rightarrow> e_req \<Rightarrow> t_type option \<Rightarrow> string \<Rightarrow> t_const_value option
     \<Rightarrow> annotations option \<Rightarrow> t_field parser" where
  "make_field env doc fid req ty name value as =
     sbind (debug ''tok_int_constant : Field -> FieldType tok_identifier'') (\<lambda>_.
     sbind (check_field_id name (snd fid)) (\<lambda>_.
     sbind (simple_identifier name) (\<lambda>_.
     sbind (case value of
              None \<Rightarrow> sret None
            | Some v \<Rightarrow>
                sbind (resolve_in_scope env v ty) (\<lambda>v.
                sbind (run_result (validate_field_value
                  (t_field (type_or_null ty) name (fst fid) req None [] None) v)) (\<lambda>_.
                sret (Some v)))) (\<lambda>value.
     sbind (doc_if doc) (\<lambda>doc.
     sret (t_field (type_or_null ty) name (fst fid) req value (case as of None \<Rightarrow> [] | Some as \<Rightarrow> as) doc))))))"

definition empty_struct :: "t_struct parser" where
  "empty_struct = sbind sget (\<lambda>s. sret (new_struct (own_path s) []))"

definition FieldList_item :: "t_field parser \<Rightarrow> t_struct \<Rightarrow> t_struct parser" where
  "FieldList_item field st =
     sbind field (\<lambda>f.
     sbind (debug ''FieldList -> FieldList , Field'') (\<lambda>_.
     sbind (run_log (struct_append f st)) (\<lambda>(ok, st).
     if ok then sret st
     else exit_with (dq @ show_int (field_key f) @ '': '' @ field_name f @ dq
            @ '' - field identifier/name has already been used''))))"

definition FieldList_of :: "nat \<Rightarrow> penv \<Rightarrow> t_field parser \<Rightarrow> char \<Rightarrow> t_struct parser" where
  "FieldList_of n env field close =
     sbind (debug ''FieldList -> '') (\<lambda>_.
     sbind (set_field_val (- 1)) (\<lambda>_.
     sbind empty_struct (\<lambda>st.
     sbind (list_until n env (\<lambda>t. t = tok_sym close) (FieldList_item field) st) (\<lambda>st.
     sbind (expect env (tok_sym close)) (\<lambda>_. sret st)))))"

definition XsdAttributes :: "nat \<Rightarrow> penv \<Rightarrow> t_field parser \<Rightarrow> unit parser" where
  "XsdAttributes n env field = sbind (optional env tok_xsd_attrs) (\<lambda>x.
     if x then
       sbind (expect env (tok_sym CHR ''{'')) (\<lambda>_.
       sbind (FieldList_of n env field CHR ''}'') (\<lambda>_. sret ()))
     else sret ())"

fun Field :: "nat \<Rightarrow> penv \<Rightarrow> t_field parser" where
  "Field 0 env = sraise NoFuel"
| "Field (Suc n) env =
     sbind (CaptureDocText env) (\<lambda>doc.
     sbind (FieldIdentifier env) (\<lambda>fid.
     sbind (FieldRequiredness env) (\<lambda>req.
     sbind (FieldType (Suc n) env) (\<lambda>ty.
     sbind (optional env tok_reference) (\<lambda>_.
     sbind (expect_identifier env) (\<lambda>name.
     sbind (FieldValue n env) (\<lambda>value.
     sbind (optional env tok_xsd_optional) (\<lambda>_.
     sbind (optional env tok_xsd_nillable) (\<lambda>_.
     sbind (XsdAttributes n env (Field n env)) (\<lambda>_.
     sbind (TypeAnnotations n env) (\<lambda>as.
     sbind (CommaOrSemicolonOptional env) (\<lambda>_.
     make_field env doc fid req ty name value as))))))))))))"

definition FieldList :: "nat \<Rightarrow> penv \<Rightarrow> char \<Rightarrow> t_struct parser" where
  "FieldList n env close = FieldList_of n env (Field n env) close"

section \<open>Enums\<close>

definition EnumValue :: "penv \<Rightarrow> t_enum_value parser" where
  "EnumValue env =
     sbind (expect_identifier env) (\<lambda>name.
     sbind (optional env (tok_sym CHR ''='')) (\<lambda>eq.
     if eq then
       sbind (peek env) (\<lambda>t.
       case t of
         tok_int_constant i \<Rightarrow>
           sbind shift (\<lambda>_.
           sbind (debug ''EnumValue -> tok_identifier = tok_int_constant'') (\<lambda>_.
           sbind (if \<not> in_int32 i
                  then run_comp (failure (''64-bit value supplied for enum '' @ name @ '' will be truncated.''))
                  else sret ()) (\<lambda>_.
           sbind (set_enum_val (to_int32 i)) (\<lambda>_.
           sret (t_enum_value name (to_int32 i) None)))))
       | _ \<Rightarrow> syntax_error)
     else
       sbind (debug ''EnumValue -> tok_identifier'') (\<lambda>_.
       sbind (simple_identifier name) (\<lambda>_. sbind sget (\<lambda>s.
       sbind (if y_enum_val s = 2 ^ 31 - 1
              then run_comp (failure (''enum value overflow at enum '' @ name)) else sret ()) (\<lambda>_.
       sbind (set_enum_val (y_enum_val s + 1)) (\<lambda>_.
       sret (t_enum_value name (y_enum_val s + 1) None))))))))"

definition EnumDef :: "nat \<Rightarrow> penv \<Rightarrow> t_enum_value parser" where
  "EnumDef n env =
     sbind (CaptureDocText env) (\<lambda>doc.
     sbind (EnumValue env) (\<lambda>v.
     sbind (TypeAnnotations n env) (\<lambda>_.
     sbind (CommaOrSemicolonOptional env) (\<lambda>_.
     sbind (debug ''EnumDef -> EnumValue'') (\<lambda>_.
     sbind (doc_if doc) (\<lambda>doc. sret (t_enum_value (ev_name v) (ev_value v) doc)))))))"

definition EnumDefList :: "nat \<Rightarrow> penv \<Rightarrow> t_enum parser" where
  "EnumDefList n env =
     sbind (debug ''EnumDefList -> '') (\<lambda>_. sbind sget (\<lambda>s.
     sbind (set_enum_val (- 1)) (\<lambda>_.
     list_until n env (\<lambda>t. t = tok_sym CHR ''}'')
       (\<lambda>e. sbind (EnumDef n env) (\<lambda>v.
          sbind (debug ''EnumDefList -> EnumDefList EnumDef'') (\<lambda>_. sret (enum_append v e))))
       (t_enum (own_path s) [] [] None))))"

text \<open>The constants of the values of an enum.\<close>

definition enum_constant :: "penv \<Rightarrow> t_enum \<Rightarrow> t_enum_value \<Rightarrow> unit parser" where
  "enum_constant env e v =
     add_symbol env
       (\<lambda>key. add_constant key \<lparr>const_type = g_type_i32, const_name = ev_name v,
          const_value = CV_INTEGER (ev_value v), const_doc = None\<rparr>)
       (enum_name e @ ''.'' @ ev_name v)"

definition Enum :: "nat \<Rightarrow> penv \<Rightarrow> string option \<Rightarrow> t_enum parser" where
  "Enum n env doc =
     sbind shift (\<lambda>_.
     sbind (expect_identifier env) (\<lambda>name.
     sbind (expect env (tok_sym CHR ''{'')) (\<lambda>_.
     sbind (EnumDefList n env) (\<lambda>e.
     sbind (expect env (tok_sym CHR ''}'')) (\<lambda>_.
     sbind (TypeAnnotations n env) (\<lambda>_.
     sbind (debug ''Enum -> tok_enum tok_identifier { EnumDefList }'') (\<lambda>_.
     sbind (simple_identifier name) (\<lambda>_.
     let e = t_enum (enum_program e) name (enum_constants e) doc in
     sbind (if pe_mode env = PROGRAM then sfor (enum_constant env e) (enum_constants e) else sret ()) (\<lambda>_.
     sret e)))))))))"

text \<open>The values of a senum are read and dropped, as nothing looks at them.\<close>

definition SenumDef :: "penv \<Rightarrow> unit parser" where
  "SenumDef env =
     sbind (expect_literal env) (\<lambda>_.
     sbind (CommaOrSemicolonOptional env) (\<lambda>_.
     sbind (debug ''SenumDef -> tok_literal'') (\<lambda>_.
     debug ''SenumDefList -> SenumDefList SenumDef'')))"

definition Senum :: "nat \<Rightarrow> penv \<Rightarrow> t_type parser" where
  "Senum n env =
     sbind shift (\<lambda>_.
     sbind (expect_identifier env) (\<lambda>name.
     sbind (expect env (tok_sym CHR ''{'')) (\<lambda>_.
     sbind (debug ''SenumDefList -> '') (\<lambda>_.
     sbind (list_until n env (\<lambda>t. t = tok_sym CHR ''}'') (\<lambda>_. SenumDef env) ()) (\<lambda>_.
     sbind (expect env (tok_sym CHR ''}'')) (\<lambda>_.
     sbind (TypeAnnotations n env) (\<lambda>_.
     sbind (debug ''Senum -> tok_senum tok_identifier { SenumDefList }'') (\<lambda>_.
     sbind (simple_identifier name) (\<lambda>_. sbind sget (\<lambda>s.
     sret (t_typedef (own_path s) name (Some g_type_string))))))))))))"

section \<open>Typedefs, structs and exceptions\<close>

definition Typedef :: "nat \<Rightarrow> penv \<Rightarrow> t_type parser" where
  "Typedef n env =
     sbind shift (\<lambda>_.
     sbind (FieldType n env) (\<lambda>ty.
     sbind (expect_identifier env) (\<lambda>name.
     sbind (TypeAnnotations n env) (\<lambda>_.
     sbind (CommaOrSemicolonOptional env) (\<lambda>_.
     sbind (debug ''TypeDef -> tok_typedef FieldType tok_identifier'') (\<lambda>_.
     sbind (simple_identifier name) (\<lambda>_. sbind sget (\<lambda>s.
     sret (t_typedef (own_path s) name ty)))))))))"

definition finish_struct :: "annotations option \<Rightarrow> string option \<Rightarrow> t_struct \<Rightarrow> t_struct" where
  "finish_struct as doc st =
     t_struct (struct_program st) (struct_name st) (members st) (members_in_id_order st)
       (is_xception_flag st) (is_union st) (members_validated st) (members_with_value st)
       (case as of None \<Rightarrow> struct_annotations st | Some as \<Rightarrow> as) doc"

definition Struct :: "nat \<Rightarrow> penv \<Rightarrow> bool \<Rightarrow> string option \<Rightarrow> t_struct parser" where
  "Struct n env is_un doc =
     sbind shift (\<lambda>_.
     sbind (expect_identifier env) (\<lambda>name.
     sbind (optional env tok_xsd_all) (\<lambda>_.
     sbind (expect env (tok_sym CHR ''{'')) (\<lambda>_.
     sbind (FieldList n env CHR ''}'') (\<lambda>st.
     sbind (TypeAnnotations n env) (\<lambda>as.
     sbind (debug ''Struct -> tok_struct tok_identifier { FieldList }'') (\<lambda>_.
     sbind (simple_identifier name) (\<lambda>_.
     sbind (run_log (set_union is_un st)) (\<lambda>st.
     sbind (run_log (struct_set_name name st)) (\<lambda>st.
     sret (finish_struct as doc st)))))))))))"

definition Xception :: "nat \<Rightarrow> penv \<Rightarrow> string option \<Rightarrow> t_struct parser" where
  "Xception n env doc =
     sbind shift (\<lambda>_.
     sbind (expect_identifier env) (\<lambda>name.
     sbind (expect env (tok_sym CHR ''{'')) (\<lambda>_.
     sbind (FieldList n env CHR ''}'') (\<lambda>st.
     sbind (TypeAnnotations n env) (\<lambda>as.
     sbind (debug ''Xception -> tok_xception tok_identifier { FieldList }'') (\<lambda>_.
     sbind (simple_identifier name) (\<lambda>_.
     sbind (run_log (struct_set_name name st)) (\<lambda>st.
     sret (finish_struct as doc (set_xception True st))))))))))"

section \<open>Services\<close>

definition FunctionType :: "nat \<Rightarrow> penv \<Rightarrow> t_type option parser" where
  "FunctionType n env = sbind (optional env tok_void) (\<lambda>v.
     if v then sbind (debug ''FunctionType -> tok_void'') (\<lambda>_. sret (Some g_type_void))
     else sbind (FieldType n env) (\<lambda>ty. sbind (debug ''FunctionType -> FieldType'') (\<lambda>_. sret ty)))"

definition Throws :: "nat \<Rightarrow> penv \<Rightarrow> t_struct parser" where
  "Throws n env = sbind (optional env tok_throws) (\<lambda>t.
     if t then
       sbind (expect env (tok_sym CHR ''('')) (\<lambda>_.
       sbind (FieldList n env CHR '')'') (\<lambda>st.
       sbind (debug ''Throws -> tok_throws ( FieldList )'') (\<lambda>_. sbind sget (\<lambda>s.
       sbind (if pe_mode env = PROGRAM
              then run_result (validate_throws (pe_fuel env) (tree_scopes (ps_program s)) st)
              else sret True) (\<lambda>ok.
       if ok then sret st else exit_with ''Throws clause may not contain non-exception types'')))))
     else empty_struct)"

text \<open>
  The constructor of functions looks at the return type of a oneway function, which is a null
  pointer for a named type in the pass over the includes.
\<close>

definition make_function ::
  "t_type option \<Rightarrow> string \<Rightarrow> t_struct \<Rightarrow> t_struct \<Rightarrow> bool \<Rightarrow> t_function compile" where
  "make_function rt name args xs oneway =
     (if oneway \<and> members xs = [] \<and> rt = None then sraise Undefined
      else new_function (type_or_null rt) name args xs oneway)"

definition Function :: "nat \<Rightarrow> penv \<Rightarrow> t_function parser" where
  "Function n env =
     sbind (CaptureDocText env) (\<lambda>doc.
     sbind (optional env tok_oneway) (\<lambda>oneway.
     sbind (FunctionType n env) (\<lambda>rt.
     sbind (expect_identifier env) (\<lambda>name.
     sbind (expect env (tok_sym CHR ''('')) (\<lambda>_.
     sbind (FieldList n env CHR '')'') (\<lambda>args.
     sbind (Throws n env) (\<lambda>xs.
     sbind (TypeAnnotations n env) (\<lambda>_.
     sbind (ResourceAnnotations n env) (\<lambda>_.
     sbind (CommaOrSemicolonOptional env) (\<lambda>_.
     sbind (simple_identifier name) (\<lambda>_.
     sbind (run_log (struct_set_name (name @ ''_args'') args)) (\<lambda>args.
     sbind (run_log (make_function rt name args xs oneway)) (\<lambda>f.
     sbind (doc_if doc) (\<lambda>_. sret f))))))))))))))"

definition FunctionList_item :: "nat \<Rightarrow> penv \<Rightarrow> t_service \<Rightarrow> t_service parser" where
  "FunctionList_item n env sv =
     sbind (Function n env) (\<lambda>f.
     sbind (debug ''FunctionList -> FunctionList Function'') (\<lambda>_. run_result (add_function f sv)))"

definition Extends :: "penv \<Rightarrow> string option parser" where
  "Extends env = sbind (optional env tok_extends) (\<lambda>e.
     if e then
       sbind (expect_identifier env) (\<lambda>name.
       sbind (debug ''Extends -> tok_extends tok_identifier'') (\<lambda>_.
       if pe_mode env = PROGRAM then
         sbind (in_scope (get_service name)) (\<lambda>sv.
         case sv of
           Some sv \<Rightarrow> sret (Some (svc_name sv))
         | None \<Rightarrow> exit_with (''Service '' @ dq @ name @ dq @ '' has not been defined.''))
       else sret None))
     else sret None)"

definition Service :: "nat \<Rightarrow> penv \<Rightarrow> string option \<Rightarrow> t_service parser" where
  "Service n env doc =
     sbind shift (\<lambda>_.
     sbind (expect_identifier env) (\<lambda>name.
     sbind (Extends env) (\<lambda>ext.
     sbind (expect env (tok_sym CHR ''{'')) (\<lambda>_.
     sbind (set_arglist True) (\<lambda>_.
     sbind (debug ''FunctionList -> '') (\<lambda>_.
     sbind (list_until n env (\<lambda>t. t = tok_sym CHR ''}'') (FunctionList_item n env)
       \<lparr>svc_name = [], svc_functions = [], extends = None, svc_doc = None\<rparr>) (\<lambda>sv.
     sbind (set_arglist False) (\<lambda>_.
     sbind (expect env (tok_sym CHR ''}'')) (\<lambda>_.
     sbind (TypeAnnotations n env) (\<lambda>_.
     sbind (ResourceAnnotations n env) (\<lambda>_.
     sbind (debug ''Service -> tok_service tok_identifier { FunctionList }'') (\<lambda>_.
     sbind (simple_identifier name) (\<lambda>_.
     sret (sv\<lparr>svc_name := name, extends := ext, svc_doc := doc\<rparr>))))))))))))))"

section \<open>Definitions\<close>

text \<open>The last definition of a collection, for the test on its name.\<close>

definition require_unique :: "collection \<Rightarrow> string \<Rightarrow> unit parser" where
  "require_unique coll name = sbind sget (\<lambda>s.
     let p = the_program (ps_program s) in
     sbind (run_log (is_unique_typename (ps_program s)
       \<lparr>ref_owner = p, ref_collection = coll, ref_position = length (collection_names p coll) - 1\<rparr>)) (\<lambda>unique.
     if unique then sret () else exit_with (''Type '' @ dq @ name @ dq @ '' is already defined.'')))"

text \<open>
  The end of a definition of a type: the action of \<^verbatim>\<open>TypeDefinition\<close> adds it to the
  program, the one of \<^verbatim>\<open>Definition\<close> to the scopes.
\<close>

definition define_type ::
  "penv \<Rightarrow> string \<Rightarrow> (t_program \<Rightarrow> t_program) \<Rightarrow> collection \<Rightarrow> t_type \<Rightarrow> unit parser" where
  "define_type env kind add coll ty =
     sbind (debug (''TypeDefinition -> '' @ kind)) (\<lambda>_.
     sbind (if pe_mode env = PROGRAM then update_program add else sret ()) (\<lambda>_.
     sbind (debug ''Definition -> TypeDefinition'') (\<lambda>_.
     if pe_mode env = PROGRAM then
       sbind (add_symbol env (\<lambda>key. add_type key ty) (get_name ty)) (\<lambda>_.
       require_unique coll (get_name ty))
     else sret ())))"

definition define_service :: "penv \<Rightarrow> t_service \<Rightarrow> unit parser" where
  "define_service env sv =
     sbind (debug ''Definition -> Service'') (\<lambda>_.
     if pe_mode env = PROGRAM then
       sbind (add_symbol env (\<lambda>key. add_service key sv) (svc_name sv)) (\<lambda>_.
       sbind (update_program (prog_add_service sv)) (\<lambda>_.
       require_unique Services (svc_name sv)))
     else sret ())"

definition define_const :: "penv \<Rightarrow> t_const option \<Rightarrow> unit parser" where
  "define_const env c =
     sbind (debug ''Definition -> Const'') (\<lambda>_.
     case c of Some c \<Rightarrow> update_program (add_const c) | None \<Rightarrow> sret ())"

text \<open>
  \<^verbatim>\<open>Definition\<close>. The object has its comment from the start, as nothing reads it before
  \<^verbatim>\<open>DefinitionList\<close> sets it; the result tells whether there is an object to set it on.
\<close>

definition Definition :: "nat \<Rightarrow> penv \<Rightarrow> string option \<Rightarrow> bool parser" where
  "Definition n env doc = sbind (peek env) (\<lambda>t.
     case t of
       tok_const \<Rightarrow> sbind (Const n env doc) (\<lambda>c.
         sbind (define_const env c) (\<lambda>_. sret (c \<noteq> None)))
     | tok_typedef \<Rightarrow> sbind (Typedef n env) (\<lambda>td.
         sbind (define_type env ''Typedef'' (add_typedef td doc) Typedefs td) (\<lambda>_. sret True))
     | tok_enum \<Rightarrow> sbind (Enum n env doc) (\<lambda>e.
         sbind (define_type env ''Enum'' (add_enum e) Enums (t_enum_type e)) (\<lambda>_. sret True))
     | tok_senum \<Rightarrow> sbind (Senum n env) (\<lambda>td.
         sbind (define_type env ''Senum'' (add_typedef td doc) Typedefs td) (\<lambda>_. sret True))
     | tok_struct \<Rightarrow> sbind (Struct n env False doc) (\<lambda>st.
         sbind (define_type env ''Struct'' (add_struct st) Objects (t_struct_type st)) (\<lambda>_. sret True))
     | tok_union \<Rightarrow> sbind (Struct n env True doc) (\<lambda>st.
         sbind (define_type env ''Struct'' (add_struct st) Objects (t_struct_type st)) (\<lambda>_. sret True))
     | tok_xception \<Rightarrow> sbind (Xception n env doc) (\<lambda>st.
         sbind (define_type env ''Xception'' (add_xception st) Objects (t_struct_type st)) (\<lambda>_. sret True))
     | tok_service \<Rightarrow> sbind (Service n env doc) (\<lambda>sv.
         sbind (define_service env sv) (\<lambda>_. sret True))
     | _ \<Rightarrow> syntax_error)"

definition DefinitionList_item :: "nat \<Rightarrow> penv \<Rightarrow> unit \<Rightarrow> unit parser" where
  "DefinitionList_item n env u =
     sbind (CaptureDocText env) (\<lambda>doc.
     sbind (Definition n env doc) (\<lambda>defined.
     sbind (debug ''DefinitionList -> DefinitionList Definition'') (\<lambda>_.
     if defined then sbind (doc_if doc) (\<lambda>_. sret ()) else sret ())))"

definition DefinitionList :: "nat \<Rightarrow> penv \<Rightarrow> unit parser" where
  "DefinitionList n env =
     sbind (debug ''DefinitionList -> '') (\<lambda>_.
     list_until n env (\<lambda>t. t = tok_eof) (DefinitionList_item n env) ())"

section \<open>Headers\<close>

definition declare_namespace :: "penv \<Rightarrow> string \<Rightarrow> string \<Rightarrow> unit parser" where
  "declare_namespace env language name_space =
     sbind (run_comp declare_valid_program_doctext) (\<lambda>_.
     if pe_mode env = PROGRAM then
       sbind sget (\<lambda>s.
       sbind (run_log (set_namespace (pe_generators env) language name_space (the_program (ps_program s)))) (\<lambda>p.
       update_program (\<lambda>_. p)))
     else sret ())"

text \<open>
  The deprecated keywords: the word, the language the warning advises, the message of the parser,
  and the language whose namespace is set.
\<close>

fun deprecated_header :: "token \<Rightarrow> (string \<times> string \<times> string \<times> string) option" where
  "deprecated_header tok_cpp_namespace =
     Some (''cpp_namespace'', ''cpp'', ''tok_cpp_namespace tok_identifier'', ''cpp'')"
| "deprecated_header tok_php_namespace =
     Some (''php_namespace'', ''php'', ''tok_php_namespace tok_identifier'', ''php'')"
| "deprecated_header tok_py_module =
     Some (''py_module'', ''py'', ''tok_py_module tok_identifier'', ''py'')"
| "deprecated_header tok_perl_package =
     Some (''perl_package'', ''perl'', ''tok_perl_namespace tok_identifier'', ''perl'')"
| "deprecated_header tok_ruby_namespace =
     Some (''ruby_namespace'', ''rb'', ''tok_ruby_namespace tok_identifier'', ''rb'')"
| "deprecated_header tok_smalltalk_category =
     Some (''smalltalk_category'', ''smalltalk.category'', ''tok_smalltalk_category tok_st_identifier'', ''smalltalk.category'')"
| "deprecated_header tok_smalltalk_prefix =
     Some (''smalltalk_prefix'', ''smalltalk.prefix'', ''tok_smalltalk_prefix tok_identifier'', ''smalltalk.prefix'')"
| "deprecated_header tok_java_package =
     Some (''java_package'', ''java'', ''tok_java_package tok_identifier'', ''java'')"
| "deprecated_header tok_cocoa_prefix =
     Some (''cocoa_prefix'', ''cocoa'', ''tok_cocoa_prefix tok_identifier'', ''cocoa'')"
| "deprecated_header tok_xsd_namespace =
     Some (''xsd_namespace'', ''xsd'', ''tok_xsd_namespace tok_literal'', ''cocoa'')"
| "deprecated_header tok_csharp_namespace =
     Some (''csharp_namespace'', ''csharp'', ''tok_csharp_namespace tok_identifier'', ''csharp'')"
| "deprecated_header tok_delphi_namespace =
     Some (''delphi_namespace'', ''delphi'', ''tok_delphi_namespace tok_identifier'', ''delphi'')"
| "deprecated_header _ = None"

definition deprecated_namespace :: "penv \<Rightarrow> token \<Rightarrow> string \<times> string \<times> string \<times> string \<Rightarrow> unit parser" where
  "deprecated_namespace env t = (\<lambda>(old, advice, msg, language).
     sbind shift (\<lambda>_.
     sbind (if t = tok_xsd_namespace then expect_literal env
            else if t = tok_smalltalk_category then expect_st_identifier env
            else expect_identifier env) (\<lambda>name.
     sbind (warn 1 (sq @ old @ sq @ '' is deprecated. Use '' @ sq @ ''namespace '' @ advice @ sq @ '' instead'')) (\<lambda>_.
     sbind (debug (''Header -> '' @ msg)) (\<lambda>_.
     declare_namespace env language name)))))"

definition namespace_header :: "penv \<Rightarrow> unit parser" where
  "namespace_header env =
     sbind shift (\<lambda>_.
     sbind (optional env (tok_sym CHR ''*'')) (\<lambda>star.
     if star then
       sbind (expect_identifier env) (\<lambda>name.
       sbind (debug ''Header -> tok_namespace * tok_identifier'') (\<lambda>_.
       declare_namespace env ''*'' name))
     else
       sbind (expect_identifier env) (\<lambda>language.
       sbind (expect_identifier env) (\<lambda>name.
       sbind (debug ''Header -> tok_namespace tok_identifier tok_identifier'') (\<lambda>_.
       declare_namespace env language name)))))"

definition cpp_include_header :: "penv \<Rightarrow> unit parser" where
  "cpp_include_header env =
     sbind shift (\<lambda>_.
     sbind (expect_literal env) (\<lambda>path.
     sbind (debug ''Header -> tok_cpp_include tok_literal'') (\<lambda>_.
     sbind (run_comp declare_valid_program_doctext) (\<lambda>_.
     if pe_mode env = PROGRAM
     then update_program (\<lambda>p. p\<lparr>cpp_includes := cpp_includes p @ [path]\<rparr>) else sret ()))))"

definition Include :: "penv \<Rightarrow> unit parser" where
  "Include env =
     sbind shift (\<lambda>_.
     sbind (expect_literal env) (\<lambda>name.
     sbind (debug ''Include -> tok_include tok_literal'') (\<lambda>_.
     sbind (run_comp declare_valid_program_doctext) (\<lambda>_.
     sbind (if pe_mode env = INCLUDES then
              sbind (run_comp (include_file (pe_host env) name)) (\<lambda>path. sbind sget (\<lambda>s.
              if path \<noteq> [] then set_program (add_include path name (ps_program s))
              else sret ()))
            else sret ()) (\<lambda>_.
     debug ''Header -> Include'')))))"

definition Header :: "penv \<Rightarrow> unit parser" where
  "Header env = sbind (peek env) (\<lambda>t.
     case t of
       tok_include \<Rightarrow> Include env
     | tok_namespace \<Rightarrow> namespace_header env
     | tok_cpp_include \<Rightarrow> cpp_include_header env
     | _ \<Rightarrow> (case deprecated_header t of
               Some d \<Rightarrow> deprecated_namespace env t d | None \<Rightarrow> syntax_error))"

definition starts_definition :: "token \<Rightarrow> bool" where
  "starts_definition t \<longleftrightarrow>
     t \<in> {tok_const, tok_typedef, tok_enum, tok_senum, tok_struct, tok_union, tok_xception, tok_service, tok_eof}"

definition HeaderList_item :: "penv \<Rightarrow> unit \<Rightarrow> unit parser" where
  "HeaderList_item env u =
     sbind (DestroyDocText env) (\<lambda>_.
     sbind (Header env) (\<lambda>_. debug ''HeaderList -> HeaderList Header''))"

definition HeaderList :: "nat \<Rightarrow> penv \<Rightarrow> unit parser" where
  "HeaderList n env =
     sbind (debug ''HeaderList -> '') (\<lambda>_. list_until n env starts_definition (HeaderList_item env) ())"

section \<open>Programs\<close>

text \<open>The action of \<^verbatim>\<open>Program\<close>: a candidate that no object has claimed is the program's comment.\<close>

definition finish_program :: "unit parser" where
  "finish_program =
     sbind (debug ''Program -> Headers DefinitionList'') (\<lambda>_. sbind sget (\<lambda>s.
     let g = ps_globals s in
     sbind (case g_program_doctext_candidate g of
              None \<Rightarrow> sret ()
            | Some d \<Rightarrow>
                if g_program_doctext_status g \<noteq> ALREADY_PROCESSED then
                  sbind (run_comp (set_doc d)) (\<lambda>doc.
                  sbind (update_program (\<lambda>p. p\<lparr>prog_doc := doc\<rparr>)) (\<lambda>_.
                  run_comp (modify (\<lambda>g. g\<lparr>g_program_doctext_status := ALREADY_PROCESSED\<rparr>))))
                else sret ()) (\<lambda>_.
     run_comp clear_doctext)))"

definition Program_rule :: "nat \<Rightarrow> penv \<Rightarrow> unit parser" where
  "Program_rule n env =
     sbind (HeaderList n env) (\<lambda>_. sbind (DefinitionList n env) (\<lambda>_. finish_program))"

text \<open>
  \<^verbatim>\<open>yyparse\<close> as the driver calls it: the status is 1 after a syntax error. Fuel for one
  step more than there are characters is enough.
\<close>

definition start_state :: "string \<Rightarrow> program \<times> t_scope option \<Rightarrow> globals \<Rightarrow> pstate" where
  "start_state input st g =
     \<lparr>ps_globals = g, ps_program = fst st, ps_parent = snd st, ps_input = input, ps_look = None,
      y_field_val = -1, y_enum_val = -1, g_arglist = False\<rparr>"

definition thrift_yyparse ::
  "gen_map \<Rightarrow> nat \<Rightarrow> host \<Rightarrow> PARSE_MODE \<Rightarrow> string \<Rightarrow> string \<Rightarrow> program \<times> t_scope option
     \<Rightarrow> (int \<times> program \<times> t_scope option) comp" where
  "thrift_yyparse gens fuel h mode input prefix st g =
     (let env = \<lparr>pe_mode = mode, pe_prefix = prefix, pe_host = h, pe_generators = gens, pe_fuel = fuel\<rparr> in
      case Program_rule (Suc (length input)) env (start_state input st g) of
        (Inr _, s) \<Rightarrow> (Inr (0, ps_program s, ps_parent s), ps_globals s)
      | (Inl YYABORT, s) \<Rightarrow> (Inr (1, ps_program s, ps_parent s), ps_globals s)
      | (Inl (Failed e), s) \<Rightarrow> (Inl e, ps_globals s)
      | (Inl NoFuel, s) \<Rightarrow> (Inl Endless, ps_globals s))"

definition with_parser :: "gen_map \<Rightarrow> nat \<Rightarrow> host \<Rightarrow> host" where
  "with_parser gens fuel h = h\<lparr>yyparse := thrift_yyparse gens fuel h\<rparr>"

end
