(* ===== verification/GenBase.thy ===== *)
theory GenBase
  imports ThriftProgram
begin

text \<open>
  The base classes of the generators (\<^verbatim>\<open>generate/t_generator.h\<close>, \<^verbatim>\<open>t_generator.cc\<close>,
  \<^verbatim>\<open>t_oop_generator.h\<close>, \<^verbatim>\<open>t_generator_registry.h\<close>): the state of a generator, the
  dispatch over a program through virtual methods, the helpers on names, string literals and
  doc comments, and the registry with its option strings. A class derived from
  \<^verbatim>\<open>t_generator\<close> is an extension of the record \<open>t_generator\<close>.
\<close>

section \<open>Characters\<close>

text \<open>\<^verbatim>\<open>isupper\<close>, \<^verbatim>\<open>toupper\<close> and \<^verbatim>\<open>tolower\<close> in the C locale.\<close>

definition is_upper :: "char \<Rightarrow> bool" where
  "is_upper c \<longleftrightarrow> CHR ''A'' \<le> c \<and> c \<le> CHR ''Z''"

definition is_lower :: "char \<Rightarrow> bool" where
  "is_lower c \<longleftrightarrow> CHR ''a'' \<le> c \<and> c \<le> CHR ''z''"

definition to_upper :: "char \<Rightarrow> char" where
  "to_upper c = (if is_lower c then char_of (of_char c - 32 :: nat) else c)"

definition to_lower :: "char \<Rightarrow> char" where
  "to_lower c = (if is_upper c then char_of (of_char c + 32 :: nat) else c)"

section \<open>The state of a generator\<close>

record t_generator =
  gn_program :: program
  gn_program_name :: string
  gn_service_name :: string
  gn_out_dir_base :: string
  gn_indent :: int
  gn_tmp :: int

definition new_generator :: "program \<Rightarrow> t_generator" where
  "new_generator p =
     \<lparr>gn_program = p, gn_program_name = prog_name (the_program p), gn_service_name = [],
      gn_out_dir_base = [], gn_indent = 0, gn_tmp = 0\<rparr>"

text \<open>The virtual methods that \<^verbatim>\<open>generate_program\<close> calls, over the state \<open>'s\<close> of the class.\<close>

record 's virtual_methods =
  init_generator :: "('s, cxx_error, unit) sexn"
  generate_enum :: "t_enum \<Rightarrow> ('s, cxx_error, unit) sexn"
  generate_typedef :: "t_type \<times> string option \<Rightarrow> ('s, cxx_error, unit) sexn"
  generate_forward_declaration :: "t_struct \<Rightarrow> ('s, cxx_error, unit) sexn"
  generate_xception :: "t_struct \<Rightarrow> ('s, cxx_error, unit) sexn"
  generate_struct :: "t_struct \<Rightarrow> ('s, cxx_error, unit) sexn"
  generate_const :: "t_const \<Rightarrow> ('s, cxx_error, unit) sexn"
  generate_service :: "t_service \<Rightarrow> ('s, cxx_error, unit) sexn"
  close_generator :: "('s, cxx_error, unit) sexn"

definition generate_consts :: "'s virtual_methods \<Rightarrow> t_const list \<Rightarrow> ('s, cxx_error, unit) sexn" where
  "generate_consts vm consts = sfor (generate_const vm) consts"

definition set_service_name :: "string \<Rightarrow> ('a t_generator_scheme, cxx_error, unit) sexn" where
  "set_service_name name = sbind sget (\<lambda>s. sput (s\<lparr>gn_service_name := name\<rparr>))"

definition generate_program ::
  "'a t_generator_scheme virtual_methods \<Rightarrow> ('a t_generator_scheme, cxx_error, unit) sexn" where
  "generate_program vm = sbind sget (\<lambda>s.
     let p = the_program (gn_program s) in
     sbind (init_generator vm) (\<lambda>_.
     sbind (sfor (generate_enum vm) (enums p)) (\<lambda>_.
     sbind (sfor (generate_typedef vm) (typedefs p)) (\<lambda>_.
     sbind (sfor (generate_forward_declaration vm) (objects p)) (\<lambda>_.
     sbind (sfor (\<lambda>ob. if is_xception_flag ob then generate_xception vm ob else generate_struct vm ob)
             (objects p)) (\<lambda>_.
     sbind (generate_consts vm (prog_consts p)) (\<lambda>_.
     sbind (sfor (\<lambda>sv.
              sbind (set_service_name (svc_name sv)) (\<lambda>_. generate_service vm sv)) (services p)) (\<lambda>_.
     close_generator vm))))))))"

definition get_out_dir :: "'a t_generator_scheme \<Rightarrow> string" where
  "get_out_dir s =
     (let p = the_program (gn_program s) in
      if out_path_is_absolute p then out_path p @ ''/''
      else out_path p @ gn_out_dir_base s @ ''/'')"

definition tmp :: "string \<Rightarrow> ('a t_generator_scheme, cxx_error, string) sexn" where
  "tmp name = sbind sget (\<lambda>s.
     sbind (sput (s\<lparr>gn_tmp := gn_tmp s + 1\<rparr>)) (\<lambda>_. sret (name @ show_int (gn_tmp s))))"

definition indent_up :: "('a t_generator_scheme, cxx_error, unit) sexn" where
  "indent_up = sbind sget (\<lambda>s. sput (s\<lparr>gn_indent := gn_indent s + 1\<rparr>))"

definition indent_down :: "('a t_generator_scheme, cxx_error, unit) sexn" where
  "indent_down = sbind sget (\<lambda>s. sput (s\<lparr>gn_indent := gn_indent s - 1\<rparr>))"

text \<open>A negative level indents nothing, as the loop does not run.\<close>

definition indentation :: "int \<Rightarrow> string" where
  "indentation n = concat (replicate (nat n) ''  '')"

definition indent :: "'a t_generator_scheme \<Rightarrow> string" where
  "indent s = indentation (gn_indent s)"

text \<open>The braces of \<^verbatim>\<open>scope_up\<close> and \<^verbatim>\<open>scope_down\<close>, as the text that goes to the stream.\<close>

definition scope_up :: "('a t_generator_scheme, cxx_error, string) sexn" where
  "scope_up = sbind sget (\<lambda>s. sbind indent_up (\<lambda>_. sret (indent s @ ''{'' @ nl)))"

definition scope_down :: "('a t_generator_scheme, cxx_error, string) sexn" where
  "scope_down = sbind indent_down (\<lambda>_. sbind sget (\<lambda>s. sret (indent s @ ''}'' @ nl)))"

section \<open>Names\<close>

text \<open>On an empty string \<^verbatim>\<open>in[0]\<close> is the terminator, which both conversions leave as it is.\<close>

fun capitalize :: "string \<Rightarrow> string" where
  "capitalize [] = []"
| "capitalize (c # cs) = to_upper c # cs"

fun decapitalize :: "string \<Rightarrow> string" where
  "decapitalize [] = []"
| "decapitalize (c # cs) = to_lower c # cs"

definition lowercase :: "string \<Rightarrow> string" where
  "lowercase s = map to_lower s"

definition uppercase :: "string \<Rightarrow> string" where
  "uppercase s = map to_upper s"

definition upcase_string :: "string \<Rightarrow> string" where
  "upcase_string s = map to_upper s"

text \<open>The loop of \<^verbatim>\<open>underscore\<close> after the first character.\<close>

fun underscore_rest :: "string \<Rightarrow> string" where
  "underscore_rest [] = []"
| "underscore_rest (c # cs) =
     (if is_upper c then CHR ''_'' # to_lower c # underscore_rest cs else c # underscore_rest cs)"

fun underscore :: "string \<Rightarrow> string" where
  "underscore [] = []"
| "underscore (c # cs) = to_lower c # underscore_rest cs"

fun camelcase_from :: "bool \<Rightarrow> string \<Rightarrow> string" where
  "camelcase_from pending [] = []"
| "camelcase_from pending (c # cs) =
     (if c = CHR ''_'' then camelcase_from True cs
      else if pending then to_upper c # camelcase_from False cs
      else c # camelcase_from False cs)"

definition camelcase :: "string \<Rightarrow> string" where
  "camelcase s = camelcase_from False s"

section \<open>String literals\<close>

text \<open>The map \<^verbatim>\<open>escape_\<close> as the constructor of \<^verbatim>\<open>t_generator\<close> fills it.\<close>

definition escape_map :: "(char \<times> string) list" where
  "escape_map = omap_of_list
     [(CHR 0x0A, [CHR 0x5C, CHR ''n'']), (CHR 0x0D, [CHR 0x5C, CHR ''r'']),
      (CHR 0x09, [CHR 0x5C, CHR ''t'']), (CHR 0x22, [CHR 0x5C, CHR 0x22]),
      (CHR 0x5C, [CHR 0x5C, CHR 0x5C])]"

definition escape_char :: "char \<Rightarrow> string" where
  "escape_char c = (case omap_find escape_map c of Some r \<Rightarrow> r | None \<Rightarrow> [c])"

definition escape_string :: "string \<Rightarrow> string" where
  "escape_string s = concat (map escape_char s)"

lemma escape_char_eq:
  "escape_char c =
     (if c = CHR 0x0A then [CHR 0x5C, CHR ''n''] else if c = CHR 0x0D then [CHR 0x5C, CHR ''r'']
      else if c = CHR 0x09 then [CHR 0x5C, CHR ''t''] else if c = CHR 0x22 then [CHR 0x5C, CHR 0x22]
      else if c = CHR 0x5C then [CHR 0x5C, CHR 0x5C] else [c])"
  by (simp add: escape_char_def escape_map_def omap_of_list_find)

definition get_escaped_string :: "t_const_value \<Rightarrow> string" where
  "get_escaped_string cv = escape_string (get_string cv)"

section \<open>Doc comments\<close>

text \<open>
  \<^verbatim>\<open>getline\<close> into a buffer of 1024 characters: the line, what is left, and the flags
  \<^verbatim>\<open>eof\<close> and \<^verbatim>\<open>fail\<close>. A longer line fills the buffer and fails; so does an empty
  read at the end.
\<close>

definition getline_1024 :: "string \<Rightarrow> string \<times> string \<times> bool \<times> bool" where
  "getline_1024 s =
     (case str_find CHR 0x0A s of
        Some j \<Rightarrow> if j \<le> 1023 then (take j s, drop (Suc j) s, False, False)
                  else (take 1023 s, drop 1023 s, False, True)
      | None \<Rightarrow> if length s \<le> 1023 then (s, [], True, s = [])
                else (take 1023 s, drop 1023 s, False, True))"

text \<open>The line is a C string, which ends at a null character.\<close>

definition c_string :: "string \<Rightarrow> string" where
  "c_string s = takeWhile (\<lambda>c. c \<noteq> CHR 0x00) s"

definition docstring_line :: "string \<Rightarrow> string \<Rightarrow> string \<Rightarrow> bool \<Rightarrow> string" where
  "docstring_line ind line_prefix line eof =
     (if line = [] \<and> line_prefix = [] \<and> \<not> eof then nl
      else if line \<noteq> [] \<or> \<not> eof then ind @ line_prefix @ line @ nl
      else [])"

lemma getline_1024_shorter:
  "getline_1024 s = (line, rest, eof, bad) \<Longrightarrow> \<not> (eof \<or> bad) \<Longrightarrow> length rest < length s"
  using str_find_Some(1) [of "CHR 0x0A" s]
  by (cases "str_find (CHR 0x0A) s") (auto simp: getline_1024_def split: if_splits)

function docstring_lines :: "string \<Rightarrow> string \<Rightarrow> string \<Rightarrow> string" where
  "docstring_lines ind line_prefix docs =
     (case getline_1024 docs of (line, rest, eof, bad) \<Rightarrow>
        docstring_line ind line_prefix (c_string line) eof
        @ (if eof \<or> bad then [] else docstring_lines ind line_prefix rest))"
  by pat_completeness auto
termination
  by (relation "measure (\<lambda>(ind, line_prefix, docs). length docs)")
     (auto dest: getline_1024_shorter [OF sym])

declare docstring_lines.simps [simp del]

text \<open>
  \<^verbatim>\<open>generate_docstring_comment\<close>, as the text that goes to the stream; it is indented by
  the generator's own level, not by that of the stream.
\<close>

definition generate_docstring_comment ::
  "'a t_generator_scheme \<Rightarrow> string \<Rightarrow> string \<Rightarrow> string \<Rightarrow> string \<Rightarrow> string" where
  "generate_docstring_comment s comment_start line_prefix contents comment_end =
     (if comment_start \<noteq> [] then indent s @ comment_start else [])
     @ docstring_lines (indent s) line_prefix contents
     @ (if comment_end \<noteq> [] then indent s @ comment_end else [])"

section \<open>Object oriented languages\<close>

definition autogen_summary :: "string \<Rightarrow> string" where
  "autogen_summary version = ''Autogenerated by Thrift Compiler ('' @ version @ '')''"

definition autogen_comment :: "string \<Rightarrow> string" where
  "autogen_comment version =
     ''/**'' @ nl @ '' * '' @ autogen_summary version @ nl @ '' *'' @ nl
     @ '' * DO NOT EDIT UNLESS YOU ARE SURE THAT YOU KNOW WHAT YOU ARE DOING'' @ nl
     @ '' *  @generated'' @ nl @ '' */'' @ nl"

text \<open>The pointer of a type to its program is the program's path; \<open>programs\<close> follows it.\<close>

type_synonym programs = "string \<Rightarrow> t_program option"

definition get_enum_class_name :: "programs \<Rightarrow> 'a t_generator_scheme \<Rightarrow> t_type \<Rightarrow> cxx_error + string" where
  "get_enum_class_name programs s ty =
     (case get_program ty of
        None \<Rightarrow> Inr (get_name ty)
      | Some path \<Rightarrow>
          if path = prog_path (the_program (gn_program s)) then Inr (get_name ty)
          else (case programs path of
                  None \<Rightarrow> Inl Undefined
                | Some p \<Rightarrow> Inr (get_namespace p ''java'' @ ''.'' @ get_name ty)))"

definition generate_java_docstring_comment :: "'a t_generator_scheme \<Rightarrow> string \<Rightarrow> string" where
  "generate_java_docstring_comment s contents =
     generate_docstring_comment s (''/**'' @ nl) '' * '' contents ('' */'' @ nl)"

definition generate_java_doc :: "'a t_generator_scheme \<Rightarrow> string option \<Rightarrow> string" where
  "generate_java_doc s doc =
     (case doc of Some d \<Rightarrow> generate_java_docstring_comment s d | None \<Rightarrow> [])"

definition generate_java_doc_field ::
  "programs \<Rightarrow> 'a t_generator_scheme \<Rightarrow> t_field \<Rightarrow> cxx_error + string" where
  "generate_java_doc_field programs s f =
     (if is_enum (field_type f) then
        rbind (get_enum_class_name programs s (field_type f)) (\<lambda>cls.
        Inr (generate_java_docstring_comment s
               ((case field_doc f of Some d \<Rightarrow> d | None \<Rightarrow> []) @ nl @ ''@see '' @ cls)))
      else Inr (generate_java_doc s (field_doc f)))"

text \<open>The doc of a function is an argument, as the functions of the parse tree carry none.\<close>

definition generate_java_doc_function ::
  "'a t_generator_scheme \<Rightarrow> t_function \<Rightarrow> string option \<Rightarrow> string" where
  "generate_java_doc_function s f doc =
     (case doc of
        None \<Rightarrow> []
      | Some d \<Rightarrow>
          generate_docstring_comment s (''/**'' @ nl) '' * ''
            (d @ concat (map (\<lambda>p. nl @ ''@param '' @ field_name p
                   @ (case field_doc p of Some pd \<Rightarrow> '' '' @ pd | None \<Rightarrow> [])) (members (arglist f))))
            ('' */'' @ nl))"

section \<open>The registry\<close>

record 'g t_generator_factory =
  short_name :: string
  long_name :: string
  documentation :: string
  make_generator :: "program \<Rightarrow> (string \<times> string) list \<Rightarrow> string \<Rightarrow> 'g"
  accepts_namespace :: "string \<Rightarrow> bool"

type_synonym 'g gen_registry = "(string \<times> 'g t_generator_factory) list"

definition is_valid_namespace :: "string \<Rightarrow> bool" where
  "is_valid_namespace sub_namespace = False"

definition register_generator :: "'g t_generator_factory \<Rightarrow> 'g gen_registry \<Rightarrow> cxx_error + 'g gen_registry" where
  "register_generator fac the_map =
     (if omap_find the_map (short_name fac) \<noteq> None
      then Inl (Exit 1 (''Duplicate generators for language '' @ dq @ short_name fac @ dq @ ''!'' @ nl))
      else Inr (omap_insert (short_name fac) fac the_map))"

text \<open>One option: its key and its value, which is empty without an equals sign.\<close>

definition parse_option :: "string \<Rightarrow> string \<times> string" where
  "parse_option opt =
     (case str_find CHR ''='' opt of
        None \<Rightarrow> (opt, [])
      | Some separator \<Rightarrow> (substr opt 0 (Some separator), substr opt (Suc separator) None))"

text \<open>The loop over the text from \<^verbatim>\<open>pos\<close> on.\<close>

function parse_options :: "string \<Rightarrow> (string \<times> string) list \<Rightarrow> (string \<times> string) list" where
  "parse_options rest parsed =
     (if rest = [] then parsed
      else
        (let next_pos = str_find CHR '','' rest;
             (key, val) = parse_option (substr rest 0 next_pos) in
         parse_options (case next_pos of None \<Rightarrow> [] | Some j \<Rightarrow> drop (Suc j) rest)
           (omap_insert key val parsed)))"
  by pat_completeness auto
termination
  by (relation "measure (\<lambda>(rest, parsed). length rest)") (auto split: option.split)

declare parse_options.simps [simp del]

definition registry_get_generator :: "'g gen_registry \<Rightarrow> program \<Rightarrow> string \<Rightarrow> 'g option" where
  "registry_get_generator the_map program options =
     (let colon = str_find CHR '':'' options;
          language = substr options 0 colon;
          parsed = (case colon of None \<Rightarrow> [] | Some c \<Rightarrow> parse_options (drop (Suc c) options) []) in
      case omap_find the_map language of
        None \<Rightarrow> None
      | Some fac \<Rightarrow> Some (make_generator fac program parsed options))"

end
