(* ===== verification/LexerProps.thy ===== *)
theory LexerProps
  imports Lexer GenBase
begin

text \<open>
  Correctness of the scanner: the rule it takes and its progress, the literals and numbers it reads
  back, and what its patterns take for numbers.
\<close>

section \<open>The choice of a rule\<close>

lemma rule_matches_in:
  "(r, act) \<in> set lex_rules \<Longrightarrow> matches r (take n s) \<Longrightarrow> n \<le> length s \<Longrightarrow> \<exists>i. rule_matches lex_rules s i n"
  by (metis fst_conv in_set_conv_nth rule_matches_def)

lemma some_rule_matches: "\<exists>i. rule_matches lex_rules (c # s) i 1"
proof (cases "c = CHR 0x0A")
  case True
  have "matches whitespace ([CHR 0x0A] @ [])"
    unfolding whitespace_def by (rule matches.star1) (auto simp: one_of_def intro: matches.star0)
  then show ?thesis
    using True by (intro rule_matches_in [of whitespace Ignore]) (simp_all add: lex_rules_def)
next
  case False
  then show ?thesis
    by (intro rule_matches_in [of rx_any Unexpected]) (simp_all add: lex_rules_def rx_any_def none_of_def)
qed

lemma scanner_progress:
  assumes "s \<noteq> []"
  shows "\<exists>i n. best_rule lex_rules s = Some (n, snd (lex_rules ! i)) \<and> flex_choice lex_rules s i n \<and> 0 < n"
proof -
  obtain c cs where s: "s = c # cs" using assms by (cases s) auto
  obtain j where j: "rule_matches lex_rules s j 1" using some_rule_matches s by blast
  then obtain n act where best: "best_rule lex_rules s = Some (n, act)"
    using best_rule_None [of lex_rules s j 1] by (cases "best_rule lex_rules s") auto
  obtain i where i: "flex_choice lex_rules s i n" "snd (lex_rules ! i) = act"
    using best_rule_Some [OF best] by blast
  have "0 < n" using i(1) j unfolding flex_choice_def by fastforce
  then show ?thesis using best i by auto
qed



lemma yylex_step:
  assumes "s \<noteq> []" "best_rule lex_rules s = Some (n, act)" "0 < n"
  shows "yylex mode s = sbind (begin_action (take n s)) (\<lambda>_.
    if act = Ignore then yylex mode (drop n s)
    else if act = DocText then sbind (capture_doctext mode (take n s)) (\<lambda>_. yylex mode (drop n s))
    else lex_return act (take n s) (drop n s))"
  using assms by (subst yylex.simps) (cases act; simp)

section \<open>Literals\<close>

lemma read_literal_plain:
  "c \<notin> {CHR 0x0A, CHR 0x5C, mark} \<Longrightarrow> read_literal mark acc (c # s) = read_literal mark (acc @ [c]) s"
  by simp

lemma read_literal_escape:
  "escape_value e = Some c \<Longrightarrow> read_literal mark acc (CHR 0x5C # e # s) = read_literal mark (acc @ [c]) s"
  by simp

lemma read_escaped_char:
  "read_literal (CHR 0x22) acc (escape_char c @ s) = read_literal (CHR 0x22) (acc @ [c]) s"
  by (simp add: escape_char_eq escape_value_def)

lemma read_escaped:
  "read_literal (CHR 0x22) acc (escape_string w @ s) = read_literal (CHR 0x22) (acc @ w) s"
  by (induction w arbitrary: acc) (simp_all add: escape_string_def read_escaped_char)

text \<open>C38: A string with the escapes of the generator between double quotes is scanned as a literal with
that string, up to its first null character, and the input after it is left.\<close>

theorem literal_read_back:
  "lex_literal (CHR 0x22) (escape_string w @ dq @ rest) g = (Inr (tok_literal (c_str w), rest), g)"
  by (simp add: lex_literal_def read_escaped)

section \<open>Numbers\<close>

lemma digit_char_digit: "d < 10 \<Longrightarrow> is_digit (digit_char d)"
  by (simp add: is_digit_def char_between_def digit_char_def of_char_of)

lemma show_nat_digits: "\<forall>c \<in> set (show_nat n). is_digit c"
proof (induction n rule: show_nat.induct)
  case (1 n)
  then show ?case by (subst show_nat.simps) (auto simp: digit_char_digit)
qed

lemma split_sign_digits: "\<forall>c \<in> set s. is_digit c \<Longrightarrow> split_sign s = (False, s)"
  by (cases s) (auto simp: split_sign_def is_digit_def char_between_def)

text \<open>C39: The decimal form of an integer is scanned as the integer when it fits 64 bits, and ends the
process otherwise.\<close>

theorem int_constant_exact:
  "lex_return IntConstant (show_int i) rest g =
     (if - (2 ^ 63) \<le> i \<and> i < 2 ^ 63 then (Inr (tok_int_constant i, rest), g)
      else integer_overflow (show_int i) g)"
proof -
  have "strtoll_10 (show_int i) = in_int64 i"
  proof (cases "i < 0")
    case True
    then show ?thesis by (simp add: strtoll_10_def show_int_def split_sign_def)
  next
    case False
    then show ?thesis
      by (simp add: strtoll_10_def show_int_def split_sign_digits show_nat_digits)
  qed
  then show ?thesis by (simp add: lex_return_def in_int64_def)
qed

end
