(* ===== verification/GrammarProps.thy ===== *)
theory GrammarProps
  imports Grammar LexerProps
begin

text \<open>
  The parser always ends: the steps it makes are bounded by the characters of the input.
\<close>

section \<open>What is left of the input\<close>

definition remaining :: "pstate \<Rightarrow> nat" where
  "remaining s = length (ps_input s) + (case ps_look s of None \<Rightarrow> 0 | Some t \<Rightarrow> if t = tok_eof then 0 else 1)"

text \<open>
  From at most \<open>b\<close> remaining and under \<open>P\<close>, \<open>m\<close> does not run out of fuel, and when it returns at
  least \<open>c\<close> less remain. A parser is \<open>safe\<close> if it does not lengthen the input, and it \<open>eats\<close> if it
  shortens it; \<open>eats_at t\<close> is for a token \<open>t\<close> that is read ahead.
\<close>

definition uses :: "(pstate \<Rightarrow> bool) \<Rightarrow> nat \<Rightarrow> nat \<Rightarrow> 'a parser \<Rightarrow> bool" where
  "uses P b c m \<longleftrightarrow> (\<forall>s. remaining s \<le> b \<and> P s \<longrightarrow>
     fst (m s) \<noteq> Inl NoFuel \<and> (\<forall>x. fst (m s) = Inr x \<longrightarrow> remaining (snd (m s)) + c \<le> remaining s))"

abbreviation safe :: "nat \<Rightarrow> 'a parser \<Rightarrow> bool" where
  "safe b \<equiv> uses (\<lambda>s. True) b 0"

abbreviation eats :: "nat \<Rightarrow> 'a parser \<Rightarrow> bool" where
  "eats b \<equiv> uses (\<lambda>s. True) b (Suc 0)"

abbreviation eats_at :: "token \<Rightarrow> nat \<Rightarrow> 'a parser \<Rightarrow> bool" where
  "eats_at t b \<equiv> uses (\<lambda>s. ps_look s = Some t) b (Suc 0)"

named_theorems safe_intro

lemma usesI:
  assumes "\<And>s r t. remaining s \<le> b \<Longrightarrow> P s \<Longrightarrow> m s = (r, t) \<Longrightarrow>
    r \<noteq> Inl NoFuel \<and> (\<forall>x. r = Inr x \<longrightarrow> remaining t + c \<le> remaining s)"
  shows "uses P b c m"
  unfolding uses_def using assms by (metis prod.collapse)

lemma usesD:
  "uses P b c m \<Longrightarrow> remaining s \<le> b \<Longrightarrow> P s \<Longrightarrow> m s = (r, t) \<Longrightarrow>
     r \<noteq> Inl NoFuel \<and> (\<forall>x. r = Inr x \<longrightarrow> remaining t + c \<le> remaining s)"
  unfolding uses_def by (metis fst_conv snd_conv)

lemma uses_weaken: "uses P b c m \<Longrightarrow> (\<And>s. Q s \<Longrightarrow> P s) \<Longrightarrow> b' \<le> b \<Longrightarrow> c' \<le> c \<Longrightarrow> uses Q b' c' m"
  unfolding uses_def by (meson add_left_mono order_trans)

lemma eats_safe: "eats b m \<Longrightarrow> safe b m"
  by (erule uses_weaken) auto

lemma uses_bind:
  assumes "uses P b c m" "\<And>x. uses (\<lambda>s. True) (b - c) d (f x)"
  shows "uses P b (c + d) (sbind m f)"
proof (rule usesI)
  fix s r t
  assume s: "remaining s \<le> b" "P s" and run: "sbind m f s = (r, t)"
  obtain r1 t1 where m: "m s = (r1, t1)" by fastforce
  show "r \<noteq> Inl NoFuel \<and> (\<forall>x. r = Inr x \<longrightarrow> remaining t + (c + d) \<le> remaining s)"
  proof (cases r1)
    case (Inl e)
    then have "sbind m f s = (Inl e, t1)" using m by (simp add: sbind_raises)
    then show ?thesis using usesD [OF assms(1) s m] Inl run by auto
  next
    case (Inr y)
    then have step: "f y t1 = (r, t)" using run m by (simp add: sbind_returns)
    have t1: "remaining t1 + c \<le> remaining s" using usesD [OF assms(1) s m] Inr by simp
    then have "remaining t1 \<le> b - c" using s(1) by simp
    from usesD [OF assms(2) this TrueI step] t1 show ?thesis by auto
  qed
qed

lemma safe_bind [safe_intro]: "safe b m \<Longrightarrow> (\<And>x. safe b (f x)) \<Longrightarrow> safe b (sbind m f)"
  using uses_bind [of "\<lambda>s. True" b 0 m 0 f] by simp

lemma eats_first:
  "uses P b (Suc 0) m \<Longrightarrow> (\<And>x. safe (b - Suc 0) (f x)) \<Longrightarrow> uses P b (Suc 0) (sbind m f)"
  using uses_bind [of P b "Suc 0" m 0 f] by simp

lemma eats_nothing: "uses P 0 (Suc 0) m \<Longrightarrow> uses P 0 c (sbind m f)"
  unfolding uses_def sbind_def by (auto split: prod.split sum.split)

lemma eats_later: "safe b m \<Longrightarrow> (\<And>x. eats b (f x)) \<Longrightarrow> eats b (sbind m f)"
  using uses_bind [of "\<lambda>s. True" b 0 m "Suc 0" f] by simp

lemma uses_sraise: "e \<noteq> NoFuel \<Longrightarrow> uses P b c (sraise e)"
  by (simp add: uses_def)

lemma safe_simple [safe_intro]: "safe b (sret x)" "safe b sget"
  by (simp_all add: uses_def)

lemma uses_if [safe_intro]: "uses P b c m \<Longrightarrow> uses P b c m' \<Longrightarrow> uses P b c (if q then m else m')"
  by simp

section \<open>Actions leave the input alone\<close>

lemma safe_run_comp [safe_intro]: "safe b (run_comp m)"
  by (rule usesI) (auto simp: run_comp_def remaining_def split: prod.splits sum.splits)

lemma safe_set [safe_intro]:
  "safe b (set_program p)" "safe b (set_parent sc)" "safe b (set_field_val v)" "safe b (set_enum_val v)"
  "safe b (set_arglist a)"
  by (simp_all add: uses_def remaining_def set_program_def set_parent_def set_field_val_def
      set_enum_val_def set_arglist_def)

lemma safe_actions [safe_intro]:
  "safe b (run_log lg)" "safe b (run_result r)" "safe b (debug msg)" "safe b (warn lv msg)"
  "safe b (update_program f)"
  unfolding run_log_def run_result_def debug_def warn_def update_program_def by (intro safe_intro)+

lemma safe_scopes [safe_intro]: "safe b (in_scope m)" "safe b (in_parent_scope m')"
  unfolding in_scope_def in_parent_scope_def
  by (intro safe_intro | simp split: prod.split option.split add: safe_intro)+

lemma uses_exit [safe_intro]: "uses P b c (exit_with msg)"
  by (rule usesI) (auto simp: exit_with_def run_comp_def fatal_def sbind_def split: prod.splits sum.splits)

lemma uses_syntax_error [safe_intro]: "uses P b c syntax_error"
proof (rule usesI)
  fix s r t
  assume "(syntax_error :: 'a parser) s = (r, t)"
  then show "r \<noteq> Inl NoFuel \<and> (\<forall>x. r = Inr x \<longrightarrow> remaining t + c \<le> remaining s)"
    by (auto simp: syntax_error_def run_comp_def sbind_def split: prod.splits sum.splits)
qed

lemma safe_simple_identifier [safe_intro]: "safe b (simple_identifier name)"
  unfolding simple_identifier_def by (auto intro: safe_intro split: sum.split cxx_error.split)

section \<open>Tokens\<close>

lemma read_literal_rest:
  "(\<exists>w. read_literal mark acc s = LitDone w rest) \<or> (\<exists>e. read_literal mark acc s = LitBadEscape e rest)
     \<Longrightarrow> length rest < length s"
proof (induction mark acc s rule: read_literal.induct)
  case (2 mark acc ch s)
  show ?case
  proof (cases "ch = CHR 0x5C")
    case True
    show ?thesis
    proof (cases s)
      case Nil
      then show ?thesis using 2 True by simp
    next
      case (Cons e s')
      show ?thesis
      proof (cases "escape_value e")
        case None
        then show ?thesis using 2 True Cons by auto
      next
        case (Some c)
        have "length rest < length s'" using "2.IH"(1) [OF _ True Cons Some] "2.prems" True Cons Some by simp
        then show ?thesis using Cons by simp
      qed
    qed
  next
    case False
    then show ?thesis using 2 by (cases "ch = CHR 0x0A"; cases "ch = mark") auto
  qed
qed simp

lemma fatal_not_returns: "fatal msg g \<noteq> (Inr x, g')"
  by (simp add: fatal_def sbind_def split: prod.split sum.split)

lemma lex_literal_rest: "lex_literal mark s g = (Inr (t, rest), g') \<Longrightarrow> length rest \<le> length s"
  by (auto simp: lex_literal_def sbind_eq_Inr fatal_not_returns split: literal_end.splits
      intro!: less_imp_le read_literal_rest)

lemma lex_return_rest:
  assumes "lex_return act tx rest g = (Inr (t, r), g')"
  shows "length r \<le> length rest"
proof (cases act)
  case LiteralBegin
  then show ?thesis using assms by (auto simp: lex_return_def dest: lex_literal_rest)
qed (use assms in \<open>auto simp: lex_return_def sbind_eq_Inr integer_overflow_def unexpected_token_def
       thrift_reserved_keyword_def fatal_not_returns split: option.splits\<close>)

lemma yylex_rest:
  "yylex mode s g = (Inr (t, rest), g') \<Longrightarrow> length rest + (if t = tok_eof then 0 else 1) \<le> length s"
proof (induction "length s" arbitrary: s g rule: less_induct)
  case less
  show ?case
  proof (cases "s = []")
    case True
    then show ?thesis using less.prems by (simp add: yylex.simps sexn_simps)
  next
    case False
    then obtain n act where best: "best_rule lex_rules s = Some (n, act)" and n: "0 < n"
      using scanner_progress [OF False] by auto
    have len: "length (drop n s) < length s" using n False by simp
    note run = less.prems [unfolded yylex_step [OF False best n]]
    show ?thesis
    proof (cases "act = Ignore \<or> act = DocText")
      case True
      then obtain h where "yylex mode (drop n s) h = (Inr (t, rest), g')"
        using run by (cases "act = Ignore") (auto simp: sbind_eq_Inr)
      from less.hyps [OF len this] len show ?thesis by simp
    next
      case False
      then obtain h where "lex_return act (take n s) (drop n s) h = (Inr (t, rest), g')"
        using run by (auto simp: sbind_eq_Inr)
      from lex_return_rest [OF this] len show ?thesis by simp
    qed
  qed
qed

lemma safe_peek [safe_intro]: "safe b (peek env)"
proof (rule usesI)
  fix s r t
  assume run: "peek env s = (r, t)"
  show "r \<noteq> Inl NoFuel \<and> (\<forall>x. r = Inr x \<longrightarrow> remaining t + 0 \<le> remaining s)"
  proof (cases "ps_look s")
    case (Some k)
    then show ?thesis using run by (auto simp: peek_def)
  next
    case None
    obtain l g where lex: "yylex (pe_mode env) (ps_input s) (ps_globals s) = (l, g)" by fastforce
    show ?thesis
    proof (cases l)
      case (Inl e)
      then show ?thesis using run None lex by (auto simp: peek_def run_comp_def sbind_def)
    next
      case (Inr k)
      then show ?thesis
        using run None lex yylex_rest [of "pe_mode env" "ps_input s" "ps_globals s" "fst k" "snd k" g]
        by (auto simp: peek_def run_comp_def sbind_def remaining_def split: prod.splits)
    qed
  qed
qed

lemma peek_look: "peek env s = (Inr k, t) \<Longrightarrow> ps_look t = Some k"
  by (auto simp: peek_def sexn_simps split: option.splits)

lemma uses_peek:
  assumes "\<And>k. uses (\<lambda>s. ps_look s = Some k) b c (f k)"
  shows "uses P b c (sbind (peek env) f)"
proof (rule usesI)
  fix s r t
  assume s: "remaining s \<le> b" and run: "sbind (peek env) f s = (r, t)"
  obtain r1 t1 where m: "peek env s = (r1, t1)" by fastforce
  note pk = usesD [OF safe_peek s TrueI m]
  show "r \<noteq> Inl NoFuel \<and> (\<forall>x. r = Inr x \<longrightarrow> remaining t + c \<le> remaining s)"
  proof (cases r1)
    case (Inl e)
    then have "sbind (peek env) f s = (Inl e, t1)" using m by (simp add: sbind_raises)
    then show ?thesis using pk Inl run by auto
  next
    case (Inr k)
    then have step: "f k t1 = (r, t)" using run m by (simp add: sbind_returns)
    have t1: "remaining t1 \<le> remaining s" using pk Inr by simp
    then have "remaining t1 \<le> b" using s by simp
    from usesD [OF assms this _ step] peek_look [of env s k t1] m Inr t1 show ?thesis by auto
  qed
qed

lemma safe_shift [safe_intro]: "safe b shift"
  by (simp add: uses_def shift_def remaining_def split: option.split)

lemma eats_shift: "k \<noteq> tok_eof \<Longrightarrow> eats_at k b shift"
  by (simp add: uses_def shift_def remaining_def)

lemma eats_at_shift: "k \<noteq> tok_eof \<Longrightarrow> (\<And>x. safe (b - Suc 0) (f x)) \<Longrightarrow> eats_at k b (sbind shift f)"
  by (rule eats_first [OF eats_shift])

lemma eats_at_any: "eats b m \<Longrightarrow> eats_at k b m"
  by (rule uses_weaken) auto

lemma eats_expect: "k \<noteq> tok_eof \<Longrightarrow> eats b (expect env k)"
  unfolding expect_def by (rule uses_peek) (auto intro: uses_syntax_error eats_shift)

lemma safe_expect [safe_intro]: "safe b (expect env k)"
  unfolding expect_def by (intro safe_intro)

lemma eats_value: "eats_at k b (case k of tok_identifier x \<Rightarrow> sbind shift (\<lambda>_. sret x) | _ \<Rightarrow> syntax_error)"
  "eats_at k b (case k of tok_literal x \<Rightarrow> sbind shift (\<lambda>_. sret x) | _ \<Rightarrow> syntax_error)"
  "eats_at k b (case k of tok_st_identifier x \<Rightarrow> sbind shift (\<lambda>_. sret x) | _ \<Rightarrow> syntax_error)"
  by (cases k; simp add: uses_syntax_error eats_at_shift safe_simple)+

lemma eats_expect_value:
  "eats b (expect_identifier env)" "eats b (expect_literal env)" "eats b (expect_st_identifier env)"
  unfolding expect_identifier_def expect_literal_def expect_st_identifier_def
  by (rule uses_peek, rule eats_value)+

lemmas safe_expect_value [safe_intro] = eats_expect_value [THEN eats_safe]

lemma safe_optional [safe_intro]: "safe b (optional env k)"
  unfolding optional_def by (intro safe_intro)

lemma safe_comma [safe_intro]: "safe b (CommaOrSemicolonOptional env)"
  unfolding CommaOrSemicolonOptional_def by (intro safe_intro)

text \<open>A list runs out of fuel only if its items do, as each of them takes a token.\<close>

lemma safe_list_until:
  assumes "b < n" and item: "\<And>b acc. b < n \<Longrightarrow> eats b (item acc)"
  shows "safe b (list_until n env stops item acc)"
  using assms
proof (induction n arbitrary: b acc)
  case 0
  then show ?case by simp
next
  case (Suc n)
  have "safe b (sbind (item acc) (list_until n env stops item))" for acc
  proof (cases "b = 0")
    case True
    then show ?thesis using Suc.prems by (auto intro: eats_nothing)
  next
    case False
    then have "eats b (sbind (item acc) (list_until n env stops item))"
      using Suc by (intro eats_first) auto
    then show ?thesis by (rule eats_safe)
  qed
  then show ?case by (auto intro: safe_intro)
qed

section \<open>Productions\<close>

lemma uses_cases [safe_intro]:
  "uses P b c m \<Longrightarrow> (\<And>y. uses P b c (f y)) \<Longrightarrow> uses P b c (case x of None \<Rightarrow> m | Some y \<Rightarrow> f y)"
  "(\<And>y z. uses P b c (g y z)) \<Longrightarrow> uses P b c (case p of (y, z) \<Rightarrow> g y z)"
  by (auto split: option.split prod.split)

lemma safe_comments [safe_intro]:
  "safe b (CaptureDocText env)" "safe b (DestroyDocText env)" "safe b (doc_if doc)"
  unfolding CaptureDocText_def DestroyDocText_def doc_if_def by (intro safe_intro)+

lemma safe_AnnotationValue [safe_intro]: "safe b (AnnotationValue env kind)"
  unfolding AnnotationValue_def by (intro safe_intro)

lemma eats_Annotation: "eats b (Annotation env kind as)"
  unfolding Annotation_def by (rule eats_first [OF eats_expect_value(1)]) (intro safe_intro)

lemma safe_AnnotationList [safe_intro]: "b < n \<Longrightarrow> safe b (AnnotationList n env kind)"
  unfolding AnnotationList_def by (intro safe_intro safe_list_until eats_Annotation)

lemma safe_annotations [safe_intro]:
  "b < n \<Longrightarrow> safe b (TypeAnnotations n env)" "b < n \<Longrightarrow> safe b (ResourceAnnotations n env)"
  unfolding TypeAnnotations_def ResourceAnnotations_def by (intro safe_intro, assumption)+

lemma safe_CppType [safe_intro]: "safe b (CppType env)"
  unfolding CppType_def by (intro safe_intro)

text \<open>The elements of a container are read with one step of fuel less, after its keyword.\<close>

lemma eats_containers:
  assumes "k \<noteq> tok_eof" "safe (b - Suc 0) elem"
  shows "eats_at k b (MapType env elem)" "eats_at k b (SetType env elem)" "eats_at k b (ListType env elem)"
  unfolding MapType_def SetType_def ListType_def
  by (rule eats_at_shift [OF assms(1)], intro safe_intro assms(2))+

lemma eats_BaseType: "k \<noteq> tok_eof \<Longrightarrow> b \<le> n \<Longrightarrow> 0 < b \<Longrightarrow> eats_at k b (BaseType n env ty name)"
  unfolding BaseType_def by (rule eats_at_shift, assumption, intro safe_intro) simp

lemma eats_named_type: "k \<noteq> tok_eof \<Longrightarrow> eats_at k b (named_type env name)"
  unfolding named_type_def by (rule eats_at_shift, assumption, intro safe_intro)

lemma eats_ContainerType:
  "uses P b (Suc 0) simple \<Longrightarrow> b \<le> n \<Longrightarrow> 0 < b \<Longrightarrow> uses P b (Suc 0) (ContainerType n env simple)"
  unfolding ContainerType_def by (rule eats_first, assumption, intro safe_intro) simp

lemma eats_at_zero: "k \<noteq> tok_eof \<Longrightarrow> uses (\<lambda>s. ps_look s = Some k) 0 c m"
  by (auto simp: uses_def remaining_def)

lemma eats_FieldType: "b < n \<Longrightarrow> eats b (FieldType n env)"
proof (induction n arbitrary: b)
  case (Suc n)
  let ?elem = "FieldType n env"
  have "eats_at k b (case k of
       tok_identifier name \<Rightarrow> named_type env name
     | tok_map \<Rightarrow> ContainerType n env (MapType env ?elem)
     | tok_set \<Rightarrow> ContainerType n env (SetType env ?elem)
     | tok_list \<Rightarrow> ContainerType n env (ListType env ?elem)
     | _ \<Rightarrow>
         (case SimpleBaseType k of
            Some (ty, name) \<Rightarrow> sbind (BaseType n env ty name) (\<lambda>ty.
              sbind (debug ''FieldType -> BaseType'') (\<lambda>_. sret (Some ty)))
          | None \<Rightarrow> syntax_error))" for k
  proof (cases "k = tok_eof \<or> b = 0")
    case True
    then show ?thesis by (cases "k = tok_eof") (simp_all add: uses_syntax_error eats_at_zero)
  next
    case False
    then have elem: "safe (b - Suc 0) ?elem" and b: "b \<le> n" "0 < b"
      using Suc by (auto intro: eats_safe)
    have base: "j \<noteq> tok_eof \<Longrightarrow> eats_at j b (sbind (BaseType n env ty name) (\<lambda>ty.
        sbind (debug ''FieldType -> BaseType'') (\<lambda>_. sret (Some ty))))" for j ty name
      by (intro eats_first [OF eats_BaseType] b safe_intro)
    show ?thesis
      using False by (cases k)
        (simp_all add: base uses_syntax_error eats_named_type eats_ContainerType eats_containers elem b)
  qed
  then show ?case by (simp add: uses_peek)
qed simp

lemmas safe_FieldType [safe_intro] = eats_FieldType [THEN eats_safe]

section \<open>Constants and fields\<close>

lemma eats_const_leaf:
  "k \<noteq> tok_eof \<Longrightarrow> eats_at k b (int_const_value i)" "k \<noteq> tok_eof \<Longrightarrow> eats_at k b (leaf_const_value v name)"
  unfolding int_const_value_def leaf_const_value_def by (rule eats_at_shift, assumption, intro safe_intro)+

lemma eats_const_items:
  assumes "eats b elem"
  shows "eats b (ConstList_item env elem vs)" "eats b (ConstMap_item env elem ps)"
  unfolding ConstList_item_def ConstMap_item_def
  by (rule eats_first [OF assms], intro safe_intro uses_weaken [OF assms]; simp)+

lemma eats_const_lists:
  assumes "k \<noteq> tok_eof" "0 < b" "b \<le> n" and elem: "\<And>b. b < n \<Longrightarrow> eats b elem"
  shows "eats_at k b (ConstList n env elem)" "eats_at k b (ConstMap n env elem)"
  unfolding ConstList_def ConstMap_def
  by (rule eats_at_shift [OF assms(1)], intro safe_intro safe_list_until eats_const_items elem,
      use assms(2,3) in auto)+

lemma eats_ConstValue: "b < n \<Longrightarrow> eats b (ConstValue n env)"
proof (induction n arbitrary: b)
  case (Suc n)
  let ?elem = "ConstValue n env"
  have "eats_at k b (case k of
       tok_int_constant i \<Rightarrow> int_const_value i
     | tok_dub_constant d \<Rightarrow> leaf_const_value (CV_DOUBLE d) ''tok_dub_constant''
     | tok_literal s \<Rightarrow> leaf_const_value (CV_STRING s) ''tok_literal''
     | tok_identifier name \<Rightarrow> leaf_const_value (CV_IDENTIFIER name None) ''tok_identifier''
     | tok_sym c \<Rightarrow>
         if c = CHR ''['' then ConstList n env ?elem
         else if c = CHR ''{'' then ConstMap n env ?elem
         else syntax_error
     | _ \<Rightarrow> syntax_error)" for k
  proof (cases "k = tok_eof \<or> b = 0")
    case True
    then show ?thesis by (cases "k = tok_eof") (simp_all add: uses_syntax_error eats_at_zero)
  next
    case False
    then have b: "0 < b" "b \<le> n" using Suc.prems by auto
    show ?thesis
      using False b Suc.IH
      by (cases k) (simp_all add: uses_syntax_error eats_const_leaf eats_const_lists)
  qed
  then show ?case by (simp add: uses_peek)
qed simp

lemmas safe_ConstValue [safe_intro] = eats_ConstValue [THEN eats_safe]

lemma safe_symbols [safe_intro]: "safe b (resolve_in_scope env v ty)" "safe b (add_symbol env add name)"
  unfolding resolve_in_scope_def add_symbol_def by (intro safe_intro)+

lemma safe_field_ids [safe_intro]: "safe b auto_field_id" "safe b (explicit_field_id i)"
  unfolding auto_field_id_def explicit_field_id_def by (intro safe_intro)+

lemma safe_FieldIdentifier [safe_intro]: "safe b (FieldIdentifier env)"
proof -
  have "safe b (case k of tok_int_constant i \<Rightarrow>
      sbind shift (\<lambda>_. sbind (expect env (tok_sym CHR '':'')) (\<lambda>_. explicit_field_id i))
    | _ \<Rightarrow> auto_field_id)" for k
    by (cases k) (auto intro: safe_intro)
  then show ?thesis unfolding FieldIdentifier_def by (intro safe_intro)
qed

lemma safe_field_parts [safe_intro]:
  "safe b (FieldRequiredness env)" "b < n \<Longrightarrow> safe b (FieldValue n env)"
  "safe b (check_field_id name a)" "safe b empty_struct"
  unfolding FieldRequiredness_def FieldValue_def check_field_id_def empty_struct_def
  by (intro safe_intro; assumption?)+

lemma safe_make_field [safe_intro]: "safe b (make_field env doc fid req ty name value as)"
  unfolding make_field_def by (intro safe_intro)

lemma eats_FieldList_item: "eats b field \<Longrightarrow> eats b (FieldList_item field st)"
  unfolding FieldList_item_def by (rule eats_first, assumption, intro safe_intro)

lemma safe_FieldList_of:
  "b < n \<Longrightarrow> (\<And>b. b < n \<Longrightarrow> eats b field) \<Longrightarrow> safe b (FieldList_of n env field close)"
  unfolding FieldList_of_def by (intro safe_intro safe_list_until eats_FieldList_item) auto

lemma safe_XsdAttributes:
  "b < n \<Longrightarrow> (\<And>b. b < n \<Longrightarrow> eats b field) \<Longrightarrow> safe b (XsdAttributes n env field)"
  unfolding XsdAttributes_def by (intro safe_intro safe_FieldList_of) auto

lemma eats_Field: "b < n \<Longrightarrow> eats b (Field n env)"
proof (induction n arbitrary: b)
  case (Suc n)
  have rest: "eats b (sbind (FieldType (Suc n) env) (\<lambda>ty.
      sbind (optional env tok_reference) (\<lambda>_.
      sbind (expect_identifier env) (\<lambda>name.
      sbind (FieldValue n env) (\<lambda>value.
      sbind (optional env tok_xsd_optional) (\<lambda>_.
      sbind (optional env tok_xsd_nillable) (\<lambda>_.
      sbind (XsdAttributes n env (Field n env)) (\<lambda>_.
      sbind (TypeAnnotations n env) (\<lambda>as.
      sbind (CommaOrSemicolonOptional env) (\<lambda>_.
      make_field env doc fid req ty name value as))))))))))" for doc fid req
  proof (cases "b = 0")
    case True
    then show ?thesis using eats_nothing [OF eats_FieldType [of 0 "Suc n" env]] by simp
  next
    case False
    then have "b - Suc 0 < n" using Suc.prems by simp
    then show ?thesis
      by (intro eats_first [OF eats_FieldType [OF Suc.prems]] safe_intro safe_XsdAttributes Suc.IH)
  qed
  show ?case
    unfolding Field.simps by (intro eats_later safe_intro rest)
qed simp


lemma safe_FieldList [safe_intro]: "b < n \<Longrightarrow> safe b (FieldList n env close)"
  unfolding FieldList_def by (intro safe_FieldList_of eats_Field)

section \<open>Definitions\<close>

lemma safe_sfor [safe_intro]: "(\<And>x. safe b (f x)) \<Longrightarrow> safe b (sfor f xs)"
  by (induction xs) (auto intro: safe_intro)

lemma uses_int_token [safe_intro]:
  "(\<And>i. uses P b c (f i)) \<Longrightarrow> uses P b c m \<Longrightarrow> uses P b c (case k of tok_int_constant i \<Rightarrow> f i | _ \<Rightarrow> m)"
  by (cases k) simp_all

lemma eats_EnumValue: "eats b (EnumValue env)"
  unfolding EnumValue_def by (intro eats_first [OF eats_expect_value(1)] safe_intro)

lemma eats_EnumDef: "b < n \<Longrightarrow> eats b (EnumDef n env)"
  unfolding EnumDef_def by (intro eats_later safe_intro eats_first [OF eats_EnumValue]) simp

lemma safe_EnumDefList [safe_intro]: "b < n \<Longrightarrow> safe b (EnumDefList n env)"
  unfolding EnumDefList_def
  by (intro safe_intro safe_list_until eats_first [OF eats_EnumDef])

lemma safe_enum_constant [safe_intro]: "safe b (enum_constant env e v)"
  unfolding enum_constant_def by (intro safe_intro)

lemma eats_SenumDef: "eats b (SenumDef env)"
  unfolding SenumDef_def by (intro eats_first [OF eats_expect_value(2)] safe_intro)

lemma safe_function_parts [safe_intro]:
  "b < n \<Longrightarrow> safe b (Throws n env)" "b < n \<Longrightarrow> safe b (FunctionType n env)"
  unfolding Throws_def FunctionType_def by (intro safe_intro; assumption)+

lemma eats_Function: "b < n \<Longrightarrow> eats b (Function n env)"
  unfolding Function_def
  by (intro eats_later safe_intro eats_first [OF eats_expect_value(1)]; simp?)

lemma eats_FunctionList_item: "b < n \<Longrightarrow> eats b (FunctionList_item n env sv)"
  unfolding FunctionList_item_def by (intro eats_first [OF eats_Function] safe_intro)

lemma safe_Extends [safe_intro]: "safe b (Extends env)"
  unfolding Extends_def by (intro safe_intro)

text \<open>The definitions start with the shift of their keyword.\<close>

lemma eats_definitions:
  assumes "k \<noteq> tok_eof" "b < n"
  shows "eats_at k b (Const n env doc)" "eats_at k b (Typedef n env)" "eats_at k b (Enum n env doc)"
    "eats_at k b (Senum n env)" "eats_at k b (Struct n env u doc)" "eats_at k b (Xception n env doc)"
    "eats_at k b (Service n env doc)"
  unfolding Const_def Typedef_def Enum_def Senum_def Struct_def Xception_def Service_def Let_def
  by (rule eats_at_shift [OF assms(1)],
      intro safe_intro safe_list_until eats_SenumDef eats_FunctionList_item, (use assms(2) in simp)+)+

lemma safe_require_unique [safe_intro]: "safe b (require_unique coll name)"
  unfolding require_unique_def Let_def by (intro safe_intro)

lemma safe_define [safe_intro]:
  "safe b (define_type env kind add coll ty)" "safe b (define_service env sv)" "safe b (define_const env c)"
  unfolding define_type_def define_service_def define_const_def by (intro safe_intro)+

lemma eats_Definition:
  assumes "b < n"
  shows "eats b (Definition n env doc)"
  unfolding Definition_def
proof (rule uses_peek)
  fix k
  note parts = eats_definitions [OF _ assms, THEN eats_first]
  show "eats_at k b (case k of
       tok_const \<Rightarrow> sbind (Const n env doc) (\<lambda>c.
         sbind (define_const env c) (\<lambda>_. sret (c \<noteq> None)))
     | tok_typedef \<Rightarrow> sbind (Typedef n env) (\<lambda>td.
         sbind (define_type env ''Typedef'' (add_typedef td doc) Typedefs td) (\<lambda>_. sret True))
     | tok_enum \<Rightarrow> sbind (Enum n env doc) (\<lambda>e.
         sbind (define_type env ''Enum'' (add_enum e) Enums (t_enum_type e)) (\<lambda>_. sret True))
     | tok_senum \<Rightarrow> sbind (Senum n env) (\<lambda>td.
         sbind (define_type env ''Senum'' (add_typedef td doc) Typedefs td) (\<lambda>_. sret True))
     | tok_struct \<Rightarrow> sbind (Struct n env False doc) (\<lambda>st.
         sbind (define_type env ''Struct'' (add_struct st) Objects (t_struct_type st)) (\<lambda>_. sret True))
     | tok_union \<Rightarrow> sbind (Struct n env True doc) (\<lambda>st.
         sbind (define_type env ''Struct'' (add_struct st) Objects (t_struct_type st)) (\<lambda>_. sret True))
     | tok_xception \<Rightarrow> sbind (Xception n env doc) (\<lambda>st.
         sbind (define_type env ''Xception'' (add_xception st) Objects (t_struct_type st)) (\<lambda>_. sret True))
     | tok_service \<Rightarrow> sbind (Service n env doc) (\<lambda>sv.
         sbind (define_service env sv) (\<lambda>_. sret True))
     | _ \<Rightarrow> syntax_error)"
    by (cases k; simp add: uses_syntax_error; intro parts safe_intro; simp)
qed

lemma safe_DefinitionList [safe_intro]: "b < n \<Longrightarrow> safe b (DefinitionList n env)"
  unfolding DefinitionList_def DefinitionList_item_def
  by (intro safe_intro safe_list_until eats_later eats_first [OF eats_Definition])

section \<open>Headers and programs\<close>

lemma safe_declare_namespace [safe_intro]: "safe b (declare_namespace env language name)"
  unfolding declare_namespace_def by (intro safe_intro)

lemma eats_deprecated_namespace: "k \<noteq> tok_eof \<Longrightarrow> eats_at k b (deprecated_namespace env t d)"
  unfolding deprecated_namespace_def by (rule uses_cases)+ (rule eats_at_shift, assumption, intro safe_intro)

lemma eats_headers:
  assumes "k \<noteq> tok_eof"
  shows "eats_at k b (namespace_header env)" "eats_at k b (cpp_include_header env)" "eats_at k b (Include env)"
  unfolding namespace_header_def cpp_include_header_def Include_def
  by (rule eats_at_shift [OF assms], intro safe_intro)+

lemma eats_Header: "eats b (Header env)"
  unfolding Header_def
proof (rule uses_peek)
  fix k
  show "eats_at k b (case k of
       tok_include \<Rightarrow> Include env
     | tok_namespace \<Rightarrow> namespace_header env
     | tok_cpp_include \<Rightarrow> cpp_include_header env
     | _ \<Rightarrow> (case deprecated_header k of
               Some d \<Rightarrow> deprecated_namespace env k d | None \<Rightarrow> syntax_error))"
    by (cases k) (simp_all add: uses_syntax_error eats_headers eats_deprecated_namespace)
qed

lemma safe_HeaderList [safe_intro]: "b < n \<Longrightarrow> safe b (HeaderList n env)"
  unfolding HeaderList_def HeaderList_item_def
  by (intro safe_intro safe_list_until eats_later eats_first [OF eats_Header])

lemma safe_finish_program [safe_intro]: "safe b finish_program"
  unfolding finish_program_def Let_def by (intro safe_intro)

lemma safe_Program_rule: "b < n \<Longrightarrow> safe b (Program_rule n env)"
  unfolding Program_rule_def by (intro safe_intro)


end
