(* ===== verification/AuditProps.thy ===== *)
theory AuditProps
  imports ThriftAudit
begin

text \<open>
  Correctness of the audit: which changes are failures, stated without the walks and maps of
  the code.
\<close>

section \<open>Comparisons that report and latch\<close>

text \<open>
  \<open>audits m b\<close>: \<open>m\<close> returns, prints, and latches a failure exactly when \<open>b\<close>; nothing
  else of the state changes.
\<close>

definition audits :: "unit comp \<Rightarrow> bool \<Rightarrow> bool" where
  "audits m b \<longleftrightarrow> (\<forall>g. \<exists>out. m g =
     (Inr (), g\<lparr>printed := printed g @ out, g_return_failure := g_return_failure g \<or> b\<rparr>))"

named_theorems audits_intros

lemma audits_ret [audits_intros]: "audits (sret ()) False"
  unfolding audits_def by (auto intro: exI [of _ "[]"])

lemma audits_nothing: "audits (Pair (Inr ())) False"
  using audits_ret by (simp add: audits_def)

lemma audits_warning [audits_intros]: "audits (thrift_audit_warning level msg) False"
  unfolding audits_def thrift_audit_warning_def
  by (auto intro: exI [of _ "[]"])

lemma audits_failure [audits_intros]: "audits (thrift_audit_failure msg) True"
  unfolding audits_def thrift_audit_failure_def by auto

lemma audits_bind [audits_intros]:
  assumes "audits m b" "audits (f ()) c"
  shows "audits (sbind m f) (b \<or> c)"
  unfolding audits_def
proof
  fix g
  obtain out where m: "m g = (Inr (), g\<lparr>printed := printed g @ out, g_return_failure := g_return_failure g \<or> b\<rparr>)"
    (is "_ = (_, ?g)") using assms(1) unfolding audits_def by blast
  obtain out' where f: "f () ?g = (Inr (), ?g\<lparr>printed := printed ?g @ out', g_return_failure := g_return_failure ?g \<or> c\<rparr>)"
    using assms(2) unfolding audits_def by blast
  show "\<exists>out. sbind m f g =
      (Inr (), g\<lparr>printed := printed g @ out, g_return_failure := g_return_failure g \<or> b \<or> c\<rparr>)"
    using m f by (intro exI [of _ "out @ out'"]) (simp add: sbind_returns)
qed

lemma audits_failure_then: "audits n b \<Longrightarrow> audits (sbind (thrift_audit_failure msg) (\<lambda>_. n)) True"
  using audits_bind [OF audits_failure] by simp

lemma audits_if [audits_intros]:
  "audits m b \<Longrightarrow> audits n c \<Longrightarrow> audits (if p then m else n) (if p then b else c)"
  by simp

lemma audits_sfor:
  "(\<And>x. x \<in> set xs \<Longrightarrow> audits (f x) (b x)) \<Longrightarrow> audits (sfor f xs) (\<exists>x \<in> set xs. b x)"
proof (induction xs)
  case Nil
  then show ?case by (simp add: audits_nothing)
next
  case (Cons x xs)
  have "audits (sfor f (x # xs)) (b x \<or> (\<exists>x \<in> set xs. b x))"
    unfolding sfor.simps using Cons by (intro audits_bind) auto
  then show ?case by simp
qed

lemma audits_cong: "audits m b \<Longrightarrow> b = c \<Longrightarrow> audits m c"
  by simp

text \<open>
  The contract of the five loops over named entries: given what a missing entry and a pair of
  entries mean, the loop latches exactly when one of the old entries is broken.
\<close>

definition latest :: "('a \<Rightarrow> string) \<Rightarrow> 'a list \<Rightarrow> string \<Rightarrow> 'a option" where
  "latest name xs k = find (\<lambda>x. name x = k) (rev xs)"

lemma latest_map: "omap_find (omap_of_list (map (\<lambda>x. (name x, x)) xs)) k = latest name xs k"
proof -
  have "map_of (map (\<lambda>x. (name x, x)) ys) k = find (\<lambda>x. name x = k) ys" for ys
    by (induction ys) auto
  then show ?thesis
    unfolding omap_of_list_def latest_def by (simp add: omap.look_fill_empty rev_map)
qed

lemma latest_Some: "latest name xs k = Some x \<Longrightarrow> x \<in> set xs \<and> name x = k"
  unfolding latest_def find_Some_iff by (metis length_rev nth_mem set_rev)

lemma latest_distinct: "distinct (map name xs) \<Longrightarrow> x \<in> set xs \<Longrightarrow> latest name xs (name x) = Some x"
proof -
  assume d: "distinct (map name xs)" and x: "x \<in> set xs"
  then obtain y where y: "latest name xs (name x) = Some y"
    by (cases "latest name xs (name x)") (auto simp: latest_def find_None_iff)
  then show ?thesis using latest_Some [OF y] d x by (metis distinct_map inj_onD)
qed

definition entry_broken ::
  "('a \<Rightarrow> string) \<Rightarrow> bool \<Rightarrow> ('a \<Rightarrow> 'a \<Rightarrow> bool) \<Rightarrow> 'a list \<Rightarrow> 'a \<Rightarrow> bool" where
  "entry_broken name gone breaks news old \<longleftrightarrow>
     (case latest name news (name old) of None \<Rightarrow> gone | Some new \<Rightarrow> breaks new old)"

locale auditor =
  fixes name :: "'a \<Rightarrow> string"
    and missing :: "'a \<Rightarrow> unit comp"
    and compare :: "'a \<Rightarrow> 'a \<Rightarrow> unit comp"
    and ok :: "'a \<Rightarrow> bool"
    and gone :: bool
    and breaks :: "'a \<Rightarrow> 'a \<Rightarrow> bool"
  assumes missing_audits: "audits (missing x) gone"
    and compare_audits: "ok x \<Longrightarrow> ok y \<Longrightarrow> audits (compare x y) (breaks x y)"
begin

lemma by_name_audits:
  assumes "\<And>x. x \<in> set news \<Longrightarrow> ok x" "\<And>x. x \<in> set olds \<Longrightarrow> ok x"
  shows "audits (by_name name missing compare news olds) (\<exists>old \<in> set olds. entry_broken name gone breaks news old)"
  unfolding by_name_def Let_def latest_map
proof (rule audits_sfor)
  fix old assume old: "old \<in> set olds"
  show "audits (case latest name news (name old) of None \<Rightarrow> missing old | Some new \<Rightarrow> compare new old)
          (entry_broken name gone breaks news old)"
  proof (cases "latest name news (name old)")
    case None
    then show ?thesis using missing_audits by (simp add: entry_broken_def)
  next
    case (Some new)
    then show ?thesis
      using compare_audits [of new old] assms old latest_Some [OF Some] by (simp add: entry_broken_def)
  qed
qed

lemma unbroken_self:
  assumes "distinct (map name xs)" "\<And>x. x \<in> set xs \<Longrightarrow> \<not> breaks x x" "x \<in> set xs"
  shows "\<not> entry_broken name gone breaks xs x"
  using latest_distinct [OF assms(1,3)] assms(2,3) by (simp add: entry_broken_def)

end

section \<open>Structs\<close>

definition field_breaks :: "t_field \<Rightarrow> t_field \<Rightarrow> bool" where
  "field_breaks new old \<longleftrightarrow>
     \<not> compare_type (field_type new) (field_type old)
     \<or> (field_req new = T_REQUIRED) \<noteq> (field_req old = T_REQUIRED)"

lemma compare_struct_field_audits: "audits (compare_struct_field new old s) (field_breaks new old)"
  unfolding compare_struct_field_def Let_def
  by (rule audits_cong, (rule audits_intros)+) (auto simp: field_breaks_def)

text \<open>
  A new version of a struct breaks the old one when a field is gone, when a field with a new
  id is required or has an id below one of the old ones, or when a field changed its type or
  whether it is required.
\<close>

definition members_break :: "t_field list \<Rightarrow> t_field list \<Rightarrow> bool" where
  "members_break news olds \<longleftrightarrow>
     (\<exists>old \<in> set olds. field_key old \<notin> field_key ` set news)
     \<or> (\<exists>new \<in> set news. field_key new \<notin> field_key ` set olds
          \<and> (field_req new = T_REQUIRED \<or> (\<exists>old \<in> set olds. field_key new < field_key old)))
     \<or> (\<exists>new \<in> set news. \<exists>old \<in> set olds. field_key new = field_key old \<and> field_breaks new old)"

definition ascending :: "t_field list \<Rightarrow> bool" where
  "ascending fs \<longleftrightarrow> sorted_wrt (<) (map field_key fs)"

lemma ascending_Cons: "ascending (f # fs) \<longleftrightarrow> (\<forall>h \<in> set fs. field_key f < field_key h) \<and> ascending fs"
  by (auto simp: ascending_def)

lemma members_break_ends:
  "members_break [] (old # olds)"
  "members_break (new # news) [] \<longleftrightarrow> field_req new = T_REQUIRED \<or> members_break news []"
  by (auto simp: members_break_def)

lemma members_break_same:
  assumes "ascending (new # news)" "ascending (old # olds)" "field_key new = field_key old"
  shows "members_break (new # news) (old # olds) \<longleftrightarrow> field_breaks new old \<or> members_break news olds"
proof -
  have above: "field_key f > field_key old" if "f \<in> set news \<or> f \<in> set olds" for f
    using that assms by (auto simp: ascending_Cons)
  have "field_key old \<notin> field_key ` set news" "field_key old \<notin> field_key ` set olds"
    using above by fastforce+
  then show ?thesis
    unfolding members_break_def using above assms(3) by (simp, fastforce)
qed

lemma members_break_inserted:
  assumes "ascending (old # olds)" "field_key new < field_key old"
  shows "members_break (new # news) (old # olds)"
proof -
  have "field_key new \<notin> field_key ` set (old # olds)"
    using assms by (fastforce simp: ascending_Cons)
  then show ?thesis unfolding members_break_def using assms(2) by (metis list.set_intros(1))
qed

lemma members_break_removed:
  assumes "ascending (new # news)" "field_key old < field_key new"
  shows "members_break (new # news) (old # olds)"
proof -
  have "field_key old \<notin> field_key ` set (new # news)"
    using assms by (fastforce simp: ascending_Cons)
  then show ?thesis unfolding members_break_def by (metis list.set_intros(1))
qed

lemmas members_break_walk =
  members_break_ends members_break_same members_break_inserted members_break_removed

lemma compare_members_audits:
  "ascending news \<Longrightarrow> ascending olds \<Longrightarrow> audits (compare_members s news olds) (members_break news olds)"
proof (induction s news olds rule: compare_members.induct)
  case (1 s)
  then show ?case by (simp add: audits_nothing members_break_def)
next
  case (2 s old olds)
  show ?case
    unfolding compare_members.simps
    by (rule audits_cong, rule audits_bind, rule audits_failure, rule "2.IH")
       (use "2.prems" in \<open>auto simp: ascending_Cons members_break_walk\<close>)
next
  case (3 s new news)
  show ?case
    unfolding compare_members.simps
    by (rule audits_cong, rule audits_bind, (rule audits_intros)+, rule "3.IH")
       (use "3.prems" in \<open>auto simp: ascending_Cons members_break_walk\<close>)
next
  case (4 s new news old olds)
  have asc: "ascending news" "ascending olds" using "4.prems" by (auto simp: ascending_Cons)
  consider "field_key new = field_key old" | "field_key new < field_key old" | "field_key old < field_key new"
    by linarith
  then show ?case
  proof cases
    case 1
    have "audits (compare_members s (new # news) (old # olds)) (field_breaks new old \<or> members_break news olds)"
      using 1 "4.IH"(1) [OF 1 asc] by (auto intro!: audits_bind compare_struct_field_audits)
    then show ?thesis using members_break_same [OF "4.prems" 1] by simp
  next
    case 2
    then have "audits (compare_members s (new # news) (old # olds)) True"
      using "4.IH"(2) asc "4.prems" by (auto intro!: audits_failure_then)
    then show ?thesis using members_break_inserted [OF "4.prems"(2) 2] by simp
  next
    case 3
    then have "audits (compare_members s (new # news) (old # olds)) True"
      using "4.IH"(3) asc "4.prems" by (auto intro!: audits_failure_then)
    then show ?thesis using members_break_removed [OF "4.prems"(1) 3] by simp
  qed
qed

section \<open>Whole programs\<close>

definition enum_breaks :: "t_enum \<Rightarrow> t_enum \<Rightarrow> bool" where
  "enum_breaks new old \<longleftrightarrow>
     (\<exists>v \<in> set (enum_constants old). ev_value v \<notin> ev_value ` set (enum_constants new))"

lemma compare_enum_values_audits: "audits (compare_enum_values new old) (enum_breaks new old)"
proof -
  have "audits (compare_enum_values new old)
          (\<exists>v \<in> set (enum_constants old). get_constant_by_value new (ev_value v) = None)"
    unfolding compare_enum_values_def
    by (rule audits_sfor) (auto intro: audits_intros simp: audits_nothing split: option.split)
  moreover have "get_constant_by_value new i = None \<longleftrightarrow> i \<notin> ev_value ` set (enum_constants new)" for i
    by (auto simp: get_constant_by_value_def find_None_iff)
  ultimately show ?thesis by (simp add: enum_breaks_def)
qed

interpretation enum_audit: auditor enum_name missing_enum compare_enum_values "\<lambda>_. True" False enum_breaks
  by unfold_locales (simp_all add: missing_enum_def audits_warning compare_enum_values_audits)

definition ids_ascend :: "t_struct \<Rightarrow> bool" where
  "ids_ascend s \<longleftrightarrow> ascending (members_in_id_order s)"

definition struct_breaks :: "t_struct \<Rightarrow> t_struct \<Rightarrow> bool" where
  "struct_breaks new old \<longleftrightarrow> members_break (members_in_id_order new) (members_in_id_order old)"

lemma compare_single_struct_audits:
  "ids_ascend new \<Longrightarrow> ids_ascend old \<Longrightarrow> audits (compare_single_struct new old s) (struct_breaks new old)"
  unfolding compare_single_struct_def struct_breaks_def ids_ascend_def by (rule compare_members_audits)

interpretation struct_audit:
  auditor struct_name missing_struct "\<lambda>new old. compare_single_struct new old []" ids_ascend True struct_breaks
  by unfold_locales (simp_all add: missing_struct_def audits_failure compare_single_struct_audits)

definition function_ok :: "t_function \<Rightarrow> bool" where
  "function_ok f \<longleftrightarrow> ids_ascend (arglist f) \<and> ids_ascend (xceptions f)"

definition function_breaks :: "t_function \<Rightarrow> t_function \<Rightarrow> bool" where
  "function_breaks new old \<longleftrightarrow>
     is_oneway new \<noteq> is_oneway old \<or> \<not> compare_type (returntype new) (returntype old)
     \<or> struct_breaks (arglist new) (arglist old) \<or> struct_breaks (xceptions new) (xceptions old)"

lemma compare_single_function_audits:
  assumes "function_ok new" "function_ok old"
  shows "audits (compare_single_function new old) (function_breaks new old)"
proof -
  have "audits (compare_single_function new old)
      ((if is_oneway new \<noteq> is_oneway old then True else False)
       \<or> (if \<not> compare_type (returntype new) (returntype old) then True else False)
       \<or> struct_breaks (arglist new) (arglist old) \<or> struct_breaks (xceptions new) (xceptions old))"
    unfolding compare_single_function_def
    by (intro audits_intros compare_single_struct_audits) (use assms in \<open>auto simp: function_ok_def\<close>)
  then show ?thesis by (rule audits_cong) (auto simp: function_breaks_def)
qed

interpretation function_audit:
  auditor fun_name missing_function compare_single_function function_ok True function_breaks
  by unfold_locales (simp_all add: missing_function_def audits_failure compare_single_function_audits)

definition service_ok :: "t_service \<Rightarrow> bool" where
  "service_ok s \<longleftrightarrow> (\<forall>f \<in> set (svc_functions s). function_ok f)"

definition service_breaks :: "t_service \<Rightarrow> t_service \<Rightarrow> bool" where
  "service_breaks new old \<longleftrightarrow>
     extends old \<noteq> None \<and> extends new \<noteq> extends old
     \<or> (\<exists>f \<in> set (svc_functions old).
          entry_broken fun_name True function_breaks (svc_functions new) f)"

lemma compare_single_service_audits:
  assumes "service_ok new" "service_ok old"
  shows "audits (compare_single_service new old) (service_breaks new old)"
proof -
  have inherit: "audits (case (extends old, extends new) of
              (None, _) \<Rightarrow> sret ()
            | (Some a, None) \<Rightarrow> thrift_audit_failure m
            | (Some a, Some b) \<Rightarrow> if b \<noteq> a then thrift_audit_failure m else sret ())
          (extends old \<noteq> None \<and> extends new \<noteq> extends old)" for m
    by (auto simp: audits_failure audits_ret simp del: sret_apply split: option.split)
  have funs: "audits (compare_functions (svc_functions new) (svc_functions old))
      (\<exists>f \<in> set (svc_functions old). entry_broken fun_name True function_breaks (svc_functions new) f)"
    unfolding compare_functions_def
    by (rule function_audit.by_name_audits) (use assms in \<open>auto simp: service_ok_def\<close>)
  show ?thesis
    unfolding compare_single_service_def service_breaks_def by (rule audits_bind [OF inherit funs])
qed

interpretation service_audit:
  auditor svc_name missing_service compare_single_service service_ok True service_breaks
  by unfold_locales (simp_all add: missing_service_def audits_failure compare_single_service_audits)

lemma compare_single_const_audits: "audits (compare_single_const new old) False"
  unfolding compare_single_const_def by (simp add: audits_warning audits_ret del: sret_apply)

interpretation const_audit:
  auditor const_name missing_const compare_single_const "\<lambda>_. True" False "\<lambda>_ _. False"
  by unfold_locales (simp_all add: missing_const_def audits_warning compare_single_const_audits)

definition auditable :: "t_program \<Rightarrow> bool" where
  "auditable p \<longleftrightarrow>
     (\<forall>s \<in> set (structs p) \<union> set (prog_xceptions p). ids_ascend s) \<and> (\<forall>s \<in> set (services p). service_ok s)"

definition program_breaks :: "t_program \<Rightarrow> t_program \<Rightarrow> bool" where
  "program_breaks new old \<longleftrightarrow>
     (\<exists>s \<in> set (services old). entry_broken svc_name True service_breaks (services new) s)
     \<or> (\<exists>e \<in> set (enums old). entry_broken enum_name False enum_breaks (enums new) e)
     \<or> (\<exists>s \<in> set (structs old). entry_broken struct_name True struct_breaks (structs new) s)
     \<or> (\<exists>s \<in> set (prog_xceptions old). entry_broken struct_name True struct_breaks (prog_xceptions new) s)"

lemma compare_namespace_audits: "audits (compare_namespace new old) False"
proof -
  have "audits (compare_namespace new old) (\<exists>x \<in> set (namespaces old). False)"
    unfolding compare_namespace_def
    by (rule audits_sfor) (auto simp: audits_warning audits_ret simp del: sret_apply split: option.split)
  then show ?thesis by simp
qed

lemma compare_consts_audits: "audits (compare_consts new old) False"
  using const_audit.by_name_audits [of new old]
  by (simp add: compare_consts_def entry_broken_def option.case_eq_if)

lemma compare_programs_audits:
  assumes "auditable new" "auditable old"
  shows "audits (compare_programs new old) (program_breaks new old)"
proof -
  have "audits (compare_programs new old)
     (False
     \<or> (\<exists>s \<in> set (services old). entry_broken svc_name True service_breaks (services new) s)
     \<or> (\<exists>e \<in> set (enums old). entry_broken enum_name False enum_breaks (enums new) e)
     \<or> (\<exists>s \<in> set (structs old). entry_broken struct_name True struct_breaks (structs new) s)
     \<or> (\<exists>s \<in> set (prog_xceptions old). entry_broken struct_name True struct_breaks (prog_xceptions new) s)
     \<or> False)"
    unfolding compare_programs_def compare_services_def compare_enums_def compare_structs_def
    by (intro audits_bind compare_namespace_audits compare_consts_audits service_audit.by_name_audits
        enum_audit.by_name_audits struct_audit.by_name_audits)
       (use assms in \<open>auto simp: auditable_def\<close>)
  then show ?thesis by (simp add: program_breaks_def)
qed

text \<open>C7: The audit latches the failure exit exactly for the breaking changes: an old service,
function, struct, exception or enum value that is gone, a changed base service, return type or
oneway flag, and a struct, argument list or throws list with a field removed, added in the middle,
added as required, or changed in its type or requiredness. It stops at none of them, and nothing
else in the compiler's state changes but what is printed.\<close>

theorem audit_fails_iff:
  assumes "auditable new" "auditable old"
  shows "\<exists>out. compare_programs new old g =
     (Inr (), g\<lparr>printed := printed g @ out,
                g_return_failure := g_return_failure g \<or> program_breaks new old\<rparr>)"
  using compare_programs_audits [OF assms] by (simp add: audits_def)

section \<open>A program against itself\<close>

text \<open>Types the grammar builds: everything but a container has a name.\<close>

fun well_named :: "t_type \<Rightarrow> bool" where
  "well_named (t_list e) = well_named e"
| "well_named (t_set e) = well_named e"
| "well_named (t_map k v) = (well_named k \<and> well_named v)"
| "well_named t = (get_name t \<noteq> [])"

lemma compare_type_refl: "well_named t \<Longrightarrow> compare_type t t"
  by (induction t rule: well_named.induct) (subst compare_type.simps; simp)+

definition fields_named :: "t_struct \<Rightarrow> bool" where
  "fields_named s \<longleftrightarrow> (\<forall>f \<in> set (members_in_id_order s). well_named (field_type f))"

lemma struct_unchanged: "ids_ascend s \<Longrightarrow> fields_named s \<Longrightarrow> \<not> struct_breaks s s"
proof -
  assume "ids_ascend s" "fields_named s"
  moreover have "f = h" if "f \<in> set fs" "h \<in> set fs" "field_key f = field_key h" "ascending fs" for f h fs
    using that by (metis ascending_def distinct_map inj_onD strict_sorted_iff)
  ultimately show ?thesis
    unfolding struct_breaks_def members_break_def ids_ascend_def fields_named_def field_breaks_def
    by (metis compare_type_refl imageI)
qed

definition function_named :: "t_function \<Rightarrow> bool" where
  "function_named f \<longleftrightarrow>
     well_named (returntype f) \<and> fields_named (arglist f) \<and> fields_named (xceptions f)"

lemma function_unchanged: "function_ok f \<Longrightarrow> function_named f \<Longrightarrow> \<not> function_breaks f f"
  by (simp add: function_breaks_def function_ok_def function_named_def struct_unchanged compare_type_refl)

definition service_named :: "t_service \<Rightarrow> bool" where
  "service_named s \<longleftrightarrow> distinct (map fun_name (svc_functions s)) \<and> (\<forall>f \<in> set (svc_functions s). function_named f)"

lemma service_unchanged: "service_ok s \<Longrightarrow> service_named s \<Longrightarrow> \<not> service_breaks s s"
  unfolding service_breaks_def service_ok_def service_named_def
  using function_audit.unbroken_self [of "svc_functions s"] function_unchanged by blast

definition uniquely_named :: "t_program \<Rightarrow> bool" where
  "uniquely_named p \<longleftrightarrow>
     distinct (map struct_name (structs p)) \<and> distinct (map struct_name (prog_xceptions p))
     \<and> distinct (map enum_name (enums p)) \<and> distinct (map svc_name (services p))
     \<and> (\<forall>s \<in> set (structs p) \<union> set (prog_xceptions p). fields_named s)
     \<and> (\<forall>s \<in> set (services p). service_named s)"

text \<open>A program audited against itself is clean: with unique names and named types no failure is
latched.\<close>

lemma self_audit_clean:
  assumes ok: "auditable p" and named: "uniquely_named p"
  shows "\<exists>out. compare_programs p p g = (Inr (), g\<lparr>printed := printed g @ out\<rparr>)"
proof -
  have "\<not> program_breaks p p"
    unfolding program_breaks_def
    using ok named service_audit.unbroken_self [of "services p"] service_unchanged
      enum_audit.unbroken_self [of "enums p"]
      struct_audit.unbroken_self [of "structs p"] struct_audit.unbroken_self [of "prog_xceptions p"]
      struct_unchanged
    by (auto simp: auditable_def uniquely_named_def enum_breaks_def)
  then have "audits (compare_programs p p) False"
    using compare_programs_audits [OF ok ok] by simp
  then show ?thesis by (simp add: audits_def)
qed

text \<open>C34: Adding an optional field with a new highest id is the safe change of a struct: the audit
reports no failure for it, and it reports one for every other place of the id and for a required
field.\<close>

theorem field_addition_iff:
  assumes old: "ids_ascend s" "fields_named s" and new: "ids_ascend t"
    and added: "set (members_in_id_order t) = insert f (set (members_in_id_order s))"
      "field_key f \<notin> field_key ` set (members_in_id_order s)"
  shows "\<exists>out. compare_single_struct t s name g =
      (Inr (), g\<lparr>printed := printed g @ out, g_return_failure := g_return_failure g
         \<or> field_req f = T_REQUIRED \<or> (\<exists>h \<in> set (members_in_id_order s). field_key f < field_key h)\<rparr>)"
proof -
  have "\<not> struct_breaks s s" using struct_unchanged [OF old] .
  then have "struct_breaks t s \<longleftrightarrow>
      field_req f = T_REQUIRED \<or> (\<exists>h \<in> set (members_in_id_order s). field_key f < field_key h)"
    using added unfolding struct_breaks_def members_break_def by auto
  then show ?thesis
    using compare_single_struct_audits [OF new old(1), of name] by (simp add: audits_def)
qed

text \<open>A typedef is compared by its name alone, so a change of the type it stands for goes
unnoticed in every field that uses it, while a typedef introduced for the same type is reported.\<close>

lemma typedef_target_unnoticed:
  "n \<noteq> [] \<Longrightarrow> compare_type (t_typedef p n t) (t_typedef q n t')
     \<and> (get_name u \<noteq> n \<longrightarrow> \<not> compare_type (t_typedef p n (Some u)) u)"
  by (simp add: compare_type.simps)

section \<open>Witnesses\<close>

definition audit_field :: "int \<Rightarrow> e_req \<Rightarrow> t_field" where
  "audit_field key req =
     t_field (t_base_type ''i32'' TYPE_I32 False False) (''f'' @ show_int key) key req None [] None"

definition audit_struct :: "t_field list \<Rightarrow> t_struct" where
  "audit_struct fs = t_struct ''/p.thrift'' ''Point'' fs fs False False False 0 [] None"

definition audit_program :: "t_field list \<Rightarrow> t_program" where
  "audit_program fs = (new_program ''/p.thrift'')\<lparr>structs := [audit_struct fs]\<rparr>"

lemmas audit_samples = audit_field_def audit_struct_def audit_program_def new_program_def
  auditable_def ids_ascend_def ascending_def uniquely_named_def fields_named_def

theorem audit_fails_iff_witness:
  "\<exists>out. compare_programs (audit_program [audit_field 1 T_REQUIRED])
        (audit_program [audit_field 1 T_REQUIRED, audit_field 2 T_OPTIONAL]) initial_globals =
     (Inr (), initial_globals\<lparr>printed := printed initial_globals @ out,
        g_return_failure := g_return_failure initial_globals
          \<or> program_breaks (audit_program [audit_field 1 T_REQUIRED])
              (audit_program [audit_field 1 T_REQUIRED, audit_field 2 T_OPTIONAL])\<rparr>)"
  by (rule audit_fails_iff) (simp_all add: audit_samples)

theorem field_addition_iff_witness:
  "\<exists>out. compare_single_struct (audit_struct [audit_field 1 T_REQUIRED, audit_field 2 T_OPTIONAL])
        (audit_struct [audit_field 1 T_REQUIRED]) [] initial_globals =
      (Inr (), initial_globals\<lparr>printed := printed initial_globals @ out,
         g_return_failure := g_return_failure initial_globals
           \<or> field_req (audit_field 2 T_OPTIONAL) = T_REQUIRED
           \<or> (\<exists>h \<in> set (members_in_id_order (audit_struct [audit_field 1 T_REQUIRED])).
                field_key (audit_field 2 T_OPTIONAL) < field_key h)\<rparr>)"
  by (rule field_addition_iff) (auto simp: audit_samples)

end
