(* ===== verification/ProgramProps.thy ===== *)
theory ProgramProps
  imports ThriftProgram
begin

text \<open>
  Correctness of the file names, namespaces and type name tests of programs.
\<close>

section \<open>Computations with a known result\<close>

text \<open>\<open>gives m x\<close>: whatever was logged before, \<open>m\<close> returns \<open>x\<close>.\<close>

definition gives :: "('s, 'e, 'a) sexn \<Rightarrow> 'a \<Rightarrow> bool" where
  "gives m x \<longleftrightarrow> (\<forall>s. \<exists>t. m s = (Inr x, t))"

named_theorems gives_intros

lemma gives_sret [gives_intros]: "gives (sret x) x"
  by (simp add: gives_def)

lemma gives_warning [gives_intros]: "gives (pwarning l m) ()"
  by (simp add: gives_def pwarning_def)

lemma gives_bind [gives_intros]: "gives m x \<Longrightarrow> gives (f x) y \<Longrightarrow> gives (sbind m f) y"
  unfolding gives_def by (metis sbind_returns)

lemma gives_if [gives_intros]:
  "(c \<Longrightarrow> gives m x) \<Longrightarrow> (\<not> c \<Longrightarrow> gives n y) \<Longrightarrow> gives (if c then m else n) (if c then x else y)"
  by simp

lemma gives_unit_if: "gives m () \<Longrightarrow> gives n () \<Longrightarrow> gives (if c then m else n) ()"
  by simp

lemma gives_unit: "gives (sret ()) ()"
  by (rule gives_sret)

lemma gives_unit_bind: "gives m () \<Longrightarrow> gives (f ()) () \<Longrightarrow> gives (sbind m f) ()"
  by (rule gives_bind)

lemma gives_fst: "gives m x \<Longrightarrow> fst (m s) = Inr x"
  unfolding gives_def by (metis fst_conv)

lemma gives_sfold:
  assumes step: "\<And>x b. gives (f x b) (g x b)"
  shows "gives (sfold f xs b) (foldl (\<lambda>b x. g x b) b xs)"
proof (induction xs arbitrary: b)
  case Nil
  show ?case by (simp add: gives_def)
next
  case (Cons x xs)
  show ?case using gives_bind [OF step Cons.IH] by simp
qed

section \<open>Unique type names\<close>

definition namespaces_agree :: "t_program \<Rightarrow> t_program \<Rightarrow> bool" where
  "namespaces_agree p q \<longleftrightarrow> (\<forall>(scope, ns) \<in> set (namespaces p). ns = get_namespace q scope)"

text \<open>Names declared in both programs end up in one generated namespace for certain.\<close>

definition shared_namespace :: "t_program \<Rightarrow> t_program \<Rightarrow> bool" where
  "shared_namespace p q \<longleftrightarrow> same_program p q \<or> namespaces_agree p q \<and> namespaces_agree q p"

definition refers_to :: "type_ref \<Rightarrow> t_program \<Rightarrow> collection \<Rightarrow> nat \<Rightarrow> bool" where
  "refers_to t p coll i \<longleftrightarrow> same_program p (ref_owner t) \<and> ref_collection t = coll \<and> ref_position t = i"

lemma foldl_conj: "foldl (\<lambda>b x. if P x then b else False) b xs \<longleftrightarrow> b \<and> (\<forall>x \<in> set xs. P x)"
  by (induction xs arbitrary: b) auto

lemma namespaces_match_gives:
  "gives (namespaces_match n owner prog p q b) (b \<and> namespaces_agree p q)"
proof -
  let ?P = "\<lambda>x. snd x = get_namespace q (fst x)"
  have "gives (namespaces_match n owner prog p q b)
          (foldl (\<lambda>b x. if ?P x then b else False) b (namespaces p))"
    unfolding namespaces_match_def
    by (rule gives_sfold) (auto intro!: gives_intros gives_if)
  moreover have "foldl (\<lambda>b x. if ?P x then b else False) b (namespaces p) \<longleftrightarrow> b \<and> namespaces_agree p q"
    unfolding foldl_conj namespaces_agree_def by auto
  ultimately show ?thesis by simp
qed

lemma is_common_namespace_gives:
  "gives (is_common_namespace prog t) (shared_namespace prog (ref_owner t))"
proof (cases "same_program prog (ref_owner t)")
  case True
  then show ?thesis
    unfolding is_common_namespace_def by (auto simp: shared_namespace_def intro!: gives_intros)
next
  case False
  have "gives (is_common_namespace prog t)
          ((True \<and> namespaces_agree prog (ref_owner t)) \<and> namespaces_agree (ref_owner t) prog)"
    unfolding is_common_namespace_def Let_def if_not_P [OF False]
    by (rule gives_bind [OF namespaces_match_gives])+
       (rule gives_bind [OF gives_unit_if [OF gives_warning gives_sret] gives_sret])
  then show ?thesis using False by (simp add: shared_namespace_def)
qed

definition clashes :: "t_program \<Rightarrow> collection \<Rightarrow> type_ref \<Rightarrow> nat \<Rightarrow> bool" where
  "clashes p coll t i \<longleftrightarrow>
     i < length (collection_names p coll) \<and> collection_names p coll ! i = ref_name t
     \<and> \<not> refers_to t p coll i \<and> shared_namespace p (ref_owner t)"

lemma foldl_count: "foldl (\<lambda>n x. if P x then n + 1 else n) n xs = n + length (filter P xs)" for n :: nat
  by (induction xs arbitrary: n) auto

lemma collection_typename_count_gives:
  "\<exists>n. gives (collection_typename_count p coll t) n \<and> (n = 0 \<longleftrightarrow> (\<forall>i. \<not> clashes p coll t i))"
proof -
  let ?names = "collection_names p coll"
  let ?P = "\<lambda>x. \<not> refers_to t p coll (fst x) \<and> ref_name t = snd x \<and> shared_namespace p (ref_owner t)"
  let ?hits = "filter ?P (enumerate 0 ?names)"
  have "gives (collection_typename_count p coll t)
          (foldl (\<lambda>n x. if ?P x then n + 1 else n) 0 (enumerate 0 ?names))"
    unfolding collection_typename_count_def refers_to_def
    by (rule gives_sfold)
       (auto intro!: gives_intros gives_bind [OF is_common_namespace_gives])
  then have "gives (collection_typename_count p coll t) (length ?hits)"
    by (simp only: foldl_count add_0_left)
  moreover have "length ?hits = 0 \<longleftrightarrow> (\<forall>i. \<not> clashes p coll t i)"
  proof -
    have mem: "(a, b) \<in> set (enumerate 0 ?names) \<longleftrightarrow> a < length ?names \<and> b = ?names ! a" for a b
      by (auto simp: in_set_enumerate_eq)
    have "?hits = [] \<longleftrightarrow> (\<forall>a b. (a, b) \<in> set (enumerate 0 ?names) \<longrightarrow> \<not> ?P (a, b))"
      unfolding filter_empty_conv by auto
    then have "?hits = [] \<longleftrightarrow> (\<forall>i. \<not> (i < length ?names \<and> ?P (i, ?names ! i)))"
      unfolding mem by blast
    then show ?thesis unfolding length_0_conv clashes_def by (simp only: fst_conv snd_conv) metis
  qed
  ultimately show ?thesis by blast
qed

lemma all_collection: "(\<forall>c. Q c) \<longleftrightarrow> Q Typedefs \<and> Q Enums \<and> Q Objects \<and> Q Services"
proof
  assume four: "Q Typedefs \<and> Q Enums \<and> Q Objects \<and> Q Services"
  show "\<forall>c. Q c"
  proof
    fix c show "Q c" using four by (cases c) auto
  qed
qed auto

lemma program_typename_count_gives:
  "\<exists>n. gives (program_typename_count p t) n \<and> (n = 0 \<longleftrightarrow> (\<forall>coll i. \<not> clashes p coll t i))"
proof -
  have "\<forall>coll. \<exists>n. gives (collection_typename_count p coll t) n \<and> (n = 0 \<longleftrightarrow> (\<forall>i. \<not> clashes p coll t i))"
    using collection_typename_count_gives by blast
  then obtain n where counts: "gives (collection_typename_count p coll t) (n coll)"
    and zero: "n coll = 0 \<longleftrightarrow> (\<forall>i. \<not> clashes p coll t i)" for coll
    unfolding choice_iff by blast
  have "gives (program_typename_count p t) (n Typedefs + n Enums + n Objects + n Services)"
    unfolding program_typename_count_def
    by (rule gives_bind, rule counts, rule gives_bind, rule counts, rule gives_bind, rule counts,
        rule gives_bind, rule counts, rule gives_sret)
  moreover have "n Typedefs + n Enums + n Objects + n Services = 0 \<longleftrightarrow> (\<forall>coll. n coll = 0)"
    unfolding all_collection [of "\<lambda>coll. n coll = 0"] by auto
  moreover have "(\<forall>coll. n coll = 0) \<longleftrightarrow> (\<forall>coll i. \<not> clashes p coll t i)"
    unfolding zero ..
  ultimately show ?thesis by (intro exI conjI) (assumption, simp)
qed

lemma includes_count_gives:
  "\<exists>n. gives (sfold (\<lambda>inc n. sbind (program_typename_count (the_program inc) t) (\<lambda>m. sret (n + m))) incs k) n
     \<and> (n = 0 \<longleftrightarrow> k = 0 \<and> (\<forall>inc \<in> set incs. \<forall>coll i. \<not> clashes (the_program inc) coll t i))"
proof (induction incs arbitrary: k)
  case Nil
  show ?case by (auto simp: gives_def)
next
  case (Cons inc incs)
  obtain m where m: "gives (program_typename_count (the_program inc) t) m"
      "m = 0 \<longleftrightarrow> (\<forall>coll i. \<not> clashes (the_program inc) coll t i)"
    using program_typename_count_gives by metis
  obtain n where n:
      "gives (sfold (\<lambda>inc n. sbind (program_typename_count (the_program inc) t) (\<lambda>m. sret (n + m))) incs (k + m)) n"
      "n = 0 \<longleftrightarrow> k + m = 0 \<and> (\<forall>inc \<in> set incs. \<forall>coll i. \<not> clashes (the_program inc) coll t i)"
    using Cons.IH by metis
  have "gives (sfold (\<lambda>inc n. sbind (program_typename_count (the_program inc) t) (\<lambda>m. sret (n + m))) (inc # incs) k) n"
    unfolding sfold.simps
    by (rule gives_bind [where x = "k + m"], rule gives_bind [OF m(1)], rule gives_sret, rule n(1))
  moreover have "n = 0 \<longleftrightarrow> k = 0 \<and> (\<forall>inc \<in> set (inc # incs). \<forall>coll i. \<not> clashes (the_program inc) coll t i)"
    using m(2) n(2) by auto
  ultimately show ?case by blast
qed

lemma unique_typename_result:
  "fst (is_unique_typename p t w) =
     Inr (\<not> (\<exists>q coll i. (q = the_program p \<or> q \<in> the_program ` set (get_includes p)) \<and> clashes q coll t i))"
proof -
  obtain m where m: "gives (program_typename_count (the_program p) t) m"
      "m = 0 \<longleftrightarrow> (\<forall>coll i. \<not> clashes (the_program p) coll t i)"
    using program_typename_count_gives by metis
  obtain n where n:
      "gives (sfold (\<lambda>inc n. sbind (program_typename_count (the_program inc) t) (\<lambda>m. sret (n + m)))
         (get_includes p) m) n"
      "n = 0 \<longleftrightarrow> m = 0 \<and> (\<forall>inc \<in> set (get_includes p). \<forall>coll i. \<not> clashes (the_program inc) coll t i)"
    using includes_count_gives by metis
  have "gives (is_unique_typename p t) (n = 0)"
    unfolding is_unique_typename_def
    by (rule gives_bind [OF m(1)], rule gives_bind [OF n(1)], rule gives_sret)
  moreover have "n = 0 \<longleftrightarrow>
      \<not> (\<exists>q coll i. (q = the_program p \<or> q \<in> the_program ` set (get_includes p)) \<and> clashes q coll t i)"
    unfolding n(2) m(2) by blast
  ultimately show ?thesis by (simp add: gives_fst)
qed

text \<open>C28: \<^verbatim>\<open>is_unique_typename\<close> accepts a type name exactly when no other typedef, enum,
struct, exception or service of the program, or of a directly included program that agrees with it
on every declared namespace, has the name.\<close>

theorem is_unique_typename_iff:
  "fst (is_unique_typename p t w) =
     Inr (\<not> (\<exists>q coll i. (q = the_program p \<or> q \<in> the_program ` set (get_includes p)) \<and> clashes q coll t i))"
  by (rule unique_typename_result)

section \<open>Namespaces\<close>

text \<open>Declaring a namespace for a language is what later lookups return for that language, the
declaration for \<open>*\<close> serves every language without one of its own, and the other languages keep
theirs; a sub-namespace the generator does not know only warns.\<close>

lemma set_get_namespace:
  assumes ok: "omap_ok (namespaces p)"
  shows "\<exists>w' p'. set_namespace gens lang ns p w = (Inr p', w') \<and> omap_ok (namespaces p')
     \<and> (\<forall>l. get_namespace p' l =
          (if l = lang then ns
           else if omap_find (namespaces p) l \<noteq> None then get_namespace p l
           else if lang = ''*'' then ns
           else get_namespace p l))"
proof -
  let ?p = "p\<lparr>namespaces := omap_insert lang ns (namespaces p)\<rparr>"
  have ret: "gives (set_namespace gens lang ns p) ?p"
    unfolding set_namespace_def Let_def
    by (rule gives_bind [OF _ gives_sret], rule gives_unit_if)
       (auto intro!: gives_unit_bind gives_warning simp: gives_unit split: option.split)
  have "get_namespace ?p l =
          (if l = lang then ns
           else if omap_find (namespaces p) l \<noteq> None then get_namespace p l
           else if lang = ''*'' then ns
           else get_namespace p l)" for l
    using ok by (auto simp: get_namespace_def omap_insert_find split: option.split)
  then show ?thesis
    using ret [unfolded gives_def, rule_format, of w] ok by (auto simp: omap_insert_ok)
qed

end
