(* ===== verification/StructProps.thy ===== *)
theory StructProps
  imports ParseTypes
begin

text \<open>
  The member tables of a struct (\<^verbatim>\<open>parse/t_struct.h\<close>): both vectors hold the same
  fields, the second in the order of the ids, and no two fields share an id or a name.
\<close>

definition struct_ok :: "t_struct \<Rightarrow> bool" where
  "struct_ok s \<longleftrightarrow>
     sorted_wrt (<) (map field_key (members_in_id_order s)) \<and>
     distinct (map field_name (members_in_id_order s)) \<and>
     distinct (map field_key (members s)) \<and> set (members s) = set (members_in_id_order s)"

lemma new_struct_ok: "struct_ok (new_struct p n)"
  by (simp add: struct_ok_def new_struct_def)

lemma with_req_keeps [simp]:
  "field_key (with_req r f) = field_key f" "field_name (with_req r f) = field_name f"
  "field_default (with_req r f) = field_default f" "field_type (with_req r f) = field_type f"
  "field_req (with_req r f) = r"
  by (simp_all add: with_req_def)

lemma map_req_keeps:
  "map field_key (map (\<lambda>f. if field_key f = k then with_req r f else f) fs) = map field_key fs"
  "map field_name (map (\<lambda>f. if field_key f = k then with_req r f else f) fs) = map field_name fs"
  by (induction fs) auto

lemma update_field_ok: "struct_ok s \<Longrightarrow> struct_ok (update_field (with_req r) k s)"
  by (simp add: struct_ok_def update_field_def Let_def map_req_keeps del: map_map)

lemma update_field_tables [simp]:
  "map field_key (members_in_id_order (update_field (with_req r) k s)) = map field_key (members_in_id_order s)"
  "map field_name (members_in_id_order (update_field (with_req r) k s)) = map field_name (members_in_id_order s)"
  by (simp_all add: update_field_def Let_def map_req_keeps del: map_map)

lemma with_members_with_value_ok [simp]:
  "struct_ok (with_members_with_value n s) = struct_ok s"
  "members_in_id_order (with_members_with_value n s) = members_in_id_order s"
  by (simp_all add: struct_ok_def with_members_with_value_def)

lemma validate_union_member_keeps:
  assumes "validate_union_member f s ws = (Inr s', ws')"
  shows "struct_ok s \<Longrightarrow> struct_ok s'"
    and "map field_key (members_in_id_order s') = map field_key (members_in_id_order s)"
    and "map field_name (members_in_id_order s') = map field_name (members_in_id_order s)"
  using assms
  by (auto simp: validate_union_member_def Let_def sbind_eq_Inr pwarning_def update_field_ok split: if_splits)

text \<open>The position \<^verbatim>\<open>equal_range\<close> gives in a sorted vector.\<close>

lemma sorted_split:
  assumes "sorted_wrt (<) (map field_key fs)"
  shows "takeWhile (\<lambda>f. field_key f < k) fs = filter (\<lambda>f. field_key f < k) fs"
    and "takeWhile (\<lambda>f. \<not> k < field_key f) fs = filter (\<lambda>f. \<not> k < field_key f) fs"
    and "dropWhile (\<lambda>f. \<not> k < field_key f) fs = filter (\<lambda>f. k < field_key f) fs"
  using assms
proof (induction fs)
  case (Cons f fs)
  {
    case 1
    then show ?case using Cons.IH(1) by (auto intro!: filter_False [symmetric] simp: filter_empty_conv)
  next
    case 2
    then show ?case using Cons.IH(2) by (auto intro!: filter_False [symmetric] simp: filter_empty_conv)
  next
    case 3
    then show ?case using Cons.IH(3) by (auto intro!: filter_True [symmetric])
  }
qed simp_all

lemma equal_range_gap:
  assumes "sorted_wrt (<) (map field_key fs)" and "equal_range fs k = (a, b)"
  shows "a = b \<longleftrightarrow> k \<notin> field_key ` set fs"
    and "take b fs = filter (\<lambda>f. \<not> k < field_key f) fs" and "drop b fs = filter (\<lambda>f. k < field_key f) fs"
proof -
  have a: "a = length (filter (\<lambda>f. field_key f < k) fs)" and b: "b = length (filter (\<lambda>f. \<not> k < field_key f) fs)"
    using assms(2) sorted_split [OF assms(1)] by (auto simp: equal_range_def)
  have "length (filter (\<lambda>f. \<not> k < field_key f) fs) =
      length (filter (\<lambda>f. field_key f < k) fs) + length (filter (\<lambda>f. field_key f = k) fs)"
    by (induction fs) auto
  then show "a = b \<longleftrightarrow> k \<notin> field_key ` set fs"
    using a b by (auto simp: filter_empty_conv)
  have "take b fs = takeWhile (\<lambda>f. \<not> k < field_key f) fs" and "drop b fs = dropWhile (\<lambda>f. \<not> k < field_key f) fs"
    using assms(2) by (auto simp: equal_range_def takeWhile_eq_take [symmetric] dropWhile_eq_drop [symmetric])
  then show "take b fs = filter (\<lambda>f. \<not> k < field_key f) fs" and "drop b fs = filter (\<lambda>f. k < field_key f) fs"
    using sorted_split [OF assms(1)] by simp_all
qed

lemma filter_sorted_around:
  assumes "sorted_wrt (<) (map field_key fs)" and "field_key e \<notin> field_key ` set fs"
  shows "sorted_wrt (<) (map field_key
    (filter (\<lambda>f. \<not> field_key e < field_key f) fs @ e # filter (\<lambda>f. field_key e < field_key f) fs))"
proof -
  have sub: "sorted_wrt (<) (map field_key (filter p fs))" for p
    using assms(1) by (induction fs) auto
  have "field_key f < field_key e" if "f \<in> set fs" "\<not> field_key e < field_key f" for f
    using that assms(2) by (metis image_eqI linorder_neqE)
  then show ?thesis
    using sub by (auto simp: sorted_wrt_append)
qed

lemma distinct_around:
  assumes "distinct (map g fs)" and "g e \<notin> g ` set fs"
  shows "distinct (map g (filter p fs @ e # filter (\<lambda>x. \<not> p x) fs))"
  using assms by (auto simp: distinct_map inj_on_def)

lemma get_field_by_name_None: "get_field_by_name s n = None \<longleftrightarrow> n \<notin> field_name ` set (members_in_id_order s)"
  by (auto simp: get_field_by_name_def find_None_iff)

lemma insort_around:
  assumes "sorted_wrt (<) (map field_key fs)"
  shows "map field_key (filter (\<lambda>f. \<not> k < field_key f) fs) @ k # map field_key (filter (\<lambda>f. k < field_key f) fs) =
    insort k (map field_key fs)"
  using assms
proof (induction fs)
  case (Cons f fs)
  show ?case
  proof (cases "k < field_key f")
    case True
    then have "filter (\<lambda>f. \<not> k < field_key f) fs = []" "filter (\<lambda>f. k < field_key f) fs = fs"
      using Cons.prems by (auto simp: filter_empty_conv filter_id_conv)
    then show ?thesis using True by simp
  next
    case False
    show ?thesis
    proof (cases "k = field_key f")
      case True
      then have "filter (\<lambda>f. \<not> k < field_key f) fs = []" "filter (\<lambda>f. k < field_key f) fs = fs"
        using Cons.prems by (auto simp: filter_empty_conv filter_id_conv)
      then show ?thesis using True by simp
    next
      case ne: False
      then show ?thesis using False Cons by (auto simp: not_less)
    qed
  qed
qed simp

text \<open>The struct with the new member in both tables, before its validation as a union member.\<close>

definition with_member :: "t_field \<Rightarrow> t_struct \<Rightarrow> t_struct" where
  "with_member elem s =
     t_struct (struct_program s) (struct_name s) (members s @ [elem])
       (filter (\<lambda>f. \<not> field_key elem < field_key f) (members_in_id_order s) @
        elem # filter (\<lambda>f. field_key elem < field_key f) (members_in_id_order s))
       (is_xception_flag s) (is_union s) (members_validated s) (members_with_value s)
       (struct_annotations s) (struct_doc s)"

lemma with_member_ok:
  assumes "struct_ok s" and "field_key f \<notin> field_key ` set (members_in_id_order s)"
    and "field_name f \<notin> field_name ` set (members_in_id_order s)"
  shows "struct_ok (with_member f s)"
  using assms filter_sorted_around [of "members_in_id_order s" f]
    distinct_around [of field_name "members_in_id_order s" f "\<lambda>g. \<not> field_key f < field_key g"]
  by (auto simp: struct_ok_def with_member_def)

lemma struct_append_cases:
  assumes "struct_ok s"
  shows "struct_append f s =
    (if field_key f \<in> field_key ` set (members s) \<or> field_name f \<in> field_name ` set (members s)
     then sret (False, s)
     else sbind (validate_union_member f (with_member f s)) (\<lambda>s'. sret (True, s')))"
proof -
  have sorted: "sorted_wrt (<) (map field_key (members_in_id_order s))"
    and same: "set (members s) = set (members_in_id_order s)"
    using assms by (simp_all add: struct_ok_def)
  obtain a b where ab: "equal_range (members_in_id_order s) (field_key f) = (a, b)" by fastforce
  show ?thesis
    using equal_range_gap [OF sorted ab]
    by (auto simp: struct_append_def ab same get_field_by_name_None with_member_def simp del: sret_apply)
qed

text \<open>C24: Appending a field to a struct keeps its tables well formed (ids strictly ascending in
  the sorted vector, ids and names unique, both vectors with the same fields); it succeeds
  exactly when neither the id nor the name is taken, and then the sorted vector has the new id in
  its place; otherwise it changes nothing.\<close>

theorem struct_append_correct:
  assumes "struct_ok s" and "struct_append f s ws = (Inr (ok, s'), ws')"
  shows "struct_ok s' \<and>
    (ok \<longleftrightarrow> field_key f \<notin> field_key ` set (members s) \<and> field_name f \<notin> field_name ` set (members s)) \<and>
    (ok \<longrightarrow> map field_key (members_in_id_order s') =
       insort (field_key f) (map field_key (members_in_id_order s))) \<and>
    (\<not> ok \<longrightarrow> s' = s)"
proof (cases "field_key f \<in> field_key ` set (members s) \<or> field_name f \<in> field_name ` set (members s)")
  case True
  then show ?thesis using assms by (auto simp: struct_append_cases)
next
  case False
  then have run: "validate_union_member f (with_member f s) ws = (Inr s', ws')" and ok: ok
    using assms by (auto simp: struct_append_cases sbind_eq_Inr)
  have same: "set (members s) = set (members_in_id_order s)" using assms by (simp add: struct_ok_def)
  then have "struct_ok (with_member f s)" using False assms by (intro with_member_ok) auto
  then have "struct_ok s'" by (rule validate_union_member_keeps(1) [OF run])
  moreover have "map field_key (members_in_id_order s') = insort (field_key f) (map field_key (members_in_id_order s))"
    using validate_union_member_keeps(2) [OF run] insort_around [of "members_in_id_order s" "field_key f"] assms(1)
    by (simp add: with_member_def struct_ok_def)
  ultimately show ?thesis using False ok by simp
qed

definition sample_member :: "string \<Rightarrow> int \<Rightarrow> t_field" where
  "sample_member n k = t_field (t_base_type ''i32'' TYPE_I32 False False) n k T_OPT_IN_REQ_OUT None [] None"

theorem struct_append_correct_witness:
  "struct_ok (snd (case fst (struct_append (sample_member ''a'' 2) (new_struct ''p'' ''S'') []) of
     Inr r \<Rightarrow> r | Inl e \<Rightarrow> (False, new_struct ''p'' ''S'')))"
proof -
  have run: "struct_append (sample_member ''a'' 2) (new_struct ''p'' ''S'') [] =
      (Inr (True, with_member (sample_member ''a'' 2) (new_struct ''p'' ''S'')), [])"
    by (simp add: struct_append_cases new_struct_ok validate_union_member_def sbind_def with_member_def)
       (simp add: new_struct_def)
  show ?thesis using struct_append_correct [OF new_struct_ok run] run by simp
qed

end
