(* ===== verification/WellFormed.thy ===== *)
theory WellFormed
  imports Grammar AuditProps ProgramProps StructProps
begin

text \<open>
  Well-formed programs: their structs, functions and services are well formed, their types have names
  that no other of their definitions has, and their numbers fit their widths; what the audit needs
  follows. The test of the grammar on a new name establishes the uniqueness.
\<close>

section \<open>Well-formed programs\<close>

definition fields_wf :: "t_struct \<Rightarrow> bool" where
  "fields_wf s \<longleftrightarrow> struct_ok s
     \<and> (\<forall>f \<in> set (members_in_id_order s). well_named (field_type f) \<and> in_int32 (field_key f))"

definition function_wf :: "t_function \<Rightarrow> bool" where
  "function_wf f \<longleftrightarrow> well_named (returntype f) \<and> fields_wf (arglist f) \<and> fields_wf (xceptions f)"

definition service_wf :: "t_service \<Rightarrow> bool" where
  "service_wf sv \<longleftrightarrow>
     distinct (map fun_name (svc_functions sv)) \<and> (\<forall>f \<in> set (svc_functions sv). function_wf f)"

definition enum_wf :: "t_enum \<Rightarrow> bool" where
  "enum_wf e \<longleftrightarrow> (\<forall>v \<in> set (enum_constants e). in_int32 (ev_value v))"

definition scope_named :: "t_scope \<Rightarrow> bool" where
  "scope_named sc \<longleftrightarrow> (\<forall>n t. (n, Some t) \<in> set (sc_types sc) \<longrightarrow> well_named t)"

text \<open>No two definitions of types and services share a name.\<close>

definition unique_names :: "(collection \<Rightarrow> string list) \<Rightarrow> bool" where
  "unique_names names \<longleftrightarrow> (\<forall>c d i j.
     i < length (names c) \<and> j < length (names d) \<and> names c ! i = names d ! j \<longrightarrow> c = d \<and> i = j)"

definition parts_wf :: "t_program \<Rightarrow> bool" where
  "parts_wf p \<longleftrightarrow>
     structs p = filter (\<lambda>s. \<not> is_xception_flag s) (objects p)
     \<and> prog_xceptions p = filter is_xception_flag (objects p)
     \<and> (\<forall>s \<in> set (objects p). fields_wf s)
     \<and> (\<forall>sv \<in> set (services p). service_wf sv)
     \<and> (\<forall>e \<in> set (enums p). enum_wf e)
     \<and> scope_named (prog_scope p)"

definition program_wf :: "t_program \<Rightarrow> bool" where
  "program_wf p \<longleftrightarrow> parts_wf p \<and> unique_names (collection_names p)"

text \<open>A program and all that it includes.\<close>

definition tree_wf :: "program \<Rightarrow> bool" where
  "tree_wf p \<longleftrightarrow> (\<forall>q \<in> set (program_tree p). program_wf q)"

lemma tree_wf_node: "tree_wf p \<longleftrightarrow> program_wf (the_program p) \<and> (\<forall>inc \<in> set (get_includes p). tree_wf inc)"
  by (cases p) (auto simp: tree_wf_def)

lemma new_program_wf: "program_wf (new_program path)"
proof -
  have "collection_names (new_program path) c = []" for c
    by (cases c) (simp_all add: new_program_def)
  then show ?thesis
    by (simp add: program_wf_def parts_wf_def unique_names_def scope_named_def, simp add: new_program_def new_scope_def)
qed

lemma unique_distinct: "unique_names names \<Longrightarrow> distinct (names c)"
  by (auto simp: unique_names_def distinct_conv_nth)

lemma fields_wf_audit: "fields_wf s \<Longrightarrow> ids_ascend s \<and> fields_named s"
  by (simp add: fields_wf_def struct_ok_def ids_ascend_def ascending_def fields_named_def)

lemma service_wf_audit: "service_wf sv \<Longrightarrow> service_ok sv \<and> service_named sv"
  by (auto simp: service_wf_def function_wf_def service_ok_def service_named_def function_ok_def
      function_named_def dest: fields_wf_audit)

lemma program_wf_audit:
  assumes "program_wf p"
  shows "auditable p" "uniquely_named p"
proof -
  have parts: "parts_wf p" and names: "unique_names (collection_names p)"
    using assms by (simp_all add: program_wf_def)
  show "auditable p"
    using parts fields_wf_audit service_wf_audit by (auto simp: auditable_def parts_wf_def)
  have "distinct (map struct_name (objects p))" "distinct (map enum_name (enums p))"
    "distinct (map svc_name (services p))"
    using unique_distinct [OF names, of Objects] unique_distinct [OF names, of Enums]
      unique_distinct [OF names, of Services] by simp_all
  then show "uniquely_named p"
    using parts fields_wf_audit service_wf_audit
    by (auto simp: uniquely_named_def parts_wf_def distinct_map_filter)
qed

section \<open>Adding a definition\<close>

definition nearly_unique :: "collection \<Rightarrow> (collection \<Rightarrow> string list) \<Rightarrow> bool" where
  "nearly_unique coll names \<longleftrightarrow> names coll \<noteq> [] \<and> (\<forall>c d i j.
     i < length (names c) \<and> j < length (names d) \<and> names c ! i = names d ! j
     \<and> (c, i) \<noteq> (coll, length (names coll) - 1) \<and> (d, j) \<noteq> (coll, length (names coll) - 1)
       \<longrightarrow> c = d \<and> i = j)"

lemma nearly_unique_snoc:
  assumes u: "unique_names old" and new: "new = old(coll := old coll @ [n])"
  shows "nearly_unique coll new"
proof -
  have "i < length (old c) \<and> new c ! i = old c ! i"
    if "i < length (new c)" "(c, i) \<noteq> (coll, length (new coll) - 1)" for c i
    using that new by (cases "c = coll") (auto simp: nth_append)
  then show ?thesis
    using u new unfolding unique_names_def nearly_unique_def by (metis fun_upd_same snoc_eq_iff_butlast)
qed

lemma unique_by_test:
  assumes nearly: "nearly_unique coll (collection_names (the_program p))"
    and t: "t = \<lparr>ref_owner = the_program p, ref_collection = coll,
      ref_position = length (collection_names (the_program p) coll) - 1\<rparr>"
    and test: "fst (is_unique_typename p t w) = Inr True"
  shows "unique_names (collection_names (the_program p))"
proof -
  let ?names = "collection_names (the_program p)"
  let ?last = "length (?names coll) - 1"
  have clear: "\<not> clashes (the_program p) c t i" for c i
    using test unfolding unique_typename_result by auto
  have new: "(c, i) = (coll, ?last)"
    if "i < length (?names c)" "?names c ! i = ?names coll ! ?last" for c i
    using clear [of c i] that
    by (simp add: clashes_def t ref_name_def refers_to_def same_program_def shared_namespace_def)
  have last: "?last < length (?names coll)" using nearly by (simp add: nearly_unique_def)
  show ?thesis
    unfolding unique_names_def
  proof (intro allI impI, elim conjE)
    fix c d i j
    assume i: "i < length (?names c)" and j: "j < length (?names d)" and same: "?names c ! i = ?names d ! j"
    show "c = d \<and> i = j"
    proof (cases "(c, i) = (coll, ?last) \<or> (d, j) = (coll, ?last)")
      case True
      then show ?thesis using new [OF i] new [OF j] same by auto
    next
      case False
      then show ?thesis using nearly i j same unfolding nearly_unique_def by blast
    qed
  qed
qed

end
