(* ===== verification/ParserInvariant.thy ===== *)
theory ParserInvariant
  imports GrammarProps WellFormed
begin

text \<open>
  The parser keeps programs well formed: a calculus for parsers that keep a good state and return
  under a condition, and the productions of types, constants, fields, structs, enums and services
  in it.
\<close>

section \<open>The table of parsed programs\<close>

text \<open>Nothing that the parser calls touches the table; its scopes are well formed.\<close>

definition keeps_table :: "'a comp \<Rightarrow> bool" where
  "keeps_table m \<longleftrightarrow> (\<forall>g. program_to_scope (snd (m g)) = program_to_scope g)"

definition tables_named :: "globals \<Rightarrow> bool" where
  "tables_named g \<longleftrightarrow> (\<forall>(path, sc) \<in> set (program_to_scope g). scope_named sc)"

named_theorems stable_intro

lemma keeps_table_named: "keeps_table m \<Longrightarrow> m g = (r, g') \<Longrightarrow> tables_named g \<Longrightarrow> tables_named g'"
  unfolding keeps_table_def tables_named_def by (metis snd_conv)

lemma keeps_table_basic [stable_intro]:
  "keeps_table (sret x)" "keeps_table (sraise e)" "keeps_table sget" "keeps_table (slift r)"
  "keeps_table (print_to st msg)"
  by (simp_all add: keeps_table_def)

lemma keeps_table_modify: "(\<And>g. program_to_scope (f g) = program_to_scope g) \<Longrightarrow> keeps_table (modify f)"
  by (simp add: keeps_table_def)

lemma keeps_table_bind [stable_intro]:
  "keeps_table m \<Longrightarrow> (\<And>x. keeps_table (f x)) \<Longrightarrow> keeps_table (sbind m f)"
  by (auto simp: keeps_table_def sbind_def split: prod.split sum.split) (metis snd_conv)+

lemma keeps_table_cases [stable_intro]:
  "keeps_table m \<Longrightarrow> keeps_table n \<Longrightarrow> keeps_table (if c then m else n)"
  "keeps_table m \<Longrightarrow> (\<And>y. keeps_table (f y)) \<Longrightarrow> keeps_table (case x of None \<Rightarrow> m | Some y \<Rightarrow> f y)"
  by (auto split: option.split)

lemma keeps_table_messages [stable_intro]:
  "keeps_table (yyerror msg)" "keeps_table (pdebug msg)" "keeps_table (pverbose msg)"
  "keeps_table (print_warning level msg)" "keeps_table (failure msg)" "keeps_table (fatal msg)"
  unfolding yyerror_def pdebug_def pverbose_def print_warning_def failure_def fatal_def
  by (intro stable_intro)+

lemma keeps_table_print_log [stable_intro]: "keeps_table (print_log m)"
proof -
  have "keeps_table (sfor (\<lambda>(level, msg). print_warning (int level) msg) ws)" for ws :: "(nat \<times> string) list"
    by (induction ws) (auto intro!: stable_intro simp del: sret_apply)
  then show ?thesis
    unfolding keeps_table_def print_log_def Let_def
    by (auto split: prod.split sum.split) (metis snd_conv)+
qed

lemma keeps_table_doctext [stable_intro]:
  "keeps_table clear_doctext" "keeps_table declare_valid_program_doctext" "keeps_table (set_doc d)"
  "keeps_table reset_program_doctext_info" "keeps_table (capture_doctext mode tx)"
  "keeps_table (modify (\<lambda>g. g\<lparr>g_program_doctext_status := st\<rparr>))"
  "keeps_table (sbind sget (\<lambda>g. sbind (sput (g\<lparr>g_doctext := None\<rparr>)) (\<lambda>_. sret (g_doctext g))))"
  unfolding clear_doctext_def declare_valid_program_doctext_def set_doc_def reset_program_doctext_info_def
    capture_doctext_def Let_def
  by (intro stable_intro keeps_table_modify; simp)+ (simp add: keeps_table_def)

lemma keeps_table_lex_return [stable_intro]: "keeps_table (lex_return act tx rest)"
  unfolding lex_return_def lex_literal_def integer_overflow_def unexpected_token_def thrift_reserved_keyword_def
  by (auto intro!: stable_intro keeps_table_modify simp del: sret_apply split: lex_action.split literal_end.split)

lemma keeps_table_yylex [stable_intro]: "keeps_table (yylex mode s)"
proof (induction "length s" arbitrary: s rule: less_induct)
  case less
  show ?case
  proof (cases "s = []")
    case True
    then show ?thesis
      by (auto simp: yylex.simps intro!: stable_intro keeps_table_modify simp del: sret_apply)
  next
    case False
    then obtain n act where best: "best_rule lex_rules s = Some (n, act)" and n: "0 < n"
      using scanner_progress [OF False] by auto
    have "keeps_table (yylex mode (drop n s))" using less n False by simp
    then show ?thesis
      unfolding yylex_step [OF False best n] begin_action_def
      by (intro stable_intro keeps_table_modify) simp
  qed
qed

lemma keeps_table_include_file [stable_intro]: "keeps_table (include_file h name)"
  unfolding include_file_def Let_def
  by (auto intro!: stable_intro simp del: sret_apply split: option.split sum.split)

section \<open>Parsers that keep programs well formed\<close>

text \<open>
  The state of the parser is good with a condition \<open>U\<close> on the names of the program, which is
  uniqueness but for the time between adding a definition and the test on its name.
\<close>

definition good :: "bool \<Rightarrow> ((collection \<Rightarrow> string list) \<Rightarrow> bool) \<Rightarrow> pstate \<Rightarrow> bool" where
  "good hp U s \<longleftrightarrow>
     parts_wf (the_program (ps_program s)) \<and> U (collection_names (the_program (ps_program s)))
     \<and> (\<forall>inc \<in> set (get_includes (ps_program s)). tree_wf inc)
     \<and> (ps_parent s \<noteq> None) = hp \<and> (\<forall>sc. ps_parent s = Some sc \<longrightarrow> scope_named sc)
     \<and> ps_look s \<noteq> Some (tok_identifier [])
     \<and> in_int32 (y_field_val s) \<and> in_int32 (y_enum_val s) \<and> tables_named (ps_globals s)"

definition hoare :: "(pstate \<Rightarrow> bool) \<Rightarrow> 'a parser \<Rightarrow> ('a \<Rightarrow> pstate \<Rightarrow> bool) \<Rightarrow> bool" where
  "hoare P m Q \<longleftrightarrow> (\<forall>s x t. P s \<longrightarrow> m s = (Inr x, t) \<longrightarrow> Q x t)"

definition yields :: "bool \<Rightarrow> ((collection \<Rightarrow> string list) \<Rightarrow> bool) \<Rightarrow> 'a parser \<Rightarrow> ('a \<Rightarrow> bool) \<Rightarrow> bool" where
  "yields hp U m R \<longleftrightarrow> hoare (good hp U) m (\<lambda>x t. good hp U t \<and> R x)"

abbreviation stable :: "bool \<Rightarrow> ((collection \<Rightarrow> string list) \<Rightarrow> bool) \<Rightarrow> 'a parser \<Rightarrow> bool" where
  "stable hp U m \<equiv> yields hp U m (\<lambda>_. True)"

lemma hoareI: "(\<And>s x t. P s \<Longrightarrow> m s = (Inr x, t) \<Longrightarrow> Q x t) \<Longrightarrow> hoare P m Q"
  by (simp add: hoare_def)

lemma hoareD: "hoare P m Q \<Longrightarrow> P s \<Longrightarrow> m s = (Inr x, t) \<Longrightarrow> Q x t"
  by (simp add: hoare_def)

lemma hoare_bind: "hoare P m Q \<Longrightarrow> (\<And>x. hoare (Q x) (f x) R) \<Longrightarrow> hoare P (sbind m f) R"
  unfolding hoare_def sbind_eq_Inr by blast

lemma hoare_weaken: "hoare P m Q \<Longrightarrow> (\<And>x t. Q x t \<Longrightarrow> R x t) \<Longrightarrow> hoare P m R"
  by (auto simp: hoare_def)

lemma yields_bind: "yields hp U m Q \<Longrightarrow> (\<And>x. Q x \<Longrightarrow> yields hp U (f x) R) \<Longrightarrow> yields hp U (sbind m f) R"
  unfolding yields_def hoare_def sbind_eq_Inr by blast

lemma yieldsD: "yields hp U m R \<Longrightarrow> good hp U s \<Longrightarrow> m s = (Inr x, t) \<Longrightarrow> good hp U t \<and> R x"
  by (simp add: yields_def hoare_def)

lemma yields_then: "stable hp U m \<Longrightarrow> (\<And>x. yields hp U (f x) R) \<Longrightarrow> yields hp U (sbind m f) R"
  using yields_bind [of hp U m "\<lambda>_. True" f R] by simp

lemma yields_get: "(\<And>s. good hp U s \<Longrightarrow> yields hp U (f s) R) \<Longrightarrow> yields hp U (sbind sget f) R"
  unfolding yields_def hoare_def sbind_sget by blast

lemma stable_then [stable_intro]: "stable hp U m \<Longrightarrow> (\<And>x. stable hp U (f x)) \<Longrightarrow> stable hp U (sbind m f)"
  by (rule yields_then)

lemma yields_stable: "yields hp U m R \<Longrightarrow> stable hp U m"
  by (simp add: yields_def hoare_def)

lemma yields_ret: "R x \<Longrightarrow> yields hp U (sret x) R"
  by (simp add: yields_def hoare_def)

lemma yields_raise: "yields hp U (sraise e) R"
  by (simp add: yields_def hoare_def)

lemma stable_simple [stable_intro]: "stable hp U (sret x)" "stable hp U sget" "stable hp U (sraise e)"
  by (simp_all add: yields_def hoare_def)

lemma yields_if: "(c \<Longrightarrow> yields hp U m R) \<Longrightarrow> (\<not> c \<Longrightarrow> yields hp U n R) \<Longrightarrow> yields hp U (if c then m else n) R"
  by simp

lemma stable_if [stable_intro]: "stable hp U m \<Longrightarrow> stable hp U n \<Longrightarrow> stable hp U (if c then m else n)"
  by simp

lemma stable_cases [stable_intro]:
  "stable hp U m \<Longrightarrow> (\<And>y. stable hp U (f y)) \<Longrightarrow> stable hp U (case x of None \<Rightarrow> m | Some y \<Rightarrow> f y)"
  "(\<And>y z. stable hp U (g y z)) \<Longrightarrow> stable hp U (case q of (y, z) \<Rightarrow> g y z)"
  by (auto split: option.split prod.split)

lemma stable_sfor [stable_intro]: "(\<And>x. stable hp U (f x)) \<Longrightarrow> stable hp U (sfor f xs)"
  by (induction xs) (simp_all add: stable_intro del: sret_apply)

lemma yields_list_until:
  "R acc \<Longrightarrow> (\<And>acc. R acc \<Longrightarrow> yields hp U (item acc) R) \<Longrightarrow> (\<And>b. yields hp U (peek env) (\<lambda>_. True)) \<Longrightarrow>
     yields hp U (list_until n env stops item acc) R"
proof (induction n arbitrary: acc)
  case (Suc n)
  then show ?case
    by (auto intro!: yields_then [OF Suc.prems(3)] yields_ret yields_bind [OF Suc.prems(2)])
qed (simp add: yields_raise)

subsection \<open>Actions\<close>

lemma run_comp_result:
  "keeps_table m \<Longrightarrow> (\<And>g x g'. m g = (Inr x, g') \<Longrightarrow> R x) \<Longrightarrow> yields hp U (run_comp m) R"
  by (auto simp: yields_def hoare_def run_comp_def good_def keeps_table_named split: prod.splits sum.splits)

lemma stable_run_comp [stable_intro]: "keeps_table m \<Longrightarrow> stable hp U (run_comp m)"
  by (rule run_comp_result) simp_all

lemma run_log_result: "(\<And>x w. m [] = (Inr x, w) \<Longrightarrow> R x) \<Longrightarrow> yields hp U (run_log m) R"
  unfolding run_log_def
  by (rule run_comp_result [OF keeps_table_print_log])
     (auto simp: print_log_def Let_def split: prod.splits sum.splits)

lemma run_result_result: "(\<And>x. r = Inr x \<Longrightarrow> R x) \<Longrightarrow> yields hp U (run_result r) R"
  unfolding run_result_def by (rule run_comp_result [OF keeps_table_basic(4)]) simp

lemma stable_actions [stable_intro]:
  "stable hp U (run_log lg)" "stable hp U (run_result r)" "stable hp U (debug msg)" "stable hp U (warn lv msg)"
  "stable hp U (set_arglist a)"
  unfolding run_log_def run_result_def debug_def warn_def
  by (intro stable_intro)+ (simp add: yields_def hoare_def set_arglist_def good_def)

lemma yields_exit: "yields hp U (exit_with msg) R"
  unfolding exit_with_def by (rule run_comp_result [OF keeps_table_messages(6)]) (simp add: fatal_not_returns)

lemma yields_syntax_error: "yields hp U syntax_error R"
  unfolding syntax_error_def by (auto simp: yields_def hoare_def sbind_eq_Inr)

lemmas stable_stops [stable_intro] = yields_exit yields_syntax_error

lemma stable_counters:
  "in_int32 v \<Longrightarrow> stable hp U (set_field_val v)" "in_int32 v \<Longrightarrow> stable hp U (set_enum_val v)"
  by (simp_all add: yields_def hoare_def set_field_val_def set_enum_val_def good_def)

lemma update_program_good:
  assumes "\<And>p. parts_wf p \<Longrightarrow> parts_wf (f p)" "\<And>p. V (collection_names p) \<Longrightarrow> U (collection_names (f p))"
  shows "hoare (good hp V) (update_program f) (\<lambda>_. good hp U)"
  using assms by (simp add: hoare_def update_program_def set_program_def good_def)

lemma stable_update:
  "(\<And>p. parts_wf p \<Longrightarrow> parts_wf (f p)) \<Longrightarrow> (\<And>p. collection_names (f p) = collection_names p) \<Longrightarrow>
     stable hp U (update_program f)"
  using update_program_good [of f U U hp] by (simp add: yields_def hoare_def)

lemma collection_names_cong:
  "typedefs q = typedefs p \<Longrightarrow> enums q = enums p \<Longrightarrow> objects q = objects p \<Longrightarrow> services q = services p \<Longrightarrow>
     collection_names q = collection_names p"
  by (rule ext, rename_tac c, case_tac c) simp_all

lemma with_scope_parts [simp]:
  "collection_names (with_scope sc p) = collection_names p" "prog_scope (with_scope sc p) = sc"
  "objects (with_scope sc p) = objects p" "structs (with_scope sc p) = structs p"
  "prog_xceptions (with_scope sc p) = prog_xceptions p" "services (with_scope sc p) = services p"
  "enums (with_scope sc p) = enums p"
  by (rule collection_names_cong) (simp_all add: with_scope_def)

lemma new_include_wf: "tree_wf (Program (new_include path site) [])"
proof -
  have "collection_names (new_include path site) = collection_names (new_program path)"
    by (rule collection_names_cong) (simp_all add: new_include_def set_include_prefix_def)
  then show ?thesis
    using new_program_wf [of path]
    by (simp add: tree_wf_def program_wf_def parts_wf_def new_include_def set_include_prefix_def)
qed

lemma stable_set_include [stable_intro]:
  "stable hp U (sbind sget (\<lambda>s. if c then set_program (add_include path name (ps_program s)) else sret ()))"
  unfolding yields_def
proof (rule hoareI)
  fix s x t
  assume "good hp U s" "sbind sget (\<lambda>s. if c then set_program (add_include path name (ps_program s)) else sret ()) s = (Inr x, t)"
  then show "good hp U t \<and> True"
    by (cases "ps_program s") (auto simp: set_program_def good_def new_include_wf split: if_splits)
qed

subsection \<open>Scopes\<close>

definition scoped_ok :: "'a scoped \<Rightarrow> ('a \<Rightarrow> bool) \<Rightarrow> bool" where
  "scoped_ok m R \<longleftrightarrow> (\<forall>sc r sc'. scope_named sc \<longrightarrow> m sc = (r, sc') \<longrightarrow>
     scope_named sc' \<and> (\<forall>x. r = Inr x \<longrightarrow> R x))"

lemma in_scope_result: "scoped_ok m R \<Longrightarrow> yields hp U (in_scope m) R"
  unfolding scoped_ok_def yields_def hoare_def in_scope_def update_program_def set_program_def run_result_def
    run_comp_def
  by (auto simp: good_def parts_wf_def sexn_simps with_scope_parts split: prod.splits sum.splits)

lemma in_parent_scope_stable: "scoped_ok m R \<Longrightarrow> stable hp U (in_parent_scope m)"
  unfolding scoped_ok_def yields_def hoare_def in_parent_scope_def set_parent_def run_result_def run_comp_def
  by (auto simp: good_def sexn_simps split: prod.splits sum.splits option.splits)

lemma omap_insert_elems: "set (omap_insert k v m) \<subseteq> insert (k, v) (set m)"
  by (induction k v m rule: omap_insert.induct) auto

lemma scope_named_insert:
  "scope_named sc \<Longrightarrow> (\<And>t. v = Some t \<Longrightarrow> well_named t) \<Longrightarrow> scope_named (sc\<lparr>sc_types := omap_insert n v (sc_types sc)\<rparr>)"
  using omap_insert_elems [of n v "sc_types sc"] by (fastforce simp: scope_named_def)

lemma get_type_ok: "scoped_ok (get_type name) (\<lambda>ty. \<forall>t. ty = Some t \<longrightarrow> well_named t)"
  unfolding scoped_ok_def get_type_def omap_index_def Let_def
  by (force simp: scope_named_def split: option.splits dest: omap_find_SomeD
      dest!: subsetD [OF omap_insert_elems])

lemma add_type_ok: "well_named ty \<Longrightarrow> scoped_ok (add_type key ty) (\<lambda>_. True)"
  unfolding scoped_ok_def add_type_def by (auto intro!: scope_named_insert)

definition keeps_types :: "'a scoped \<Rightarrow> bool" where
  "keeps_types m \<longleftrightarrow> (\<forall>sc. sc_types (snd (m sc)) = sc_types sc)"

named_theorems keeps_types_intro

lemma keeps_types_ok: "keeps_types m \<Longrightarrow> scoped_ok m (\<lambda>_. True)"
  unfolding keeps_types_def scoped_ok_def scope_named_def by (metis snd_conv)

lemma keeps_types_basic [keeps_types_intro]:
  "keeps_types (sret x)" "keeps_types (sraise e)" "keeps_types (slift r)"
  "keeps_types (get_constant name)" "keeps_types (get_service name)"
  "keeps_types (add_constant name c)" "keeps_types (add_service name sv)"
  by (auto simp: keeps_types_def get_constant_def get_service_def add_constant_def add_service_def
      omap_index_def Let_def split: option.split)

lemma keeps_types_bind [keeps_types_intro]:
  "keeps_types m \<Longrightarrow> (\<And>x. keeps_types (f x)) \<Longrightarrow> keeps_types (sbind m f)"
  by (auto simp: keeps_types_def sbind_def split: prod.split sum.split) (metis snd_conv)+

lemma keeps_types_smap: "(\<And>x. x \<in> set xs \<Longrightarrow> keeps_types (f x)) \<Longrightarrow> keeps_types (smap f xs)"
  by (induction xs) (auto intro!: keeps_types_intro)

lemma resolve_keeps_types: "keeps_types (resolve_const_value fuel scopes v ty)"
proof (induction "size v" arbitrary: v ty rule: less_induct)
  case less
  have parts: "keeps_types (resolve_const_value fuel scopes a t)"
      "keeps_types (resolve_const_value fuel scopes b t)" if "(a, b) \<in> set (get_map v)" for a b t
    using less get_map_smaller [OF that] by simp_all
  have items: "keeps_types (resolve_const_value fuel scopes a t)" if "a \<in> set (get_list v)" for a t
    using less get_list_smaller [OF that] by simp
  show ?case
    by (subst resolve_const_value.simps)
       (auto intro!: keeps_types_intro keeps_types_smap simp: parts items
          simp del: sret_apply sraise_apply slift_apply get_map.simps get_list.simps
          split: t_type.split t_const_value.split option.split)
qed

section \<open>Structs under construction\<close>

text \<open>What the tables of a struct say about its fields, which validation as a union does not change.\<close>

definition skeleton :: "t_struct \<Rightarrow> (int \<times> t_type) list \<times> bool \<times> string" where
  "skeleton s =
     (map (\<lambda>f. (field_key f, field_type f)) (members_in_id_order s), is_xception_flag s, struct_name s)"

text \<open>In the pass over the includes named types are null pointers, and fields have no useful types.\<close>

definition members_in :: "penv \<Rightarrow> t_struct \<Rightarrow> bool" where
  "members_in env s \<longleftrightarrow> struct_ok s
     \<and> (\<forall>(k, t) \<in> set (fst (skeleton s)). in_int32 k \<and> (pe_mode env = PROGRAM \<longrightarrow> well_named t))"

lemma members_in_wf: "members_in env s \<Longrightarrow> pe_mode env = PROGRAM \<Longrightarrow> fields_wf s"
  by (auto simp: members_in_def skeleton_def fields_wf_def)

lemma update_field_skeleton: "skeleton (update_field (with_req r) k s) = skeleton s"
  by (simp add: skeleton_def update_field_def Let_def)

lemma validate_union_member_skeleton:
  "validate_union_member f s w = (Inr s', w') \<Longrightarrow> skeleton s' = skeleton s"
  by (auto simp: validate_union_member_def Let_def sbind_eq_Inr pwarning_def update_field_skeleton
      with_members_with_value_def split: if_splits)
     (simp_all add: skeleton_def update_field_def Let_def)

lemma sfold_validate:
  "sfold validate_union_member fs s w = (Inr s', w') \<Longrightarrow> struct_ok s \<Longrightarrow> struct_ok s' \<and> skeleton s' = skeleton s"
proof (induction fs arbitrary: s w)
  case (Cons f fs)
  then show ?case
    by (auto simp: sbind_eq_Inr) (metis validate_union_member_skeleton validate_union_member_keeps(1))+
qed simp

lemma validate_union_members_keeps:
  assumes "validate_union_members s w = (Inr s', w')" "struct_ok s"
  shows "struct_ok s' \<and> skeleton s' = skeleton s"
  using assms
  by (auto simp: validate_union_members_def sbind_eq_Inr skeleton_def struct_ok_def split: if_splits
      dest!: sfold_validate)

lemma set_keeps:
  assumes "struct_ok s"
  shows "set_union u s w = (Inr s', w') \<Longrightarrow> struct_ok s' \<and> skeleton s' = skeleton s"
    "struct_set_name n s w = (Inr s', w') \<Longrightarrow> struct_ok s' \<and> skeleton s' = (fst (skeleton s), is_xception_flag s, n)"
  unfolding set_union_def struct_set_name_def
  by (drule validate_union_members_keeps; use assms in \<open>simp add: struct_ok_def skeleton_def\<close>)+

lemma struct_append_keeps:
  assumes run: "struct_append f s w = (Inr (True, s'), w')" and ok: "struct_ok s"
  shows "struct_ok s' \<and> is_xception_flag s' = is_xception_flag s \<and>
    set (fst (skeleton s')) = insert (field_key f, field_type f) (set (fst (skeleton s)))"
proof -
  have free: "\<not> (field_key f \<in> field_key ` set (members s) \<or> field_name f \<in> field_name ` set (members s))"
    and run': "validate_union_member f (with_member f s) w = (Inr s', w')"
    using run by (auto simp: struct_append_cases [OF ok] sbind_eq_Inr split: if_splits)
  have "struct_ok (with_member f s)" using free ok by (intro with_member_ok) (auto simp: struct_ok_def)
  then have "struct_ok s'" by (rule validate_union_member_keeps(1) [OF run'])
  then show ?thesis
    using validate_union_member_skeleton [OF run'] by (auto simp: skeleton_def with_member_def)
qed

section \<open>Tokens\<close>

lemma plain_rules:
  "(r, Return t) \<in> set lex_rules \<Longrightarrow> t \<noteq> tok_identifier x"
  "(r, Deprecated msg t) \<in> set lex_rules \<Longrightarrow> t \<noteq> tok_identifier x"
  by (auto simp: lex_rules_def keyword_rules_def)

lemma lex_return_identifier:
  assumes "lex_return act tx rest g = (Inr (tok_identifier x, r), g')" "(rx, act) \<in> set lex_rules"
  shows "x = tx"
  using assms plain_rules
  by (auto simp: lex_return_def sbind_eq_Inr integer_overflow_def unexpected_token_def lex_literal_def
      thrift_reserved_keyword_def fatal_not_returns split: option.splits lex_action.splits literal_end.splits)

lemma yylex_identifier: "yylex mode s g = (Inr (tok_identifier x, rest), g') \<Longrightarrow> x \<noteq> []"
proof (induction "length s" arbitrary: s g rule: less_induct)
  case less
  show ?case
  proof (cases "s = []")
    case True
    then show ?thesis using less.prems by (simp add: yylex.simps sexn_simps)
  next
    case False
    then obtain i n where best: "best_rule lex_rules s = Some (n, snd (lex_rules ! i))"
      and i: "flex_choice lex_rules s i n" and n: "0 < n"
      using scanner_progress [OF False] by auto
    let ?act = "snd (lex_rules ! i)"
    have len: "length (drop n s) < length s" using n False by simp
    note run = less.prems [unfolded yylex_step [OF False best n]]
    show ?thesis
    proof (cases "?act = Ignore \<or> ?act = DocText")
      case True
      then obtain h where "yylex mode (drop n s) h = (Inr (tok_identifier x, rest), g')"
        using run by (cases "?act = Ignore") (auto simp: sbind_eq_Inr)
      from less.hyps [OF len this] show ?thesis .
    next
      case False
      then obtain h where run: "lex_return ?act (take n s) (drop n s) h = (Inr (tok_identifier x, rest), g')"
        using run by (auto simp: sbind_eq_Inr)
      have "i < length lex_rules" using i by (simp add: flex_choice_def rule_matches_def)
      then have "(fst (lex_rules ! i), ?act) \<in> set lex_rules" by simp
      from lex_return_identifier [OF run this] n \<open>s \<noteq> []\<close> show ?thesis by simp
    qed
  qed
qed

lemma peek_result: "yields hp U (peek env) (\<lambda>t. t \<noteq> tok_identifier [])"
  unfolding yields_def
proof (rule hoareI)
  fix s t s'
  assume s: "good hp U s" and run: "peek env s = (Inr t, s')"
  show "good hp U s' \<and> t \<noteq> tok_identifier []"
  proof (cases "ps_look s")
    case (Some k)
    then show ?thesis using s run by (auto simp: peek_def good_def)
  next
    case None
    then obtain rest g where lex: "yylex (pe_mode env) (ps_input s) (ps_globals s) = (Inr (t, rest), g)"
      and s': "s' = s\<lparr>ps_globals := g, ps_input := rest, ps_look := Some t\<rparr>"
      using run by (auto simp: peek_def run_comp_def sexn_simps split: prod.splits sum.splits)
    have "t \<noteq> tok_identifier []" using yylex_identifier [of _ _ _ "[]"] lex by auto
    then show ?thesis using s s' keeps_table_named [OF keeps_table_yylex lex] by (simp add: good_def)
  qed
qed

lemmas stable_peek [stable_intro] = peek_result [THEN yields_stable]

lemma stable_shift [stable_intro]: "stable hp U shift"
  by (simp add: yields_def hoare_def shift_def good_def)

lemma expect_identifier_result: "yields hp U (expect_identifier env) (\<lambda>n. n \<noteq> [])"
  unfolding expect_identifier_def
proof (rule yields_bind [OF peek_result])
  fix t :: token
  assume "t \<noteq> tok_identifier []"
  then show "yields hp U (case t of tok_identifier name \<Rightarrow> sbind shift (\<lambda>_. sret name) | _ \<Rightarrow> syntax_error) (\<lambda>n. n \<noteq> [])"
    by (cases t) (auto intro!: yields_syntax_error yields_then [OF stable_shift] yields_ret simp del: sret_apply)
qed

lemma stable_token_cases:
  "(\<And>x. stable hp U (f x)) \<Longrightarrow> stable hp U (case k of tok_literal x \<Rightarrow> f x | _ \<Rightarrow> syntax_error)"
  "(\<And>x. stable hp U (f x)) \<Longrightarrow> stable hp U (case k of tok_st_identifier x \<Rightarrow> f x | _ \<Rightarrow> syntax_error)"
  by (cases k; simp add: yields_syntax_error)+

lemma stable_expects [stable_intro]:
  "stable hp U (expect env k)" "stable hp U (expect_literal env)" "stable hp U (expect_st_identifier env)"
  "stable hp U (expect_identifier env)" "stable hp U (optional env k)" "stable hp U (CommaOrSemicolonOptional env)"
  "stable hp U (CaptureDocText env)" "stable hp U (DestroyDocText env)" "stable hp U (doc_if doc)"
  unfolding expect_def expect_literal_def expect_st_identifier_def optional_def CommaOrSemicolonOptional_def
    CaptureDocText_def DestroyDocText_def doc_if_def
  by (intro stable_intro stable_token_cases yields_stable [OF expect_identifier_result])+

lemma yields_items:
  "R acc \<Longrightarrow> (\<And>acc. R acc \<Longrightarrow> yields hp U (item acc) R) \<Longrightarrow> yields hp U (list_until n env stops item acc) R"
  by (rule yields_list_until) (auto intro: stable_peek)

lemma stable_items [stable_intro]:
  "(\<And>acc. stable hp U (item acc)) \<Longrightarrow> stable hp U (list_until n env stops item acc)"
  by (rule yields_items) auto

section \<open>Types and constants\<close>

lemma stable_annotations [stable_intro]:
  "stable hp U (AnnotationValue env kind)" "stable hp U (TypeAnnotations n env)" "stable hp U (ResourceAnnotations n env)"
  unfolding AnnotationValue_def TypeAnnotations_def ResourceAnnotations_def AnnotationList_def Annotation_def
  by (intro stable_intro)+

definition named_in :: "penv \<Rightarrow> t_type option \<Rightarrow> bool" where
  "named_in env ty \<longleftrightarrow> (pe_mode env = PROGRAM \<longrightarrow> ty \<noteq> None \<and> well_named (the ty))"

lemma named_in_type: "named_in env ty \<Longrightarrow> pe_mode env = PROGRAM \<Longrightarrow> well_named (type_or_null ty)"
  by (auto simp: named_in_def type_or_null_def)

lemma stable_CppType [stable_intro]: "stable hp U (CppType env)"
  unfolding CppType_def by (intro stable_intro)

lemma container_result:
  assumes "yields hp U simple (\<lambda>ty. named_in env (Some ty))"
  shows "yields hp U (ContainerType n env simple) (named_in env)"
  unfolding ContainerType_def
  by (intro yields_bind [OF assms] yields_then yields_ret stable_intro)

lemma containers_result:
  assumes "yields hp U elem (named_in env)"
  shows "yields hp U (MapType env elem) (\<lambda>ty. named_in env (Some ty))"
    "yields hp U (SetType env elem) (\<lambda>ty. named_in env (Some ty))"
    "yields hp U (ListType env elem) (\<lambda>ty. named_in env (Some ty))"
  unfolding MapType_def SetType_def ListType_def
  by (intro yields_bind [OF assms] yields_then yields_ret stable_intro;
      use named_in_type in \<open>auto simp: named_in_def type_or_null_def\<close>)+

lemma base_result:
  assumes "SimpleBaseType k = Some (ty, name)"
  shows "yields hp U (sbind (BaseType n env ty name) (\<lambda>ty.
    sbind (debug ''FieldType -> BaseType'') (\<lambda>_. sret (Some ty)))) (named_in env)"
proof -
  have "well_named ty"
    using assms by (cases k) (auto simp: g_type_string_def g_type_binary_def g_type_slist_def g_type_bool_def
      g_type_byte_def g_type_i16_def g_type_i32_def g_type_i64_def g_type_double_def)
  then have "yields hp U (BaseType n env ty name) (\<lambda>ty. named_in env (Some ty))"
    unfolding BaseType_def by (intro yields_then yields_ret stable_intro) (simp add: named_in_def)
  then show ?thesis by (rule yields_bind) (intro yields_then yields_ret stable_intro)
qed

lemma named_type_result:
  assumes "name \<noteq> []"
  shows "yields hp U (named_type env name) (named_in env)"
proof -
  have "yields hp U (case ty of Some t \<Rightarrow> sret (Some t)
     | None \<Rightarrow> sbind sget (\<lambda>s. sret (Some (t_typedef (own_path s) name None)))) (named_in env)"
    if "\<forall>t. ty = Some t \<longrightarrow> well_named t" for ty
    using that assms by (cases ty) (auto intro!: yields_get yields_ret simp: named_in_def simp del: sret_apply)
  then show ?thesis
    unfolding named_type_def
    by (intro yields_then stable_intro yields_if yields_bind [OF in_scope_result [OF get_type_ok]] yields_ret)
       (auto simp: named_in_def)
qed

lemma FieldType_result: "yields hp U (FieldType n env) (named_in env)"
proof (induction n)
  case 0
  show ?case by (simp add: yields_raise del: sraise_apply)
next
  case (Suc n)
  note containers = containers_result [OF Suc, THEN container_result]
  show ?case
    unfolding FieldType.simps
  proof (rule yields_bind [OF peek_result])
    fix k :: token
    assume k: "k \<noteq> tok_identifier []"
    have base: "yields hp U (case SimpleBaseType k of
            Some (ty, name) \<Rightarrow> sbind (BaseType n env ty name) (\<lambda>ty.
              sbind (debug ''FieldType -> BaseType'') (\<lambda>_. sret (Some ty)))
          | None \<Rightarrow> syntax_error) (named_in env)"
      using base_result [of k] by (auto split: option.split simp: yields_syntax_error)
    show "yields hp U (case k of
       tok_identifier name \<Rightarrow> named_type env name
     | tok_map \<Rightarrow> ContainerType n env (MapType env (FieldType n env))
     | tok_set \<Rightarrow> ContainerType n env (SetType env (FieldType n env))
     | tok_list \<Rightarrow> ContainerType n env (ListType env (FieldType n env))
     | _ \<Rightarrow>
         (case SimpleBaseType k of
            Some (ty, name) \<Rightarrow> sbind (BaseType n env ty name) (\<lambda>ty.
              sbind (debug ''FieldType -> BaseType'') (\<lambda>_. sret (Some ty)))
          | None \<Rightarrow> syntax_error)) (named_in env)"
      using k base by (cases k) (simp_all add: containers named_type_result)
  qed
qed

lemmas stable_FieldType [stable_intro] = FieldType_result [THEN yields_stable]

lemma stable_const_values [stable_intro]:
  "stable hp U (int_const_value i)" "stable hp U (leaf_const_value v name)"
  "stable hp U elem \<Longrightarrow> stable hp U (ConstList n env elem)" "stable hp U elem \<Longrightarrow> stable hp U (ConstMap n env elem)"
  unfolding int_const_value_def leaf_const_value_def ConstList_def ConstList_item_def ConstMap_def ConstMap_item_def
  by (intro stable_intro; assumption)+

lemma stable_ConstValue [stable_intro]: "stable hp U (ConstValue n env)"
proof (induction n)
  case (Suc n)
  have "stable hp U (case k of
       tok_int_constant i \<Rightarrow> int_const_value i
     | tok_dub_constant d \<Rightarrow> leaf_const_value (CV_DOUBLE d) ''tok_dub_constant''
     | tok_literal s \<Rightarrow> leaf_const_value (CV_STRING s) ''tok_literal''
     | tok_identifier name \<Rightarrow> leaf_const_value (CV_IDENTIFIER name None) ''tok_identifier''
     | tok_sym c \<Rightarrow>
         if c = CHR ''['' then ConstList n env (ConstValue n env)
         else if c = CHR ''{'' then ConstMap n env (ConstValue n env)
         else syntax_error
     | _ \<Rightarrow> syntax_error)" for k
    using Suc by (cases k) (simp_all add: stable_intro)
  then show ?case unfolding ConstValue.simps by (intro stable_intro)
qed (simp add: yields_raise del: sraise_apply)

lemma stable_resolve [stable_intro]: "stable hp U (resolve_in_scope env v ty)"
  unfolding resolve_in_scope_def
  by (rule yields_get) (rule in_scope_result [OF keeps_types_ok [OF resolve_keeps_types]])

lemma stable_add_symbol:
  "(\<And>key. scoped_ok (add key) (\<lambda>_. True)) \<Longrightarrow> stable hp U (add_symbol env add name)"
  unfolding add_symbol_def by (intro stable_then in_scope_result in_parent_scope_stable)

lemma stable_simple_identifier [stable_intro]: "stable hp U (simple_identifier name)"
  unfolding simple_identifier_def by (auto intro!: stable_intro simp del: sret_apply split: sum.split cxx_error.split)

lemma stable_Const [stable_intro]: "stable hp U (Const n env doc)"
  unfolding Const_def Let_def
  by (intro stable_intro stable_add_symbol keeps_types_ok keeps_types_intro)

section \<open>Fields and structs\<close>

lemma in_int32_facts: "in_int32 (to_int32 i)" "in_int32 (- 1)"
  "in_int32 v \<Longrightarrow> v \<noteq> - (2 ^ 31) \<Longrightarrow> in_int32 (v - 1)" "in_int32 v \<Longrightarrow> v \<noteq> 2 ^ 31 - 1 \<Longrightarrow> in_int32 (v + 1)"
proof -
  show "in_int32 (to_int32 i)"
    using sint_range_size [of "word_of_int i :: 32 word"] by (simp add: in_int32_def to_int32_def word_size)
qed (auto simp: in_int32_def)

lemma auto_field_id_result: "yields hp U auto_field_id (\<lambda>fid. in_int32 (fst fid))"
  unfolding auto_field_id_def
  by (intro yields_get yields_if yields_then yields_ret run_result_result stable_counters)
     (auto simp: good_def in_int32_facts)

lemma explicit_field_id_result: "yields hp U (explicit_field_id i) (\<lambda>fid. in_int32 (fst fid))"
  unfolding explicit_field_id_def
  by (intro yields_get yields_if yields_then yields_ret run_result_result stable_counters auto_field_id_result
      stable_intro)
     (auto simp: in_int32_facts)

lemma FieldIdentifier_result: "yields hp U (FieldIdentifier env) (\<lambda>fid. in_int32 (fst fid))"
proof -
  have "yields hp U (case k of
       tok_int_constant i \<Rightarrow>
         sbind shift (\<lambda>_. sbind (expect env (tok_sym CHR '':'')) (\<lambda>_. explicit_field_id i))
     | _ \<Rightarrow> auto_field_id) (\<lambda>fid. in_int32 (fst fid))" for k
    by (cases k) (auto intro!: yields_then stable_intro auto_field_id_result explicit_field_id_result)
  then show ?thesis unfolding FieldIdentifier_def by (intro yields_then stable_intro)
qed

lemma stable_field_parts [stable_intro]:
  "stable hp U (FieldRequiredness env)" "stable hp U (FieldValue n env)" "stable hp U (check_field_id name a)"
  unfolding FieldRequiredness_def FieldValue_def check_field_id_def by (intro stable_intro)+

definition field_in :: "penv \<Rightarrow> t_field \<Rightarrow> bool" where
  "field_in env f \<longleftrightarrow> in_int32 (field_key f) \<and> (pe_mode env = PROGRAM \<longrightarrow> well_named (field_type f))"

lemma make_field_result:
  assumes "in_int32 (fst fid)" "named_in env ty"
  shows "yields hp U (make_field env doc fid req ty name value as) (field_in env)"
  unfolding make_field_def
  by (intro yields_then yields_ret stable_intro) (use assms in \<open>simp add: field_in_def named_in_type\<close>)

definition struct_in :: "penv \<Rightarrow> t_struct \<Rightarrow> bool" where
  "struct_in env s \<longleftrightarrow> members_in env s \<and> \<not> is_xception_flag s"

lemma empty_struct_result: "yields hp U empty_struct (struct_in env)"
  unfolding empty_struct_def
  by (intro yields_get yields_ret)
     (simp add: struct_in_def members_in_def new_struct_ok skeleton_def, simp add: new_struct_def)

lemma FieldList_item_result:
  assumes field: "yields hp U field (field_in env)" and st: "struct_in env st"
  shows "yields hp U (FieldList_item field st) (struct_in env)"
  unfolding FieldList_item_def
proof (rule yields_bind [OF field])
  fix f
  assume f: "field_in env f"
  have append: "yields hp U (run_log (struct_append f st)) (\<lambda>(ok, st'). ok \<longrightarrow> struct_in env st')"
  proof (rule run_log_result)
    fix r w
    assume "struct_append f st [] = (Inr r, w)"
    then show "case r of (ok, st') \<Rightarrow> ok \<longrightarrow> struct_in env st'"
      using struct_append_keeps [of f st "[]" "snd r" w] st f
      by (cases r) (auto simp: struct_in_def members_in_def field_in_def)
  qed
  show "yields hp U (sbind (debug ''FieldList -> FieldList , Field'') (\<lambda>_.
     sbind (run_log (struct_append f st)) (\<lambda>(ok, st).
     if ok then sret st
     else exit_with (dq @ show_int (field_key f) @ '': '' @ field_name f @ dq
            @ '' - field identifier/name has already been used'')))) (struct_in env)"
    by (intro yields_then stable_intro yields_bind [OF append])
       (auto intro!: yields_ret yields_exit simp del: sret_apply)
qed

lemma FieldList_of_result:
  "yields hp U field (field_in env) \<Longrightarrow> yields hp U (FieldList_of n env field close) (struct_in env)"
  unfolding FieldList_of_def
  by (intro yields_then stable_intro stable_counters in_int32_facts yields_bind [OF empty_struct_result]
      yields_bind [OF yields_items [where R = "struct_in env"]] FieldList_item_result yields_ret)

lemma Field_result: "yields hp U (Field n env) (field_in env)"
proof (induction n)
  case (Suc n)
  have "stable hp U (XsdAttributes n env (Field n env))"
    unfolding XsdAttributes_def
    by (intro stable_intro yields_stable [OF FieldList_of_result [OF Suc]])
  then show ?case
    unfolding Field.simps
    by (intro yields_then [of hp U "CaptureDocText env"] yields_bind [OF FieldIdentifier_result]
        yields_then [of hp U "FieldRequiredness env"] yields_bind [OF FieldType_result])
       (intro stable_intro yields_then make_field_result)+
qed (simp add: yields_raise del: sraise_apply)

lemma FieldList_result: "yields hp U (FieldList n env close) (struct_in env)"
  unfolding FieldList_def by (rule FieldList_of_result [OF Field_result])

lemma finish_struct_in:
  "struct_in env st \<Longrightarrow> struct_in env (finish_struct as doc st)"
  by (simp add: finish_struct_def struct_in_def members_in_def skeleton_def struct_ok_def)

lemma struct_in_cong:
  "struct_in env s \<Longrightarrow> struct_ok t \<Longrightarrow> skeleton t = (fst (skeleton s), is_xception_flag s, n) \<Longrightarrow>
     struct_in env t \<and> struct_name t = n"
  by (cases "skeleton t") (simp add: struct_in_def members_in_def, simp add: skeleton_def)

lemma run_set_result:
  assumes "struct_in env st"
  shows "yields hp U (run_log (set_union u st)) (struct_in env)"
    "yields hp U (run_log (struct_set_name name st)) (\<lambda>st. struct_in env st \<and> struct_name st = name)"
proof -
  have ok: "struct_ok st" using assms by (simp add: struct_in_def members_in_def)
  have "skeleton st = (fst (skeleton st), is_xception_flag st, struct_name st)" by (simp add: skeleton_def)
  then show "yields hp U (run_log (set_union u st)) (struct_in env)"
    using struct_in_cong [OF assms] set_keeps(1) [OF ok] by (metis (no_types, lifting) run_log_result)
  show "yields hp U (run_log (struct_set_name name st)) (\<lambda>st. struct_in env st \<and> struct_name st = name)"
    using struct_in_cong [OF assms] set_keeps(2) [OF ok] by (intro run_log_result) blast
qed

lemma Struct_result: "yields hp U (Struct n env un doc) (\<lambda>st. struct_in env st \<and> struct_name st \<noteq> [])"
  unfolding Struct_def
  by (rule yields_then [OF stable_shift], rule yields_bind [OF expect_identifier_result],
      intro yields_bind [OF FieldList_result] yields_bind [OF run_set_result(1) [where env = env]]
      yields_bind [OF run_set_result(2) [where env = env]] yields_then stable_intro yields_ret)
     (auto simp: finish_struct_in, simp add: finish_struct_def)

lemma Xception_result:
  "yields hp U (Xception n env doc) (\<lambda>st. members_in env st \<and> is_xception_flag st \<and> struct_name st \<noteq> [])"
  unfolding Xception_def
  by (rule yields_then [OF stable_shift], rule yields_bind [OF expect_identifier_result],
      intro yields_bind [OF FieldList_result] yields_bind [OF run_set_result(2) [where env = env]] yields_then
      stable_intro yields_ret)
     (auto simp: struct_in_def finish_struct_def set_xception_def members_in_def skeleton_def struct_ok_def)

section \<open>Enums and services\<close>

lemma overflow_test: "yields hp U (sbind sget (\<lambda>s. sbind
    (if y_enum_val s = 2 ^ 31 - 1 then run_comp (failure msg) else sret ()) (\<lambda>_. f (y_enum_val s)))) R"
  if "\<And>v. in_int32 v \<Longrightarrow> v \<noteq> 2 ^ 31 - 1 \<Longrightarrow> yields hp U (f v) R"
proof (rule yields_get)
  fix s
  assume s: "good hp U s"
  have "yields hp U (run_comp (failure msg)) R'" for R' :: "unit \<Rightarrow> bool"
    by (rule run_comp_result [OF keeps_table_messages(5)]) (simp add: failure_def)
  then have "yields hp U (if y_enum_val s = 2 ^ 31 - 1 then run_comp (failure msg) else sret ())
      (\<lambda>_. y_enum_val s \<noteq> 2 ^ 31 - 1)"
    by (auto intro!: yields_ret simp del: sret_apply)
  then show "yields hp U (sbind (if y_enum_val s = 2 ^ 31 - 1 then run_comp (failure msg) else sret ())
      (\<lambda>_. f (y_enum_val s))) R"
    by (rule yields_bind) (use s that in \<open>auto simp: good_def\<close>)
qed

lemma EnumValue_result: "yields hp U (EnumValue env) (\<lambda>v. in_int32 (ev_value v))"
proof -
  have number: "yields hp U (case k of
         tok_int_constant i \<Rightarrow>
           sbind shift (\<lambda>_.
           sbind (debug ''EnumValue -> tok_identifier = tok_int_constant'') (\<lambda>_.
           sbind (if \<not> in_int32 i
                  then run_comp (failure (''64-bit value supplied for enum '' @ name @ '' will be truncated.''))
                  else sret ()) (\<lambda>_.
           sbind (set_enum_val (to_int32 i)) (\<lambda>_.
           sret (t_enum_value name (to_int32 i) None)))))
       | _ \<Rightarrow> syntax_error) (\<lambda>v. in_int32 (ev_value v))" for k name
    by (cases k) (auto intro!: yields_syntax_error yields_then stable_intro stable_counters yields_ret
        in_int32_facts simp: in_int32_facts simp del: sret_apply)
  show ?thesis
    unfolding EnumValue_def
    by (rule yields_then [OF stable_expects(4)], rule yields_then [OF stable_expects(5)], rule yields_if,
        rule yields_then [OF stable_peek], rule number,
        rule yields_then [OF stable_actions(3)], rule yields_then [OF stable_simple_identifier],
        rule overflow_test, rule yields_then [OF stable_counters(2)])
       (auto intro!: yields_ret in_int32_facts(3,4) simp del: sret_apply)
qed

lemma EnumDef_result: "yields hp U (EnumDef n env) (\<lambda>v. in_int32 (ev_value v))"
  unfolding EnumDef_def
  by (intro yields_bind [OF EnumValue_result] yields_then stable_intro yields_ret) simp

lemma EnumDefList_result: "yields hp U (EnumDefList n env) enum_wf"
  unfolding EnumDefList_def
  by (intro yields_get yields_bind [OF EnumDef_result] yields_then stable_intro stable_counters
      in_int32_facts yields_items yields_ret)
     (auto simp: enum_wf_def enum_append_def)

lemma stable_enum_constant [stable_intro]: "stable hp U (enum_constant env e v)"
  unfolding enum_constant_def by (intro stable_add_symbol keeps_types_ok keeps_types_intro)

lemma Enum_result: "yields hp U (Enum n env doc) (\<lambda>e. enum_wf e \<and> enum_name e \<noteq> [])"
  unfolding Enum_def Let_def
  by (rule yields_then [OF stable_shift], rule yields_bind [OF expect_identifier_result],
      rule yields_then [OF stable_expects(1)], rule yields_bind [OF EnumDefList_result],
      intro yields_then stable_intro yields_ret)
     (simp add: enum_wf_def)

lemma stable_Senum [stable_intro]: "stable hp U (SenumDef env)"
  unfolding SenumDef_def by (intro stable_intro)

lemma Senum_result: "yields hp U (Senum n env) well_named"
  unfolding Senum_def
  by (rule yields_then [OF stable_shift], rule yields_bind [OF expect_identifier_result],
      intro yields_get yields_then stable_intro yields_ret) simp

lemma Typedef_result: "yields hp U (Typedef n env) well_named"
  unfolding Typedef_def
  by (rule yields_then [OF stable_shift], rule yields_then [OF stable_FieldType],
      rule yields_bind [OF expect_identifier_result],
      intro yields_get yields_then stable_intro yields_ret) simp

definition function_in :: "penv \<Rightarrow> t_function \<Rightarrow> bool" where
  "function_in env f \<longleftrightarrow> (pe_mode env = PROGRAM \<longrightarrow> function_wf f)"

lemma FunctionType_result: "yields hp U (FunctionType n env) (named_in env)"
  unfolding FunctionType_def
  by (intro yields_bind [OF FieldType_result] yields_then stable_intro yields_if yields_ret)
     (simp_all add: named_in_def g_type_void_def)

lemma Throws_result: "yields hp U (Throws n env) (struct_in env)"
  unfolding Throws_def
  by (intro yields_bind [OF FieldList_result] yields_get yields_then stable_intro yields_if yields_exit
      yields_ret empty_struct_result)

lemma make_function_result:
  assumes "named_in env rt" "struct_in env args" "struct_in env xs"
  shows "yields hp U (run_log (make_function rt name args xs oneway)) (function_in env)"
proof (rule run_log_result)
  fix f w
  assume "make_function rt name args xs oneway [] = (Inr f, w)"
  then have "returntype f = type_or_null rt \<and> arglist f = args \<and> xceptions f = xs"
    by (auto simp: make_function_def new_function_def sexn_simps split: if_splits)
  then show "function_in env f"
    using assms named_in_type members_in_wf by (auto simp: function_in_def function_wf_def struct_in_def)
qed

lemma args_name_result:
  "struct_in env st \<Longrightarrow> yields hp U (run_log (struct_set_name name st)) (struct_in env)"
  by (drule run_set_result(2)) (auto simp: yields_def hoare_def)

lemma Function_result: "yields hp U (Function n env) (function_in env)"
  unfolding Function_def
  by (rule yields_then [OF stable_expects(7)], rule yields_then [OF stable_expects(5)],
      rule yields_bind [OF FunctionType_result], rule yields_then [OF stable_expects(4)],
      rule yields_then [OF stable_expects(1)], rule yields_bind [OF FieldList_result],
      rule yields_bind [OF Throws_result])
     (intro yields_bind [OF args_name_result [where env = env]] yields_bind [OF make_function_result]
      yields_then stable_intro yields_ret; assumption)

definition service_in :: "penv \<Rightarrow> t_service \<Rightarrow> bool" where
  "service_in env sv \<longleftrightarrow> (pe_mode env = PROGRAM \<longrightarrow> service_wf sv)"

lemma FunctionList_item_result:
  "service_in env sv \<Longrightarrow> yields hp U (FunctionList_item n env sv) (service_in env)"
  unfolding FunctionList_item_def
  by (intro yields_bind [OF Function_result] yields_then stable_intro run_result_result)
     (auto simp: service_in_def function_in_def service_wf_def add_function_def split: if_splits)

lemma stable_Extends [stable_intro]: "stable hp U (Extends env)"
  unfolding Extends_def
  by (intro stable_intro in_scope_result keeps_types_ok keeps_types_intro)

lemma Service_result: "yields hp U (Service n env doc) (service_in env)"
  unfolding Service_def
  by (intro yields_bind [OF yields_items [where R = "service_in env"]] FunctionList_item_result yields_then
      stable_intro yields_ret)
     (auto simp: service_in_def service_wf_def)

end
