(* ===== verification/ParsedPrograms.thy ===== *)
theory ParsedPrograms
  imports ParserInvariant
begin

text \<open>
  Every program that comes out of the parse is well formed, with all that it includes: the
  definitions and headers in the calculus, the grammar as a whole, and the driver's parse of a tree
  of includes.
\<close>

section \<open>Definitions\<close>

text \<open>
  Adding a definition puts its name at the end of one collection; after the test on the name all
  names are unique again.
\<close>

lemma names_adders:
  "collection_names (add_typedef td doc p) = (collection_names p)(Typedefs := collection_names p Typedefs @ [get_name td])"
  "collection_names (add_enum e p) = (collection_names p)(Enums := collection_names p Enums @ [enum_name e])"
  "collection_names (add_struct st p) = (collection_names p)(Objects := collection_names p Objects @ [struct_name st])"
  "collection_names (add_xception st p) = (collection_names p)(Objects := collection_names p Objects @ [struct_name st])"
  "collection_names (prog_add_service sv p) = (collection_names p)(Services := collection_names p Services @ [svc_name sv])"
  by (rule ext, rename_tac c, case_tac c;
      simp add: add_typedef_def add_enum_def add_struct_def add_xception_def prog_add_service_def)+

lemma parts_adders:
  "parts_wf p \<Longrightarrow> parts_wf (add_typedef td doc p)"
  "parts_wf p \<Longrightarrow> enum_wf e \<Longrightarrow> parts_wf (add_enum e p)"
  "parts_wf p \<Longrightarrow> fields_wf st \<Longrightarrow> \<not> is_xception_flag st \<Longrightarrow> parts_wf (add_struct st p)"
  "parts_wf p \<Longrightarrow> fields_wf st \<Longrightarrow> is_xception_flag st \<Longrightarrow> parts_wf (add_xception st p)"
  "parts_wf p \<Longrightarrow> service_wf sv \<Longrightarrow> parts_wf (prog_add_service sv p)"
  "parts_wf p \<Longrightarrow> parts_wf (add_const c p)"
  by (auto simp: parts_wf_def add_typedef_def add_enum_def add_struct_def add_xception_def
      prog_add_service_def add_const_def)

lemma update_adds:
  assumes "\<And>p. parts_wf p \<Longrightarrow> parts_wf (add p)"
    and "\<And>p. collection_names (add p) = (collection_names p)(coll := collection_names p coll @ [n])"
  shows "hoare (good hp unique_names) (update_program add) (\<lambda>_. good hp (nearly_unique coll))"
  using assms nearly_unique_snoc by (intro update_program_good) metis+

lemma require_unique_result:
  "hoare (good hp (nearly_unique coll)) (require_unique coll name) (\<lambda>_. good hp unique_names)"
  unfolding hoare_def
proof (intro allI impI)
  fix s x t
  assume s: "good hp (nearly_unique coll) s" and run: "require_unique coll name s = (Inr x, t)"
  let ?p = "the_program (ps_program s)"
  let ?t = "\<lparr>ref_owner = ?p, ref_collection = coll, ref_position = length (collection_names ?p coll) - 1\<rparr>"
  have "sbind (run_log (is_unique_typename (ps_program s) ?t)) (\<lambda>unique.
     if unique then sret () else exit_with (''Type '' @ dq @ name @ dq @ '' is already defined.'')) s = (Inr x, t)"
    using run by (simp add: require_unique_def Let_def)
  then obtain u s' where test: "run_log (is_unique_typename (ps_program s) ?t) s = (Inr u, s')"
    and rest: "(if u then sret () else exit_with (''Type '' @ dq @ name @ dq @ '' is already defined.'')) s' = (Inr x, t)"
    by (auto simp only: sbind_eq_Inr)
  have u: u
  proof (rule ccontr)
    assume "\<not> u"
    then show False using rest yieldsD [OF yields_exit [of _ _ _ "\<lambda>_. False"]] s
      by (auto simp: exit_with_def run_comp_def fatal_not_returns split: prod.splits sum.splits)
  qed
  have "fst (is_unique_typename (ps_program s) ?t []) = Inr True"
    using test u by (auto simp: run_log_def run_comp_def print_log_def Let_def split: prod.splits sum.splits)
  then have "unique_names (collection_names ?p)"
    using s by (intro unique_by_test [where coll = coll]) (auto simp: good_def)
  moreover have "ps_program s' = ps_program s \<and> good hp (nearly_unique coll) s'"
    using test yieldsD [OF stable_actions(1) s test]
    by (auto simp: run_log_def run_comp_def split: prod.splits sum.splits)
  ultimately show "good hp unique_names t"
    using rest u by (auto simp: good_def)
qed

lemma define_type_result:
  assumes "pe_mode env = PROGRAM \<Longrightarrow> well_named ty"
    and "\<And>p. pe_mode env = PROGRAM \<Longrightarrow> parts_wf p \<Longrightarrow> parts_wf (add p)"
    and "\<And>p. collection_names (add p) = (collection_names p)(coll := collection_names p coll @ [get_name ty])"
  shows "stable hp unique_names (define_type env kind add coll ty)"
proof (cases "pe_mode env = PROGRAM")
  case True
  have symbol: "stable hp U (add_symbol env (\<lambda>key. add_type key ty) (get_name ty))" for U
    using assms(1) True by (intro stable_add_symbol add_type_ok) simp
  have "hoare (good hp unique_names) (define_type env kind add coll ty) (\<lambda>_. good hp unique_names)"
    using True unfolding define_type_def
    by simp (rule hoare_bind, rule stable_actions(3) [unfolded yields_def], simp,
        rule hoare_bind, rule update_adds, rule assms, assumption+, rule assms,
        rule hoare_bind, rule stable_actions(3) [unfolded yields_def], simp,
        rule hoare_bind, rule symbol [unfolded yields_def], simp, rule require_unique_result)
  then show ?thesis by (simp add: yields_def)
next
  case False
  then show ?thesis unfolding define_type_def by (simp del: sret_apply) (intro stable_intro)
qed

lemma define_service_result:
  assumes "service_in env sv"
  shows "stable hp unique_names (define_service env sv)"
proof (cases "pe_mode env = PROGRAM")
  case True
  then have sv: "service_wf sv" using assms by (simp add: service_in_def)
  have symbol: "stable hp U (add_symbol env (\<lambda>key. add_service key sv) (svc_name sv))" for U
    by (intro stable_add_symbol keeps_types_ok keeps_types_intro)
  have "hoare (good hp unique_names) (define_service env sv) (\<lambda>_. good hp unique_names)"
    using True unfolding define_service_def
    by simp (rule hoare_bind, rule stable_actions(3) [unfolded yields_def], simp,
        rule hoare_bind, rule symbol [unfolded yields_def], simp,
        rule hoare_bind, rule update_adds, erule parts_adders(5), rule sv, rule names_adders(5),
        rule require_unique_result)
  then show ?thesis by (simp add: yields_def)
next
  case False
  then show ?thesis unfolding define_service_def by (simp del: sret_apply) (intro stable_intro)
qed

lemma stable_add_const: "stable hp U (update_program (add_const c))"
  by (rule stable_update, erule parts_adders(6), rule collection_names_cong)
     (simp_all add: add_const_def)

lemma stable_define_const [stable_intro]: "stable hp U (define_const env c)"
  unfolding define_const_def by (intro stable_intro stable_add_const)

lemma stable_Definition: "stable hp unique_names (Definition n env doc)"
  unfolding Definition_def
proof (rule yields_then [OF stable_peek])
  fix k :: token
  have td: "stable hp unique_names (define_type env kind (add_typedef ty doc) Typedefs ty)" if "well_named ty" for kind ty
    using that by (intro define_type_result parts_adders names_adders)
  have en: "stable hp unique_names (define_type env kind (add_enum e) Enums (t_enum_type e))"
    if "enum_wf e \<and> enum_name e \<noteq> []" for kind e
    using that by (intro define_type_result parts_adders) (simp_all add: names_adders)
  have st: "stable hp unique_names (define_type env kind (add_struct s) Objects (t_struct_type s))"
    if "struct_in env s \<and> struct_name s \<noteq> []" for kind s
    using that members_in_wf by (intro define_type_result parts_adders) (auto simp: names_adders struct_in_def)
  have xc: "stable hp unique_names (define_type env kind (add_xception s) Objects (t_struct_type s))"
    if "members_in env s \<and> is_xception_flag s \<and> struct_name s \<noteq> []" for kind s
    using that members_in_wf by (intro define_type_result parts_adders) (auto simp: names_adders)
  show "stable hp unique_names (case k of
       tok_const \<Rightarrow> sbind (Const n env doc) (\<lambda>c.
         sbind (define_const env c) (\<lambda>_. sret (c \<noteq> None)))
     | tok_typedef \<Rightarrow> sbind (Typedef n env) (\<lambda>td.
         sbind (define_type env ''Typedef'' (add_typedef td doc) Typedefs td) (\<lambda>_. sret True))
     | tok_enum \<Rightarrow> sbind (Enum n env doc) (\<lambda>e.
         sbind (define_type env ''Enum'' (add_enum e) Enums (t_enum_type e)) (\<lambda>_. sret True))
     | tok_senum \<Rightarrow> sbind (Senum n env) (\<lambda>td.
         sbind (define_type env ''Senum'' (add_typedef td doc) Typedefs td) (\<lambda>_. sret True))
     | tok_struct \<Rightarrow> sbind (Struct n env False doc) (\<lambda>st.
         sbind (define_type env ''Struct'' (add_struct st) Objects (t_struct_type st)) (\<lambda>_. sret True))
     | tok_union \<Rightarrow> sbind (Struct n env True doc) (\<lambda>st.
         sbind (define_type env ''Struct'' (add_struct st) Objects (t_struct_type st)) (\<lambda>_. sret True))
     | tok_xception \<Rightarrow> sbind (Xception n env doc) (\<lambda>st.
         sbind (define_type env ''Xception'' (add_xception st) Objects (t_struct_type st)) (\<lambda>_. sret True))
     | tok_service \<Rightarrow> sbind (Service n env doc) (\<lambda>sv.
         sbind (define_service env sv) (\<lambda>_. sret True))
     | _ \<Rightarrow> syntax_error)"
    by (cases k; simp add: yields_syntax_error del: sret_apply;
        intro yields_bind [OF Typedef_result] yields_bind [OF Enum_result] yields_bind [OF Senum_result]
          yields_bind [OF Struct_result] yields_bind [OF Xception_result] yields_bind [OF Service_result]
          stable_intro td en st xc define_service_result; assumption)
qed

lemma stable_DefinitionList: "stable hp unique_names (DefinitionList n env)"
  unfolding DefinitionList_def DefinitionList_item_def by (intro stable_intro stable_Definition)

section \<open>Headers and programs\<close>

lemma set_namespace_keeps:
  "set_namespace gens language ns p w = (Inr q, w') \<Longrightarrow> \<exists>m. q = p\<lparr>namespaces := m\<rparr>"
  unfolding set_namespace_def by (auto simp: sbind_eq_Inr)

lemma stable_declare_namespace [stable_intro]: "stable hp U (declare_namespace env language ns)"
proof -
  have "stable hp U (sbind sget (\<lambda>s.
       sbind (run_log (set_namespace (pe_generators env) language ns (the_program (ps_program s)))) (\<lambda>p.
       update_program (\<lambda>_. p))))"
  proof (rule yields_get)
    fix s
    assume s: "good hp U s"
    have result: "yields hp U (run_log (set_namespace (pe_generators env) language ns (the_program (ps_program s))))
      (\<lambda>q. \<exists>m. q = (the_program (ps_program s))\<lparr>namespaces := m\<rparr>)"
      by (rule run_log_result) (rule set_namespace_keeps)
    show "stable hp U (sbind (run_log (set_namespace (pe_generators env) language ns (the_program (ps_program s)))) (\<lambda>p.
       update_program (\<lambda>_. p)))"
    proof (rule yields_bind [OF result], elim exE)
      fix q m
      assume q: "q = (the_program (ps_program s))\<lparr>namespaces := m\<rparr>"
      then have "collection_names q = collection_names (the_program (ps_program s))"
        by (intro collection_names_cong) simp_all
      then have "parts_wf q" "U (collection_names q)" using s q by (simp_all add: good_def parts_wf_def)
      then show "stable hp U (update_program (\<lambda>_. q))"
        using update_program_good [of "\<lambda>_. q" U U hp] by (simp add: yields_def)
    qed
  qed
  then show ?thesis
    unfolding declare_namespace_def by (intro stable_then [OF stable_run_comp] keeps_table_doctext stable_if stable_simple)
qed

lemma stable_cpp_include: "stable hp U (update_program (\<lambda>p. p\<lparr>cpp_includes := f p\<rparr>))"
  by (rule stable_update) (simp add: parts_wf_def, rule collection_names_cong, simp_all)

lemma stable_prog_doc: "stable hp U (update_program (\<lambda>p. p\<lparr>prog_doc := doc\<rparr>))"
  by (rule stable_update) (simp add: parts_wf_def, rule collection_names_cong, simp_all)

lemma stable_headers [stable_intro]:
  "stable hp U (deprecated_namespace env t d)" "stable hp U (namespace_header env)" "stable hp U (cpp_include_header env)"
  "stable hp U (Include env)"
  unfolding deprecated_namespace_def namespace_header_def cpp_include_header_def Include_def
  by (intro stable_intro stable_cpp_include)+

lemma stable_Header: "stable hp U (Header env)"
  unfolding Header_def
proof (rule yields_then [OF stable_peek])
  fix k :: token
  show "stable hp U (case k of
       tok_include \<Rightarrow> Include env
     | tok_namespace \<Rightarrow> namespace_header env
     | tok_cpp_include \<Rightarrow> cpp_include_header env
     | _ \<Rightarrow> (case deprecated_header k of
               Some d \<Rightarrow> deprecated_namespace env k d | None \<Rightarrow> syntax_error))"
    by (cases k) (simp_all add: yields_syntax_error stable_headers)
qed

lemma stable_HeaderList: "stable hp U (HeaderList n env)"
  unfolding HeaderList_def HeaderList_item_def by (intro stable_intro stable_Header)

lemma stable_finish_program: "stable hp U finish_program"
  unfolding finish_program_def Let_def by (intro stable_intro stable_prog_doc)

lemma Program_rule_keeps: "stable hp unique_names (Program_rule n env)"
  unfolding Program_rule_def
  by (intro stable_then stable_HeaderList stable_DefinitionList stable_finish_program)

lemma yyparse_keeps:
  assumes run: "thrift_yyparse gens fuel h mode input prefix (p, parent) g = (Inr (0, q, parent'), g')"
    and p: "tree_wf p" "\<forall>sc. parent = Some sc \<longrightarrow> scope_named sc" "tables_named g"
  shows "tree_wf q \<and> (parent' \<noteq> None) = (parent \<noteq> None)
    \<and> (\<forall>sc. parent' = Some sc \<longrightarrow> scope_named sc) \<and> tables_named g'"
proof -
  let ?env = "\<lparr>pe_mode = mode, pe_prefix = prefix, pe_host = h, pe_generators = gens, pe_fuel = fuel\<rparr>"
  let ?s = "start_state input (p, parent) g"
  obtain t where parsed: "Program_rule (Suc (length input)) ?env ?s = (Inr (), t)"
    and t: "q = ps_program t" "parent' = ps_parent t" "g' = ps_globals t"
    using run by (auto simp: thrift_yyparse_def split: prod.splits sum.splits parse_stop.splits)
  have "good (parent \<noteq> None) unique_names ?s"
    using p by (simp add: good_def start_state_def tree_wf_node [of p] program_wf_def in_int32_facts)
  from yieldsD [OF Program_rule_keeps this parsed] show ?thesis
    by (simp add: good_def tree_wf_node [of "ps_program t"] program_wf_def t)
qed

section \<open>The parse of a tree of includes\<close>

text \<open>The compiler keeps \<open>tables_named\<close> and returns under \<open>R\<close>.\<close>

definition compiles :: "'a comp \<Rightarrow> ('a \<Rightarrow> bool) \<Rightarrow> bool" where
  "compiles m R \<longleftrightarrow> (\<forall>g x g'. tables_named g \<longrightarrow> m g = (Inr x, g') \<longrightarrow> tables_named g' \<and> R x)"

lemma compiles_bind: "compiles m Q \<Longrightarrow> (\<And>x. Q x \<Longrightarrow> compiles (f x) R) \<Longrightarrow> compiles (sbind m f) R"
  unfolding compiles_def sbind_eq_Inr by blast

lemma compiles_get: "(\<And>g. tables_named g \<Longrightarrow> compiles (f g) R) \<Longrightarrow> compiles (sbind sget f) R"
  unfolding compiles_def sbind_sget by blast

lemma compiles_ret: "R x \<Longrightarrow> compiles (sret x) R"
  by (simp add: compiles_def)

lemma compiles_keeps: "keeps_table m \<Longrightarrow> compiles m (\<lambda>_. True)"
  by (auto simp: compiles_def dest: keeps_table_named)

lemma compiles_then: "keeps_table m \<Longrightarrow> (\<And>x. compiles (f x) R) \<Longrightarrow> compiles (sbind m f) R"
  by (rule compiles_bind [OF compiles_keeps])

lemma compiles_sfold:
  "R b \<Longrightarrow> (\<And>x b. x \<in> set xs \<Longrightarrow> R b \<Longrightarrow> compiles (f x b) R) \<Longrightarrow> compiles (sfold f xs b) R"
proof (induction xs arbitrary: b)
  case (Cons x xs)
  then show ?case unfolding sfold.simps by (intro compiles_bind [OF Cons.prems(2)]) auto
qed (simp add: compiles_ret del: sret_apply)

abbreviation parsed_wf :: "bool \<Rightarrow> program \<times> t_scope option \<Rightarrow> bool" where
  "parsed_wf hp r \<equiv> tree_wf (fst r) \<and> (snd r \<noteq> None) = hp
     \<and> (\<forall>sc. snd r = Some sc \<longrightarrow> scope_named sc)"

lemma keeps_table_open_input: "keeps_table (open_input h path)"
  unfolding open_input_def by (auto intro!: stable_intro simp del: sret_apply split: option.split prod.split)

lemma compiles_parse_pass:
  assumes "parsed_wf hp st"
  shows "compiles (parse_pass (with_parser gens fuel h) mode text prefix st) (parsed_wf hp)"
  unfolding compiles_def
proof (intro allI impI)
  fix g x g'
  assume g: "tables_named g" and run: "parse_pass (with_parser gens fuel h) mode text prefix st g = (Inr x, g')"
  have "thrift_yyparse gens fuel h mode text prefix (fst st, snd st) (g\<lparr>yylineno := 1\<rparr>) = (Inr (0, fst x, snd x), g')"
    using run by (auto simp: parse_pass_def with_parser_def failure_def split: prod.splits sum.splits
      cxx_error.splits if_splits)
  moreover have "tables_named (g\<lparr>yylineno := 1\<rparr>)" using g by (simp add: tables_named_def)
  ultimately show "tables_named g' \<and> parsed_wf hp x"
    using yyparse_keeps assms by blast
qed

lemma with_scope_wf: "program_wf p \<Longrightarrow> scope_named sc \<Longrightarrow> program_wf (with_scope sc p)"
  by (simp add: program_wf_def parts_wf_def)

lemma program_wf_scope: "program_wf p \<Longrightarrow> scope_named (prog_scope p)"
  by (simp add: program_wf_def parts_wf_def)

lemma compiles_table:
  assumes "scope_named sc"
  shows "compiles (modify (\<lambda>g. g\<lparr>program_to_scope := omap_insert path sc (program_to_scope g)\<rparr>)) (\<lambda>_. True)"
  using assms subsetD [OF omap_insert_elems [of path sc]] by (fastforce simp: compiles_def tables_named_def)

lemma parse_wf:
  assumes "tree_wf p" "\<forall>path sc. parent = Some (path, sc) \<longrightarrow> scope_named sc"
  shows "compiles (parse n (with_parser gens fuel h) p parent) (parsed_wf (parent \<noteq> None))"
  using assms
proof (induction n arbitrary: p parent)
  case 0
  show ?case by (simp add: parse.simps compiles_def)
next
  case (Suc n)
  let ?H = "with_parser gens fuel h" and ?path = "prog_path (the_program p)"
  let ?step = "\<lambda>inc (scope, done). sbind (parse n ?H inc (Some (?path, scope))) (\<lambda>(inc, scope').
        sret (the scope', done @ [inc]))"
  let ?good = "\<lambda>(scope, done). scope_named scope \<and> (\<forall>q \<in> set done. tree_wf q)"
  have step: "compiles (?step inc b) ?good" if inc: "tree_wf inc" and b: "?good b" for inc b
  proof -
    obtain scope incs where b_parts: "b = (scope, incs)" by fastforce
    have "compiles (parse n ?H inc (Some (?path, scope))) (parsed_wf True)"
      using Suc.IH [OF inc, of "Some (?path, scope)"] b b_parts by simp
    then show ?thesis
      unfolding b_parts prod.case
      by (rule compiles_bind) (use b b_parts in \<open>auto intro!: compiles_ret simp del: sret_apply\<close>)
  qed
  have rest: "compiles (sbind (sfold ?step (get_includes q) (prog_scope (the_program q), [])) (\<lambda>(scope, incs).
      sbind (modify (\<lambda>g. g\<lparr>program_to_scope := omap_insert ?path scope (program_to_scope g)\<rparr>)) (\<lambda>_.
      sret (Program (with_scope scope (the_program q)) incs)))) tree_wf" if q: "tree_wf q" for q
  proof (rule compiles_bind [OF compiles_sfold [where R = ?good]])
    fix scope_incs
    assume "?good scope_incs"
    then show "compiles (case scope_incs of (scope, incs) \<Rightarrow>
      sbind (modify (\<lambda>g. g\<lparr>program_to_scope := omap_insert ?path scope (program_to_scope g)\<rparr>)) (\<lambda>_.
      sret (Program (with_scope scope (the_program q)) incs))) tree_wf"
      using q by (cases scope_incs)
        (auto intro!: compiles_bind [OF compiles_table] compiles_ret with_scope_wf simp: tree_wf_node [of q]
          tree_wf_node [of "Program _ _"] simp del: sret_apply)
  qed (use q step in \<open>auto simp: tree_wf_node [of q] program_wf_scope\<close>)
  have inclusion: "compiles (sbind (modify (\<lambda>g. g\<lparr>g_curdir := directory_name ?path, g_curpath := ?path\<rparr>)) (\<lambda>_.
      sbind (open_input ?H ?path) (\<lambda>contents.
      sbind (pverbose (''Scanning includes from '' @ ?path @ '' '' @ nl)) (\<lambda>_.
      sbind (parse_pass ?H INCLUDES contents [] (p, None)) (\<lambda>(q, _).
      sbind (sfold ?step (get_includes q) (prog_scope (the_program q), [])) (\<lambda>(scope, incs).
      sbind (modify (\<lambda>g. g\<lparr>program_to_scope := omap_insert ?path scope (program_to_scope g)\<rparr>)) (\<lambda>_.
      sret (Program (with_scope scope (the_program q)) incs)))))))) tree_wf"
    by (intro compiles_then keeps_table_modify keeps_table_open_input keeps_table_messages
        compiles_bind [OF compiles_parse_pass [where hp = False]])
       (use Suc.prems rest in auto)
  have first: "compiles (case omap_find (program_to_scope g) ?path of
      Some scope \<Rightarrow>
        sbind (pverbose (''Skipping recursion for parsed program '' @ ?path @ nl)) (\<lambda>_.
        sret (Program (with_scope scope (the_program p)) (get_includes p)))
    | None \<Rightarrow> sbind (modify (\<lambda>g. g\<lparr>g_curdir := directory_name ?path, g_curpath := ?path\<rparr>)) (\<lambda>_.
      sbind (open_input ?H ?path) (\<lambda>contents.
      sbind (pverbose (''Scanning includes from '' @ ?path @ '' '' @ nl)) (\<lambda>_.
      sbind (parse_pass ?H INCLUDES contents [] (p, None)) (\<lambda>(q, _).
      sbind (sfold ?step (get_includes q) (prog_scope (the_program q), [])) (\<lambda>(scope, incs).
      sbind (modify (\<lambda>g. g\<lparr>program_to_scope := omap_insert ?path scope (program_to_scope g)\<rparr>)) (\<lambda>_.
      sret (Program (with_scope scope (the_program q)) incs)))))))) tree_wf" if g: "tables_named g" for g
  proof (cases "omap_find (program_to_scope g) ?path")
    case None
    show ?thesis unfolding None option.case by (rule inclusion)
  next
    case (Some sc)
    then have "scope_named sc" using g by (auto simp: tables_named_def dest: omap_find_SomeD)
    then show ?thesis
      unfolding Some option.case using Suc.prems(1)
      by (intro compiles_then keeps_table_messages compiles_ret)
         (auto intro!: with_scope_wf simp: tree_wf_node [of p] tree_wf_node [of "Program _ _"])
  qed
  show ?case
    unfolding parse.simps Let_def
    by (intro compiles_get compiles_bind [OF first] compiles_then keeps_table_doctext keeps_table_modify
        keeps_table_open_input keeps_table_messages compiles_parse_pass)
       (use Suc.prems in auto)
qed

end
