(* ===== verification/ParseRuns.thy ===== *)
theory ParseRuns
  imports ParsedPrograms
begin

text \<open>
  The compiler with its own parser: the audit of parsed programs, and runs on small files, which
  are evaluated step by step with the rules of this theory.
\<close>

section \<open>Parsed programs\<close>

lemma fresh_parse_wf:
  assumes "tables_named g" "parse n (with_parser gens m h) (Program (new_program path) []) None g = (Inr (p, sc), g')"
  shows "tree_wf p \<and> tables_named g'"
  using parse_wf [of "Program (new_program path) []" None n gens m h] new_program_wf [of path] assms
  unfolding compiles_def by (fastforce simp: tree_wf_node [of "Program _ _"])

lemma no_tables_named: "program_to_scope g = [] \<Longrightarrow> tables_named g"
  by (simp add: tables_named_def)

text \<open>C5: Every program that the compiler parses, and every program it includes, is well formed: its
structs, exceptions, argument and throws lists have strictly ascending ids of 32 bits and distinct
field names, its functions have distinct names within their services and its types distinct names
within the file, its enum values fit 32 bits, and every field has a type with a name.\<close>

theorem parsed_programs_wf:
  assumes "program_to_scope g = []"
    and "parse n (with_parser gens m h) (Program (new_program path) []) None g = (Inr (p, sc), g')"
  shows "tree_wf p"
  using fresh_parse_wf [OF no_tables_named] assms by blast

text \<open>C10: A program that the compiler parsed is clean when audited against itself: no failure is latched
and only messages are added to the state.\<close>

theorem parsed_self_audit:
  assumes "program_to_scope g = []"
    and "parse n (with_parser gens m h) (Program (new_program path) []) None g = (Inr (p, sc), g')"
  shows "\<exists>out. compare_programs (the_program p) (the_program p) g'' = (Inr (), g''\<lparr>printed := printed g'' @ out\<rparr>)"
proof -
  have "program_wf (the_program p)"
    using fresh_parse_wf [OF no_tables_named [OF assms(1)] assms(2)] tree_wf_node by blast
  then show ?thesis using program_wf_audit self_audit_clean by blast
qed

section \<open>The audit of two files\<close>

text \<open>The search path with one more directory, if there is one.\<close>

definition add_searchpath :: "string list \<Rightarrow> string \<Rightarrow> globals \<Rightarrow> globals" where
  "add_searchpath dirs dir g = g\<lparr>g_incl_searchpath := dirs @ (if dir \<noteq> [] then [dir] else [])\<rparr>"

text \<open>C6: The audit of two files parses the old one and then the new one, each with its own search path
for includes, and latches the failure exit exactly for the breaking changes between them. The parsed
programs meet what the comparison needs, whatever the files contain.\<close>

theorem audit_verdict:
  assumes "program_to_scope g = []"
    and "audit n (with_parser gens m h) (Program (new_program new) []) (Program (new_program old) [])
           new_path old_path g = (Inr (), g')"
  shows "\<exists>oldp newp sc sc' g1 g2 out.
    parse n (with_parser gens m h) (Program (new_program old) []) None
      (add_searchpath (g_incl_searchpath g) old_path g) = (Inr (oldp, sc), g1) \<and>
    parse n (with_parser gens m h) (Program (new_program new) []) None
      (add_searchpath (g_incl_searchpath g) new_path g1) = (Inr (newp, sc'), g2) \<and>
    g' = g2\<lparr>printed := printed g2 @ out,
            g_return_failure := g_return_failure g2 \<or> program_breaks (the_program newp) (the_program oldp)\<rparr>"
proof -
  let ?H = "with_parser gens m h" and ?sp = "g_incl_searchpath g"
  have add: "(if dir \<noteq> [] then modify (\<lambda>g. g\<lparr>g_incl_searchpath := g_incl_searchpath g @ [dir]\<rparr>) else sret ()) k =
      (Inr (), add_searchpath (g_incl_searchpath k) dir k)" for dir k
    by (simp add: add_searchpath_def)
  let ?second = "\<lambda>oldp. sbind (modify (\<lambda>g. g\<lparr>g_incl_searchpath := ?sp\<rparr>)) (\<lambda>_.
     sbind (if new_path \<noteq> [] then modify (\<lambda>g. g\<lparr>g_incl_searchpath := g_incl_searchpath g @ [new_path]\<rparr>) else sret ()) (\<lambda>_.
     sbind (parse n ?H (Program (new_program new) []) None) (\<lambda>(newp, _).
     compare_programs (the_program newp) (the_program oldp))))"
  have "sbind (parse n ?H (Program (new_program old) []) None) (\<lambda>(oldp, _). ?second oldp)
      (add_searchpath ?sp old_path g) = (Inr (), g')"
    using assms(2) unfolding audit_def Let_def sbind_sget sbind_returns [OF add] .
  then obtain oldp sc g1
    where old: "parse n ?H (Program (new_program old) []) None (add_searchpath ?sp old_path g) = (Inr (oldp, sc), g1)"
      and second: "?second oldp g1 = (Inr (), g')"
    unfolding sbind_eq_Inr [of "parse n ?H (Program (new_program old) []) None"] by (auto simp only: prod.case split_paired_Ex)
  have "add_searchpath (g_incl_searchpath (g1\<lparr>g_incl_searchpath := ?sp\<rparr>)) new_path (g1\<lparr>g_incl_searchpath := ?sp\<rparr>) =
      add_searchpath ?sp new_path g1"
    by (simp add: add_searchpath_def)
  then have "sbind (parse n ?H (Program (new_program new) []) None) (\<lambda>(newp, _).
     compare_programs (the_program newp) (the_program oldp)) (add_searchpath ?sp new_path g1) = (Inr (), g')"
    using second unfolding sbind_modify sbind_returns [OF add] by simp
  then obtain newp sc' g2
    where new: "parse n ?H (Program (new_program new) []) None (add_searchpath ?sp new_path g1) = (Inr (newp, sc'), g2)"
      and cmp: "compare_programs (the_program newp) (the_program oldp) g2 = (Inr (), g')"
    unfolding sbind_eq_Inr [of "parse n ?H (Program (new_program new) []) None"] by (auto simp only: prod.case split_paired_Ex)
  have "tree_wf oldp \<and> tables_named g1"
    using fresh_parse_wf [OF _ old] assms(1) by (simp add: no_tables_named add_searchpath_def)
  moreover from this have "tree_wf newp"
    using fresh_parse_wf [OF _ new] by (simp add: tables_named_def add_searchpath_def)
  ultimately have "auditable (the_program newp)" "auditable (the_program oldp)"
    using tree_wf_node program_wf_audit(1) by blast+
  from compare_programs_audits [OF this] cmp obtain out where
    "g' = g2\<lparr>printed := printed g2 @ out,
             g_return_failure := g_return_failure g2 \<or> program_breaks (the_program newp) (the_program oldp)\<rparr>"
    unfolding audits_def by (metis Pair_inject)
  then show ?thesis using old new by blast
qed

section \<open>Evaluation\<close>

text \<open>Three files, the tokens they are scanned into, and the rules that evaluate a parse.\<close>

definition sample_file :: "string \<Rightarrow> string option" where
  "sample_file f =
     (if f = ''/old.thrift'' then Some ''struct P{1:i32 a}''
      else if f = ''/new.thrift'' then Some ''struct P{}''
      else if f = ''/t.thrift'' then Some ''typedef A A'' else None)"

definition sample_host :: host where
  "sample_host = \<lparr>realpath = \<lambda>f. None, stat = \<lambda>f. Inl [], fopen = sample_file, yyparse = \<lambda>_ _ _ _. sraise Undefined,
     get_generator = \<lambda>p s. Inr None, generator_docs = [], THRIFT_VERSION = []\<rparr>"

lemma sample_tokens:
  "best_rule lex_rules ''struct P{1:i32 a}'' = Some (6, Return tok_struct)"
  "best_rule lex_rules '' P{1:i32 a}'' = Some (1, Ignore)"
  "best_rule lex_rules ''P{1:i32 a}'' = Some (1, Identifier)"
  "best_rule lex_rules ''{1:i32 a}'' = Some (1, ReturnChar)"
  "best_rule lex_rules ''1:i32 a}'' = Some (1, IntConstant)"
  "best_rule lex_rules '':i32 a}'' = Some (1, ReturnChar)"
  "best_rule lex_rules ''i32 a}'' = Some (3, Return tok_i32)"
  "best_rule lex_rules '' a}'' = Some (1, Ignore)"
  "best_rule lex_rules ''a}'' = Some (1, Identifier)"
  "best_rule lex_rules ''}'' = Some (1, ReturnChar)"
  "best_rule lex_rules ''struct P{}'' = Some (6, Return tok_struct)"
  "best_rule lex_rules '' P{}'' = Some (1, Ignore)"
  "best_rule lex_rules ''P{}'' = Some (1, Identifier)"
  "best_rule lex_rules ''{}'' = Some (1, ReturnChar)"
  "best_rule lex_rules ''typedef A A'' = Some (7, Return tok_typedef)"
  "best_rule lex_rules '' A A'' = Some (1, Ignore)"
  "best_rule lex_rules ''A A'' = Some (1, Identifier)"
  "best_rule lex_rules '' A'' = Some (1, Ignore)"
  "best_rule lex_rules ''A'' = Some (1, Identifier)"
  by code_simp+

lemmas sample_yylex = sample_tokens [THEN yylex_step [rotated, of _ _ _ mode for mode], simplified]

lemma yylex_end: "yylex mode [] = sbind (modify (\<lambda>g. g\<lparr>yytext := []\<rparr>)) (\<lambda>_. sret (tok_eof, []))"
  by (simp add: yylex.simps)

text \<open>The first part of a computation is evaluated before the rest is looked at.\<close>

lemma sbind_first_cong: "m = m' \<Longrightarrow> sbind m f = sbind m' f"
  by simp

lemma sbind_nested: "sbind (sbind m f) g s = sbind m (\<lambda>x. sbind (f x) g) s"
  by (auto simp: sbind_def split: prod.split sum.split)

lemma sbind_run_comp:
  "sbind (run_comp m) f s =
     (case m (ps_globals s) of
        (Inl e, g) \<Rightarrow> (Inl (Failed e), s\<lparr>ps_globals := g\<rparr>) | (Inr x, g) \<Rightarrow> f x (s\<lparr>ps_globals := g\<rparr>))"
  by (auto simp: sbind_def run_comp_def split: prod.split sum.split)

lemma run_assignments:
  "sbind (set_field_val v) f s = f () (s\<lparr>y_field_val := v\<rparr>)"
  "sbind (set_program p) f s = f () (s\<lparr>ps_program := p\<rparr>)" "set_program p s = (Inr (), s\<lparr>ps_program := p\<rparr>)"
  by (simp_all add: sbind_def set_field_val_def set_program_def)

lemma run_pass:
  "sbind (parse_pass (with_parser gens n h) mode contents prefix st) f g =
     (case parse_pass (with_parser gens n h) mode contents prefix st g of
        (Inl e, g') \<Rightarrow> (Inl e, g') | (Inr x, g') \<Rightarrow> f x g')"
  "parse_pass (with_parser gens n h) mode contents prefix st g =
     (case thrift_yyparse gens n h mode contents prefix st (g\<lparr>yylineno := 1\<rparr>) of
        (Inl (Throw x), g') \<Rightarrow> failure x g'
      | (Inl e, g') \<Rightarrow> (Inl e, g')
      | (Inr (status, st'), g') \<Rightarrow>
          if status \<noteq> 0
          then failure (''Parser error during '' @ (case mode of INCLUDES \<Rightarrow> ''include'' | PROGRAM \<Rightarrow> ''types'')
                 @ '' pass.'') g'
          else (Inr st', g'))"
  by (simp_all add: sbind_def parse_pass_def with_parser_def)

lemma sample_parts:
  "fopen (with_parser gens n sample_host) f = sample_file f"
  "validate_simple_identifier ''P'' = Inr ()" "validate_simple_identifier ''a'' = Inr ()"
  "validate_simple_identifier ''A'' = Inr ()" "strtoll_10 ''1'' = Some 1" "to_int32 1 = 1"
  "directory_name ''/old.thrift'' = []" "program_name ''/old.thrift'' = ''old''"
  "directory_name ''/new.thrift'' = []" "program_name ''/new.thrift'' = ''new''"
  "directory_name ''/t.thrift'' = []" "program_name ''/t.thrift'' = ''t''"
  "skip_utf8_bom ''struct P{1:i32 a}'' = (False, ''struct P{1:i32 a}'')"
  "skip_utf8_bom ''struct P{}'' = (False, ''struct P{}'')"
  "skip_utf8_bom ''typedef A A'' = (False, ''typedef A A'')"
  by (simp add: with_parser_def sample_host_def, code_simp+)

lemmas run_rules =
  sbind_nested sbind_run_comp run_assignments run_pass run_comp_def run_log_def run_result_def print_log_def
  sample_yylex yylex_end sample_parts sample_file_def lex_return_def begin_action_def count_lines_def
  debug_def pdebug_def peek_def shift_def expect_identifier_def expect_def optional_def
  CommaOrSemicolonOptional_def CaptureDocText_def doc_if_def simple_identifier_def TypeAnnotations_def
  in_scope_def in_parent_scope_def update_program_def add_symbol_def own_path_def type_or_null_def Let_def

lemmas run_productions =
  Program_rule_def HeaderList_def DefinitionList_def DefinitionList_item_def Definition_def Struct_def
  Typedef_def FieldList_def FieldList_of_def FieldList_item_def empty_struct_def
  FieldIdentifier_def explicit_field_id_def FieldRequiredness_def BaseType_def named_type_def
  FieldValue_def XsdAttributes_def make_field_def check_field_id_def finish_struct_def define_type_def
  require_unique_def finish_program_def clear_doctext_def starts_definition_def start_state_def
  thrift_yyparse_def list_until.simps Field.simps FieldType.simps

lemmas run_driver =
  parse.simps open_input_def pverbose_def reset_program_doctext_info_def with_scope_def
  initial_globals_def new_program_def new_scope_def numeral_2_eq_2

lemmas run_tables =
  new_struct_def struct_append_def equal_range_def get_field_by_name_def validate_union_member_def
  set_union_def validate_union_members_def struct_set_name_def add_type_def get_type_def omap_index_def
  is_unique_typename_def program_typename_count_def collection_typename_count_def ref_name_def same_program_def
  add_struct_def add_typedef_def

lemma sample_parses:
  "case parse 2 (with_parser [] 5 sample_host) (Program (new_program ''/old.thrift'') []) None
         (add_searchpath [] [] initial_globals) of
     (Inr r, g1) \<Rightarrow>
       (case parse 2 (with_parser [] 5 sample_host) (Program (new_program ''/new.thrift'') []) None
               (add_searchpath [] [] g1) of
          (Inr r', g2) \<Rightarrow> True | (Inl e, g2) \<Rightarrow> False)
   | (Inl e, g1) \<Rightarrow> False"
  by (simp add: run_rules run_productions run_driver run_tables add_searchpath_def cong: sbind_first_cong)

lemma self_typedef_parses:
  "case parse 2 (with_parser [] 5 sample_host) (Program (new_program ''/t.thrift'') []) None initial_globals of
     (Inr (p, sc), g) \<Rightarrow> tree_scopes p ''/t.thrift'' ''A'' =
       Some (t_typedef ''/t.thrift'' ''A'' (Some (t_typedef ''/t.thrift'' ''A'' None)))
   | (Inl e, g) \<Rightarrow> False"
  by (simp add: run_rules run_productions run_driver run_tables tree_scopes_def cong: sbind_first_cong)

lemma old_file_parses:
  obtains p sc g g' sc' p' where
    "parse 2 (with_parser [] 5 sample_host) (Program (new_program ''/old.thrift'') []) None
       (add_searchpath [] [] initial_globals) = (Inr (p, sc), g)"
    "parse 2 (with_parser [] 5 sample_host) (Program (new_program ''/new.thrift'') []) None
       (add_searchpath [] [] g) = (Inr (p', sc'), g')"
  using sample_parses by (auto split: prod.splits sum.splits)

lemma no_tables: "program_to_scope (add_searchpath [] [] initial_globals) = []"
  by (simp add: add_searchpath_def initial_globals_def)

theorem parsed_programs_wf_witness:
  "case parse 2 (with_parser [] 5 sample_host) (Program (new_program ''/old.thrift'') []) None
          (add_searchpath [] [] initial_globals) of
     (Inr (p, sc), g) \<Rightarrow> tree_wf p | (Inl e, g) \<Rightarrow> False"
proof (rule old_file_parses)
  fix p sc g
  assume run: "parse 2 (with_parser [] 5 sample_host) (Program (new_program ''/old.thrift'') []) None
       (add_searchpath [] [] initial_globals) = (Inr (p, sc), g)"
  show ?thesis using parsed_programs_wf [OF no_tables run] by (simp add: run)
qed

theorem parsed_self_audit_witness:
  "case parse 2 (with_parser [] 5 sample_host) (Program (new_program ''/old.thrift'') []) None
          (add_searchpath [] [] initial_globals) of
     (Inr (p, sc), g) \<Rightarrow>
       (\<exists>out. compare_programs (the_program p) (the_program p) g = (Inr (), g\<lparr>printed := printed g @ out\<rparr>))
   | (Inl e, g) \<Rightarrow> False"
proof (rule old_file_parses)
  fix p sc g
  assume run: "parse 2 (with_parser [] 5 sample_host) (Program (new_program ''/old.thrift'') []) None
       (add_searchpath [] [] initial_globals) = (Inr (p, sc), g)"
  show ?thesis using parsed_self_audit [OF no_tables run, of g] by (simp add: run)
qed

lemma sample_audit_runs:
  "\<exists>g. audit 2 (with_parser [] 5 sample_host) (Program (new_program ''/new.thrift'') [])
     (Program (new_program ''/old.thrift'') []) [] [] (add_searchpath [] [] initial_globals) = (Inr (), g)"
proof (rule old_file_parses)
  fix p sc g p' sc' g'
  let ?H = "with_parser [] 5 sample_host"
  assume old: "parse 2 ?H (Program (new_program ''/old.thrift'') []) None (add_searchpath [] [] initial_globals) = (Inr (p, sc), g)"
    and new: "parse 2 ?H (Program (new_program ''/new.thrift'') []) None (add_searchpath [] [] g) = (Inr (p', sc'), g')"
  have wf: "tree_wf p \<and> tables_named g" using fresh_parse_wf [OF _ old] no_tables_named [OF no_tables] by blast
  then have "tree_wf p'" using fresh_parse_wf [OF _ new] by (simp add: tables_named_def add_searchpath_def)
  then obtain k where cmp: "compare_programs (the_program p') (the_program p) g' = (Inr (), k)"
    using wf compare_programs_audits [of "the_program p'" "the_program p"] tree_wf_node program_wf_audit(1)
    unfolding audits_def by metis
  have g: "g\<lparr>g_incl_searchpath := []\<rparr> = add_searchpath [] [] g" by (simp add: add_searchpath_def)
  have "g_incl_searchpath (add_searchpath [] [] initial_globals) = []" by (simp add: add_searchpath_def)
  then show ?thesis
    using cmp unfolding audit_def Let_def sbind_sget
    by (simp add: sbind_def old g new)
qed

theorem audit_verdict_witness:
  "\<exists>g' oldp newp sc sc' g1 g2 out.
    audit 2 (with_parser [] 5 sample_host) (Program (new_program ''/new.thrift'') [])
      (Program (new_program ''/old.thrift'') []) [] [] (add_searchpath [] [] initial_globals) = (Inr (), g') \<and>
    parse 2 (with_parser [] 5 sample_host) (Program (new_program ''/old.thrift'') []) None
      (add_searchpath [] [] (add_searchpath [] [] initial_globals)) = (Inr (oldp, sc), g1) \<and>
    parse 2 (with_parser [] 5 sample_host) (Program (new_program ''/new.thrift'') []) None
      (add_searchpath [] [] g1) = (Inr (newp, sc'), g2) \<and>
    g' = g2\<lparr>printed := printed g2 @ out,
            g_return_failure := g_return_failure g2 \<or> program_breaks (the_program newp) (the_program oldp)\<rparr>"
proof -
  obtain g where run: "audit 2 (with_parser [] 5 sample_host) (Program (new_program ''/new.thrift'') [])
     (Program (new_program ''/old.thrift'') []) [] [] (add_searchpath [] [] initial_globals) = (Inr (), g)"
    using sample_audit_runs by blast
  have "g_incl_searchpath (add_searchpath [] [] initial_globals) = []" by (simp add: add_searchpath_def)
  then show ?thesis using audit_verdict [OF no_tables run] run by auto
qed

section \<open>Circular typedefs\<close>

lemma self_typedef_endless:
  assumes "scopes path name = Some (t_typedef path name (Some (t_typedef path name None)))"
  shows "get_true_type n scopes (t_typedef path name None) = Inl Endless"
proof (induction n rule: less_induct)
  case (less n)
  show ?case
  proof (cases n)
    case 0
    then show ?thesis by simp
  next
    case (Suc k)
    have "get_true_type k scopes (t_typedef path name (Some (t_typedef path name None))) = Inl Endless"
      using less Suc by (cases k) (auto simp: typedef_get_type_def result_simps)
    then show ?thesis using Suc assms by (simp add: typedef_get_type_def result_simps)
  qed
qed


end
