(* ===== verification/RubyValue.thy ===== *)
theory RubyValue
  imports Prelude
begin

text \<open>
  The data of the native extension \<^verbatim>\<open>ext/\<close>: Thrift type ids with their names
  (\<^verbatim>\<open>ext/serializer.h\<close>), Ruby values as the serializer sees them, its exceptions, and
  the conversions from Ruby integers and floats to wire words (the macros and
  \<^verbatim>\<open>byte_convert\<close> of \<^verbatim>\<open>ext/serializer.cpp\<close>).
\<close>

section \<open>Thrift type ids\<close>

text \<open>
  \<^verbatim>\<open>TType\<close> is an enum with an integer representation; \<open>T_UNKNOWN n\<close> stands for
  the values that name no type, which a cast or a malformed message can produce.
\<close>

datatype ttype =
  T_STOP | T_VOID | T_BOOL | T_BYTE | T_DOUBLE | T_I16 | T_I32 | T_U64 | T_I64
| T_STRING | T_STRUCT | T_MAP | T_SET | T_LIST | T_UTF8 | T_UTF16 | T_UNKNOWN int

fun ttype_id :: "ttype \<Rightarrow> int" where
  "ttype_id T_STOP = 0"
| "ttype_id T_VOID = 1"
| "ttype_id T_BOOL = 2"
| "ttype_id T_BYTE = 3"
| "ttype_id T_DOUBLE = 4"
| "ttype_id T_I16 = 6"
| "ttype_id T_I32 = 8"
| "ttype_id T_U64 = 9"
| "ttype_id T_I64 = 10"
| "ttype_id T_STRING = 11"
| "ttype_id T_STRUCT = 12"
| "ttype_id T_MAP = 13"
| "ttype_id T_SET = 14"
| "ttype_id T_LIST = 15"
| "ttype_id T_UTF8 = 16"
| "ttype_id T_UTF16 = 17"
| "ttype_id (T_UNKNOWN n) = n"

text \<open>\<^verbatim>\<open>static_cast<TType>\<close>.\<close>

definition ttype_of_id :: "int \<Rightarrow> ttype" where
  "ttype_of_id n =
     (case find (\<lambda>t. ttype_id t = n)
        [T_STOP, T_VOID, T_BOOL, T_BYTE, T_DOUBLE, T_I16, T_I32, T_U64, T_I64,
         T_STRING, T_STRUCT, T_MAP, T_SET, T_LIST, T_UTF8, T_UTF16] of
        Some t \<Rightarrow> t
      | None \<Rightarrow> T_UNKNOWN n)"

definition TTypeNames :: "string list" where
  "TTypeNames =
     [''T_STOP'', ''T_VOID'', ''T_BOOL'', ''T_BYTE or T_I08'',
      ''T_DOUBLE'', ''T_UNKNOWN'', ''T_I16'', ''T_UNKNOWN'',
      ''T_I32'', ''T_U64'', ''T_I64'', ''T_STRING or T_UTF7'',
      ''T_STRUCT'', ''T_MAP'', ''T_SET'', ''T_LIST'',
      ''T_UTF8'', ''T_UTF16'']"

text \<open>
  \<^verbatim>\<open>TTypeName\<close>; the callers cast to \<^verbatim>\<open>size_t\<close>, so a negative id is past the
  end of the table.
\<close>

definition TTypeName :: "int \<Rightarrow> string" where
  "TTypeName n =
     (if 0 \<le> n \<and> nat n < length TTypeNames then TTypeNames ! nat n else ''T_UNKNOWN'')"

lemma ttype_id_of_id [simp]: "ttype_id (ttype_of_id n) = n"
proof (cases "find (\<lambda>t. ttype_id t = n)
        [T_STOP, T_VOID, T_BOOL, T_BYTE, T_DOUBLE, T_I16, T_I32, T_U64, T_I64,
         T_STRING, T_STRUCT, T_MAP, T_SET, T_LIST, T_UTF8, T_UTF16]")
  case None
  then show ?thesis by (simp add: ttype_of_id_def)
next
  case (Some t)
  then have "ttype_id t = n" by (metis (mono_tags, lifting) find_Some_iff)
  then show ?thesis using Some by (simp add: ttype_of_id_def)
qed

section \<open>Ruby values\<close>

type_synonym klass = string
type_synonym ivar = string
type_synonym sym = string

datatype encoding = UTF8 | ASCII_8BIT | OtherEncoding

text \<open>
  An object carries its real class (singleton classes skipped, as \<^verbatim>\<open>rb_class_real\<close>
  does) and its instance variables; \<open>RClass\<close> is a class object and \<open>ROther\<close> a value of
  any class the serializer has no case for. \<open>RSet\<close> is an instance of exactly \<^verbatim>\<open>Set\<close>. Floats are their 64 bits,
  bytes are \<^typ>\<open>char\<close>s.
\<close>

datatype rvalue =
  RNil
| RBool bool
| RInt int
| RFloat "64 word"
| RStr encoding string
| RSym sym
| RArray "rvalue list"
| RSet "rvalue list"
| RHash "(rvalue \<times> rvalue) list"
| RObj klass "(ivar \<times> rvalue) list"
| RClass klass
| ROther klass

definition NIL_P :: "rvalue \<Rightarrow> bool" where
  "NIL_P v \<longleftrightarrow> v = RNil"

text \<open>The name of \<^verbatim>\<open>CLASS_OF(v)\<close>.\<close>

fun class_name :: "rvalue \<Rightarrow> klass" where
  "class_name RNil = ''NilClass''"
| "class_name (RBool b) = (if b then ''TrueClass'' else ''FalseClass'')"
| "class_name (RInt i) = ''Integer''"
| "class_name (RFloat d) = ''Float''"
| "class_name (RStr e s) = ''String''"
| "class_name (RSym s) = ''Symbol''"
| "class_name (RArray vs) = ''Array''"
| "class_name (RSet vs) = ''Set''"
| "class_name (RHash kvs) = ''Hash''"
| "class_name (RObj k ivs) = k"
| "class_name (RClass k) = ''Class''"
| "class_name (ROther k) = k"

text \<open>\<^verbatim>\<open>rb_ivar_get\<close> gives nil for a variable that is not set.\<close>

fun rb_ivar_get :: "rvalue \<Rightarrow> ivar \<Rightarrow> rvalue" where
  "rb_ivar_get (RObj k ivs) i = (case map_of ivs i of None \<Rightarrow> RNil | Some v \<Rightarrow> v)"
| "rb_ivar_get _ i = RNil"

fun ivar_update :: "(ivar \<times> rvalue) list \<Rightarrow> ivar \<Rightarrow> rvalue \<Rightarrow> (ivar \<times> rvalue) list" where
  "ivar_update [] i v = [(i, v)]"
| "ivar_update ((j, w) # ivs) i v = (if j = i then (i, v) # ivs else (j, w) # ivar_update ivs i v)"

fun rb_ivar_set :: "rvalue \<Rightarrow> ivar \<Rightarrow> rvalue \<Rightarrow> rvalue" where
  "rb_ivar_set (RObj k ivs) i v = RObj k (ivar_update ivs i v)"
| "rb_ivar_set obj i v = obj"

lemma map_of_ivar_update: "map_of (ivar_update ivs i v) = (map_of ivs)(i \<mapsto> v)"
  by (induction ivs i v rule: ivar_update.induct) auto

lemma rb_ivar_get_set [simp]:
  "rb_ivar_get (rb_ivar_set (RObj k ivs) i v) j = (if j = i then v else rb_ivar_get (RObj k ivs) j)"
  by (simp add: map_of_ivar_update)

lemma rb_ivar_get_smaller: "rb_ivar_get obj i \<noteq> RNil \<Longrightarrow> size (rb_ivar_get obj i) < size obj"
proof (cases obj)
  case (RObj k ivs)
  assume "rb_ivar_get obj i \<noteq> RNil"
  then obtain v where v: "map_of ivs i = Some v"
    using RObj by (auto split: option.splits)
  have "size v < Suc (size_list (\<lambda>p. Suc (size (snd p))) ivs)"
    using map_of_SomeD [OF v] by (induction ivs) auto
  moreover have "size_list (\<lambda>p. Suc (size (snd p))) ivs \<le> size_list (size_prod (\<lambda>_. 0) size) ivs"
    by (induction ivs) auto
  ultimately show ?thesis using RObj v by simp
qed auto

section \<open>Exceptions\<close>

text \<open>
  The Ruby exceptions the extension raises, the C++ exception of the Thrift library in
  flight (\<open>TException\<close>, turned into \<open>NativeError\<close> at the entry points), the uses of a
  null pointer or missing class that C++ leaves undefined (\<open>NullDeref\<close>), and the end of
  the fuel of the reader's loops.
\<close>

datatype rberror =
  MissingMandatory string klass string
| TypeMismatch string klass string
| UnionException string
| UnknownTypeException string
| RangeError string
| NativeError string
| RubyError string
| TException string
| NullDeref
| OutOfFuel

text \<open>\<^verbatim>\<open>raise_exc_with_struct_and_field_names\<close>.\<close>

definition with_names ::
  "(string \<Rightarrow> klass \<Rightarrow> string \<Rightarrow> rberror) \<Rightarrow> string \<Rightarrow> klass \<Rightarrow> sym option \<Rightarrow> rberror" where
  "with_names exc_class msg_prefix struct_name field_sym =
     (case field_sym of
        None \<Rightarrow> NullDeref
      | Some field_name \<Rightarrow>
          exc_class (msg_prefix @ '' (in '' @ struct_name @ ''#'' @ field_name @ '')'')
            struct_name field_name)"

definition raise_type_mismatch :: "rvalue \<Rightarrow> sym option \<Rightarrow> string \<Rightarrow> rvalue \<Rightarrow> rberror" where
  "raise_type_mismatch outer_struct field_sym expected actual =
     with_names TypeMismatch
       (''Mismatched type (expected to be compatible with: '' @ expected @ '', found: ''
          @ class_name actual @ '')'')
       (class_name outer_struct) field_sym"

definition raise_type_mismatch_ttype :: "rvalue \<Rightarrow> sym option \<Rightarrow> int \<Rightarrow> rvalue \<Rightarrow> rberror" where
  "raise_type_mismatch_ttype outer_struct field_sym ttype actual =
     raise_type_mismatch outer_struct field_sym (TTypeName ttype) actual"

text \<open>
  \<^verbatim>\<open>SPARSAM_CHECK_TYPE\<close> passes the Ruby type tag, not the Thrift type id, to the same
  function: these are the tags of \<^verbatim>\<open>ruby.h\<close>.
\<close>

definition ruby_T_STRING :: int where "ruby_T_STRING = 5"

definition ruby_T_ARRAY :: int where "ruby_T_ARRAY = 7"

definition ruby_T_HASH :: int where "ruby_T_HASH = 8"

section \<open>Integer conversions\<close>

text \<open>Fixnums are the 63-bit integers of a 64-bit Ruby; other integers are Bignums.\<close>

definition FIXNUM_P :: "int \<Rightarrow> bool" where
  "FIXNUM_P i \<longleftrightarrow> - (2 ^ 62) \<le> i \<and> i < 2 ^ 62"

definition in_signed :: "nat \<Rightarrow> int \<Rightarrow> bool" where
  "in_signed w i \<longleftrightarrow> - (2 ^ (w - 1)) \<le> i \<and> i < 2 ^ (w - 1)"

text \<open>\<^verbatim>\<open>FIX2INT\<close> and \<^verbatim>\<open>FIX2SHORT\<close> check the range and raise.\<close>

definition FIX2INT :: "int \<Rightarrow> rberror + 32 word" where
  "FIX2INT i =
     (if in_signed 32 i then Inr (word_of_int i)
      else Inl (RangeError (''integer '' @ show_int i @ '' too big to convert to `int'' @ [CHR 0x27])))"

definition SHORT_CONVERT :: "int \<Rightarrow> rberror + 16 word" where
  "SHORT_CONVERT i =
     (if in_signed 16 i then Inr (word_of_int i)
      else Inl (RangeError (''integer '' @ show_int i @ '' too big to convert to `short'' @ [CHR 0x27])))"

definition byte_convert :: "int \<Rightarrow> rberror + 8 word" where
  "byte_convert i =
     rbind (SHORT_CONVERT i) (\<lambda>s.
       if sint s \<le> 127 \<and> - 128 \<le> sint s then Inr (scast s)
       else Inl (RangeError (''integer '' @ show_int (sint s) @ '' out of range for char'')))"

definition rb_big2ll :: "int \<Rightarrow> rberror + 64 word" where
  "rb_big2ll i =
     (if in_signed 64 i then Inr (word_of_int i)
      else Inl (RangeError (''bignum too big to convert into `long long'' @ [CHR 0x27])))"

definition CONVERT_FIXNUM ::
  "(int \<Rightarrow> rberror + 'w) \<Rightarrow> ttype \<Rightarrow> rvalue \<Rightarrow> rvalue \<Rightarrow> sym option \<Rightarrow> rberror + 'w" where
  "CONVERT_FIXNUM CONVERT INTENDED actual outer_struct field_sym =
     (case actual of
        RInt i \<Rightarrow> (if FIXNUM_P i then CONVERT i
                   else Inl (RangeError ''bignum too big to convert''))
      | _ \<Rightarrow> Inl (raise_type_mismatch_ttype outer_struct field_sym (ttype_id INTENDED) actual))"

definition CONVERT_I64 :: "rvalue \<Rightarrow> rvalue \<Rightarrow> sym option \<Rightarrow> rberror + 64 word" where
  "CONVERT_I64 actual outer_struct field_sym =
     (case actual of
        RInt i \<Rightarrow> (if FIXNUM_P i then Inr (word_of_int i) else rb_big2ll i)
      | _ \<Rightarrow> Inl (raise_type_mismatch_ttype outer_struct field_sym (ttype_id T_I64) actual))"

definition CONVERT_FLOAT :: "rvalue \<Rightarrow> rvalue \<Rightarrow> sym option \<Rightarrow> rberror + 64 word" where
  "CONVERT_FLOAT actual outer_struct field_sym =
     (case actual of
        RFloat d \<Rightarrow> Inr d
      | _ \<Rightarrow> Inl (raise_type_mismatch_ttype outer_struct field_sym (ttype_id T_DOUBLE) actual))"

definition convertBool :: "rvalue \<Rightarrow> rvalue \<Rightarrow> sym option \<Rightarrow> rberror + bool" where
  "convertBool actual outer_struct field_sym =
     (case actual of
        RBool b \<Rightarrow> Inr b
      | _ \<Rightarrow> Inl (raise_type_mismatch_ttype outer_struct field_sym (ttype_id T_BOOL) actual))"

lemma sint_of_in_signed: "in_signed LENGTH('w) i \<Longrightarrow> sint (word_of_int i :: 'w::len word) = i"
  by (simp add: in_signed_def sint_sbintrunc' signed_take_bit_int_eq_self)

lemma in_signed_sint: "in_signed LENGTH('w) (sint (w :: 'w::len word))"
  using sint_greater_eq [of w] sint_less [of w] by (simp add: in_signed_def)

lemma in_signed_mono: "in_signed v i \<Longrightarrow> v \<le> w \<Longrightarrow> in_signed w i"
proof -
  assume "in_signed v i" and "v \<le> w"
  then have "(2::int) ^ (v - 1) \<le> 2 ^ (w - 1)" by (intro power_increasing) simp_all
  then show "in_signed w i"
    using \<open>in_signed v i\<close> unfolding in_signed_def by linarith
qed

lemma SHORT_CONVERT_Inr: "SHORT_CONVERT i = Inr w \<longleftrightarrow> in_signed 16 i \<and> w = word_of_int i"
  by (auto simp: SHORT_CONVERT_def)

lemma FIX2INT_Inr: "FIX2INT i = Inr w \<longleftrightarrow> in_signed 32 i \<and> w = word_of_int i"
  by (auto simp: FIX2INT_def)

lemma byte_convert_Inr: "byte_convert i = Inr w \<longleftrightarrow> in_signed 8 i \<and> w = word_of_int i"
proof
  assume "byte_convert i = Inr w"
  then have i: "in_signed 16 i" and r: "sint (word_of_int i :: 16 word) \<le> 127"
    "- 128 \<le> sint (word_of_int i :: 16 word)" and w: "w = scast (word_of_int i :: 16 word)"
    by (auto simp: byte_convert_def result_simps SHORT_CONVERT_Inr split: if_splits)
  have s: "sint (word_of_int i :: 16 word) = i"
    using i by (simp add: sint_of_in_signed)
  then have "w = word_of_int i" using w by (simp add: scast_eq)
  moreover have "in_signed 8 i" using r s by (simp add: in_signed_def)
  ultimately show "in_signed 8 i \<and> w = word_of_int i" by simp
next
  assume "in_signed 8 i \<and> w = word_of_int i"
  then have i: "in_signed 8 i" and w: "w = word_of_int i" by simp_all
  have i16: "in_signed 16 i" using in_signed_mono [OF i] by simp
  then have s: "sint (word_of_int i :: 16 word) = i" by (simp add: sint_of_in_signed)
  show "byte_convert i = Inr w"
    using i i16 s w by (simp add: byte_convert_def SHORT_CONVERT_def scast_eq) (simp add: in_signed_def)
qed

lemma CONVERT_FIXNUM_Inr:
  "CONVERT_FIXNUM cv t v outer fsym = Inr w \<longleftrightarrow> (\<exists>i. v = RInt i \<and> FIXNUM_P i \<and> cv i = Inr w)"
  by (auto simp: CONVERT_FIXNUM_def split: rvalue.splits)

lemma CONVERT_I64_Inr:
  "CONVERT_I64 v outer fsym = Inr w \<longleftrightarrow> (\<exists>i. v = RInt i \<and> in_signed 64 i \<and> w = word_of_int i)"
  by (auto simp: CONVERT_I64_def rb_big2ll_def FIXNUM_P_def in_signed_def split: rvalue.splits)

lemma CONVERT_FLOAT_Inr: "CONVERT_FLOAT v outer fsym = Inr d \<longleftrightarrow> v = RFloat d"
  by (auto simp: CONVERT_FLOAT_def split: rvalue.splits)

lemma convertBool_Inr: "convertBool v outer fsym = Inr b \<longleftrightarrow> v = RBool b"
  by (auto simp: convertBool_def split: rvalue.splits)

lemmas convert_Inr = SHORT_CONVERT_Inr FIX2INT_Inr byte_convert_Inr CONVERT_FIXNUM_Inr
  CONVERT_I64_Inr CONVERT_FLOAT_Inr convertBool_Inr

end
