(* ===== verification/FieldCache.thy ===== *)
theory FieldCache
  imports RubyValue
begin

text \<open>
  The field tables of the native extension (\<^verbatim>\<open>ext/serializer.cpp\<close>, last part): how the
  Ruby constant \<^verbatim>\<open>FIELDS\<close> of a class becomes a \<^verbatim>\<open>FieldInfoMap\<close>, the cache of these
  maps and the set of union classes, and the set-up of a serializer object
  (\<^verbatim>\<open>ext/ruby_hooks.c\<close>).
\<close>

section \<open>The Ruby runtime\<close>

text \<open>
  What the extension asks the interpreter, whose code is not part of the program: the
  constant \<^verbatim>\<open>FIELDS\<close> of a class, whether a class inherits from \<^verbatim>\<open>Sparsam::Union\<close>,
  \<^verbatim>\<open>new\<close> without arguments, the \<^verbatim>\<open>eql?\<close> of hash keys and the conversion of
  values that are no Integers to \<^verbatim>\<open>int\<close>.
\<close>

record ruby_env =
  FIELDS :: "klass \<Rightarrow> rvalue option"
  inherits_union :: "klass \<Rightarrow> bool"
  new_instance :: "klass \<Rightarrow> rberror + rvalue"
  key_eql :: "rvalue \<Rightarrow> rvalue \<Rightarrow> bool"
  num2int :: "rvalue \<Rightarrow> rberror + 32 word"

definition RTEST :: "rvalue \<Rightarrow> bool" where
  "RTEST v \<longleftrightarrow> v \<noteq> RNil \<and> v \<noteq> RBool False"

text \<open>
  \<^verbatim>\<open>rb_hash_aref\<close> with a symbol as key; on anything but a hash it reads memory that is
  no hash.
\<close>

definition rb_hash_aref :: "rvalue \<Rightarrow> sym \<Rightarrow> rberror + rvalue" where
  "rb_hash_aref h s =
     (case h of
        RHash kvs \<Rightarrow> Inr (case map_of kvs (RSym s) of None \<Rightarrow> RNil | Some v \<Rightarrow> v)
      | _ \<Rightarrow> Inl NullDeref)"

text \<open>\<^verbatim>\<open>FIX2INT\<close> of any value: \<^verbatim>\<open>rb_num2int\<close> takes those that are no Fixnums.\<close>

definition VALUE2INT :: "ruby_env \<Rightarrow> rvalue \<Rightarrow> rberror + 32 word" where
  "VALUE2INT E v = (case v of RInt i \<Rightarrow> FIX2INT i | _ \<Rightarrow> num2int E v)"

section \<open>Field tables\<close>

text \<open>
  \<^verbatim>\<open>FieldInfo\<close>; \<open>None\<close> is the null pointer or the zero that \<^verbatim>\<open>new FieldInfo()\<close>
  leaves. A \<^verbatim>\<open>klass\<close> that is not a class object is \<open>None\<close> as well.
\<close>

datatype FieldInfo = FieldInfo
  (ftype: ttype)
  (field_klass: "klass option")
  (ivarName: "ivar option")
  (symName: "sym option")
  (isOptional: bool)
  (isBinaryString: bool)
  (elementType: "FieldInfo option")
  (keyType: "FieldInfo option")

type_synonym FieldID = int
type_synonym FieldInfoMap = "(FieldID \<times> FieldInfo) list"

text \<open>\<^verbatim>\<open>R_FIX_TO_TTYPE\<close>.\<close>

definition R_FIX_TO_TTYPE :: "ruby_env \<Rightarrow> rvalue \<Rightarrow> rberror + ttype" where
  "R_FIX_TO_TTYPE E v = rbind (VALUE2INT E v) (\<lambda>w. Inr (ttype_of_id (sint w)))"

definition field_name_to_ivar_id :: "rvalue \<Rightarrow> rberror + ivar option" where
  "field_name_to_ivar_id str_name =
     (case str_name of
        RNil \<Rightarrow> Inr None
      | RStr e s \<Rightarrow> Inr (Some (''@'' @ s))
      | _ \<Rightarrow> Inl (RubyError ''TypeError''))"

definition field_name_to_sym :: "rvalue \<Rightarrow> rberror + sym option" where
  "field_name_to_sym str_name =
     (case str_name of
        RNil \<Rightarrow> Inr None
      | RStr e s \<Rightarrow> Inr (Some s)
      | _ \<Rightarrow> Inl (RubyError ''TypeError''))"

definition class_object :: "rvalue \<Rightarrow> klass option" where
  "class_object v = (case v of RClass k \<Rightarrow> Some k | _ \<Rightarrow> None)"

lemma rb_hash_aref_smaller:
  "rb_hash_aref h s = Inr v \<Longrightarrow> v \<noteq> RNil \<Longrightarrow> size v < size h"
proof (cases h)
  case (RHash kvs)
  assume "rb_hash_aref h s = Inr v" and "v \<noteq> RNil"
  then have "(RSym s, v) \<in> set kvs"
    using RHash by (auto simp: rb_hash_aref_def map_of_SomeD split: option.splits)
  then have "size v < Suc (size_list (size_prod size size) kvs)"
    by (induction kvs) auto
  then show ?thesis using RHash by simp
qed (auto simp: rb_hash_aref_def)

text \<open>
  The recursion follows the nested hashes. A nested entry that is missing is nil, on which
  \<^verbatim>\<open>rb_hash_aref\<close> is undefined; it is the case tested first here, so that the
  recursive calls are on smaller values.
\<close>

function CreateFieldInfo :: "ruby_env \<Rightarrow> rvalue \<Rightarrow> rberror + FieldInfo" where
  "CreateFieldInfo E entry =
     (if NIL_P entry then Inl NullDeref else
      rbind (rb_hash_aref entry ''type'') (\<lambda>ty.
      rbind (R_FIX_TO_TTYPE E ty) (\<lambda>t.
      rbind (rb_hash_aref entry ''optional'') (\<lambda>opt.
      rbind (rb_hash_aref entry ''name'') (\<lambda>nm.
      rbind (field_name_to_ivar_id nm) (\<lambda>ivar.
      rbind (field_name_to_sym nm) (\<lambda>sym.
      (case t of
         T_STRING \<Rightarrow>
           rbind (rb_hash_aref entry ''binary'') (\<lambda>b.
           Inr (FieldInfo t None ivar sym (RTEST opt) (RTEST b) None None))
       | T_STRUCT \<Rightarrow>
           rbind (rb_hash_aref entry ''class'') (\<lambda>c.
           Inr (FieldInfo t (class_object c) ivar sym (RTEST opt) False None None))
       | T_LIST \<Rightarrow>
           rbind (rb_hash_aref entry ''element'') (\<lambda>el.
           rbind (CreateFieldInfo E el) (\<lambda>elem.
           Inr (FieldInfo t None ivar sym (RTEST opt) False (Some elem) None)))
       | T_SET \<Rightarrow>
           rbind (rb_hash_aref entry ''element'') (\<lambda>el.
           rbind (CreateFieldInfo E el) (\<lambda>elem.
           Inr (FieldInfo t None ivar sym (RTEST opt) False (Some elem) None)))
       | T_MAP \<Rightarrow>
           rbind (rb_hash_aref entry ''key'') (\<lambda>k.
           rbind (CreateFieldInfo E k) (\<lambda>key.
           rbind (rb_hash_aref entry ''value'') (\<lambda>v.
           rbind (CreateFieldInfo E v) (\<lambda>val.
           Inr (FieldInfo t None ivar sym (RTEST opt) False (Some val) (Some key))))))
       | _ \<Rightarrow> Inr (FieldInfo t None ivar sym (RTEST opt) False None None)))))))))"
  by pat_completeness auto
termination
proof (relation "measure (\<lambda>(E, v). if NIL_P v then 0 else Suc (size v))")
qed (auto simp: NIL_P_def dest: rb_hash_aref_smaller)

declare CreateFieldInfo.simps [simp del]

text \<open>
  The entries in the order of the Ruby hash; an id is narrowed to \<^verbatim>\<open>FieldID\<close>, an
  \<^verbatim>\<open>int16_t\<close>, when it becomes the key.
\<close>

definition FieldID_of :: "32 word \<Rightarrow> FieldID" where
  "FieldID_of w = sint (ucast w :: 16 word)"

definition CreateFieldInfoMap :: "ruby_env \<Rightarrow> klass \<Rightarrow> rberror + FieldInfoMap" where
  "CreateFieldInfoMap E klass =
     (case FIELDS E klass of
        None \<Rightarrow> Inl (RubyError ''NameError'')
      | Some (RHash kvs) \<Rightarrow>
          rfold (\<lambda>(k, v) fieldMap.
            rbind (VALUE2INT E k) (\<lambda>fid.
            rbind (CreateFieldInfo E v) (\<lambda>info.
            Inr (omap_insert (FieldID_of fid) info fieldMap)))) kvs []
      | Some _ \<Rightarrow> Inl NullDeref)"

section \<open>The cache\<close>

text \<open>
  The globals \<^verbatim>\<open>klassCache\<close> and \<^verbatim>\<open>unions\<close>, with the protocol object
  \<^verbatim>\<open>tprot\<close> of the serializer in use.
\<close>

record 'p sstate =
  klassCache :: "klass \<Rightarrow> FieldInfoMap option"
  unions :: "klass set"
  tprot :: 'p

definition FindOrCreateFieldInfoMap ::
  "ruby_env \<Rightarrow> klass \<Rightarrow> ('p sstate, rberror, FieldInfoMap) sexn" where
  "FindOrCreateFieldInfoMap E klass =
     sbind sget (\<lambda>st.
       case klassCache st klass of
         Some flds \<Rightarrow> sret flds
       | None \<Rightarrow>
           sbind (if inherits_union E klass then sput (st\<lparr>unions := insert klass (unions st)\<rparr>)
                  else sret ()) (\<lambda>_.
           sbind (slift (CreateFieldInfoMap E klass)) (\<lambda>flds.
           sbind sget (\<lambda>st'.
           sbind (sput (st'\<lparr>klassCache := (klassCache st')(klass \<mapsto> flds)\<rparr>)) (\<lambda>_.
           sret flds)))))"

definition cache_fields :: "ruby_env \<Rightarrow> klass \<Rightarrow> ('p sstate, rberror, rvalue) sexn" where
  "cache_fields E klass = sbind (FindOrCreateFieldInfoMap E klass) (\<lambda>_. sret RNil)"

text \<open>
  The cache invariant: a cached map is the map of its class, the union set holds only union
  classes, and a cached union class is in it.
\<close>

definition cache_ok :: "ruby_env \<Rightarrow> 'p sstate \<Rightarrow> bool" where
  "cache_ok E st \<longleftrightarrow>
     (\<forall>k m. klassCache st k = Some m \<longrightarrow>
        CreateFieldInfoMap E k = Inr m \<and> (inherits_union E k \<longrightarrow> k \<in> unions st)) \<and>
     (\<forall>k \<in> unions st. inherits_union E k)"

definition cache_le :: "'p sstate \<Rightarrow> 'p sstate \<Rightarrow> bool" where
  "cache_le st st' \<longleftrightarrow>
     (\<forall>k m. klassCache st k = Some m \<longrightarrow> klassCache st' k = Some m) \<and> unions st \<subseteq> unions st'"

lemma FindOrCreate_result:
  "cache_ok E st \<Longrightarrow> fst (FindOrCreateFieldInfoMap E klass st) = CreateFieldInfoMap E klass"
  by (cases "klassCache st klass"; cases "CreateFieldInfoMap E klass")
     (auto simp: FindOrCreateFieldInfoMap_def cache_ok_def sbind_def split: option.split)

lemma FindOrCreate_tprot: "tprot (snd (FindOrCreateFieldInfoMap E klass st)) = tprot st"
  by (cases "klassCache st klass"; cases "CreateFieldInfoMap E klass")
     (auto simp: FindOrCreateFieldInfoMap_def sbind_def split: option.split)

lemma FindOrCreate_cache_ok:
  "cache_ok E st \<Longrightarrow> cache_ok E (snd (FindOrCreateFieldInfoMap E klass st))"
  by (cases "klassCache st klass"; cases "CreateFieldInfoMap E klass")
     (auto simp: FindOrCreateFieldInfoMap_def cache_ok_def sbind_def split: option.split)

lemma FindOrCreate_cache_le: "cache_le st (snd (FindOrCreateFieldInfoMap E klass st))"
  by (cases "klassCache st klass"; cases "CreateFieldInfoMap E klass")
     (auto simp: FindOrCreateFieldInfoMap_def cache_le_def sbind_def split: option.split)

text \<open>With a sound cache the operation is the map of the class, and the state it leaves is \<open>loaded\<close>.\<close>

definition loaded :: "ruby_env \<Rightarrow> klass \<Rightarrow> 'p sstate \<Rightarrow> 'p sstate" where
  "loaded E klass st = snd (FindOrCreateFieldInfoMap E klass st)"

lemma FindOrCreate_loaded:
  "cache_ok E st \<Longrightarrow>
     FindOrCreateFieldInfoMap E klass st = (CreateFieldInfoMap E klass, loaded E klass st)"
  by (simp add: loaded_def FindOrCreate_result [symmetric])

lemma loaded_tprot [simp]: "tprot (loaded E klass st) = tprot st"
  by (simp add: loaded_def FindOrCreate_tprot)

lemma loaded_cache_ok [simp, intro]: "cache_ok E st \<Longrightarrow> cache_ok E (loaded E klass st)"
  by (simp add: loaded_def FindOrCreate_cache_ok)

lemma loaded_cache_le: "cache_le st (loaded E klass st)"
  by (simp add: loaded_def FindOrCreate_cache_le)

lemma cache_le_refl [simp, intro]: "cache_le st st"
  by (simp add: cache_le_def)

lemma cache_le_trans: "cache_le a b \<Longrightarrow> cache_le b c \<Longrightarrow> cache_le a c"
  by (auto simp: cache_le_def)

lemma cache_ok_tprot [simp]: "cache_ok E (st\<lparr>tprot := p\<rparr>) = cache_ok E st"
  by (simp add: cache_ok_def)

lemma cache_le_tprot [simp]:
  "cache_le (st\<lparr>tprot := p\<rparr>) st' = cache_le st st'"
  "cache_le st (st'\<lparr>tprot := p\<rparr>) = cache_le st st'"
  by (simp_all add: cache_le_def)

lemma cache_ok_unions:
  "cache_ok E st \<Longrightarrow> klassCache st k = Some m \<Longrightarrow> k \<in> unions st \<longleftrightarrow> inherits_union E k"
  unfolding cache_ok_def by blast

lemma cache_le_lookup: "cache_le st st' \<Longrightarrow> klassCache st k = Some m \<Longrightarrow> klassCache st' k = Some m"
  unfolding cache_le_def by blast

text \<open>A map sorted by 16-bit ids comes out, whatever the Ruby hash holds.\<close>

definition field_map_ok :: "FieldInfoMap \<Rightarrow> bool" where
  "field_map_ok m \<longleftrightarrow> omap_ok m \<and> (\<forall>fid \<in> fst ` set m. in_signed 16 fid)"

lemma FieldID_of_range: "in_signed 16 (FieldID_of w)"
  using in_signed_sint [where 'w = 16] by (simp add: FieldID_of_def)

lemma field_map_ok_insert:
  "field_map_ok m \<Longrightarrow> in_signed 16 k \<Longrightarrow> field_map_ok (omap_insert k v m)"
  unfolding field_map_ok_def omap_insert_keys by (simp add: omap_insert_ok)

lemma CreateFieldInfoMap_ok: "CreateFieldInfoMap E klass = Inr m \<Longrightarrow> field_map_ok m"
proof -
  assume m: "CreateFieldInfoMap E klass = Inr m"
  then obtain kvs where fold: "rfold (\<lambda>(k, v) fieldMap.
            rbind (VALUE2INT E k) (\<lambda>fid.
            rbind (CreateFieldInfo E v) (\<lambda>info.
            Inr (omap_insert (FieldID_of fid) info fieldMap)))) kvs [] = Inr m"
    by (auto simp: CreateFieldInfoMap_def split: option.splits rvalue.splits)
  show ?thesis
  proof (rule rfold_invariant [OF fold, of field_map_ok])
    show "field_map_ok []" by (simp add: field_map_ok_def)
  qed (auto simp: result_simps intro!: field_map_ok_insert FieldID_of_range)
qed

section \<open>Serializer objects\<close>

datatype Proto = compact | binary

definition Proto_of :: "int \<Rightarrow> Proto option" where
  "Proto_of n = (if n = 0 then Some compact else if n = 1 then Some binary else None)"

text \<open>
  \<^verbatim>\<open>serializer_init\<close>: the protocol and the contents of its memory buffer; no string is
  an empty buffer to write to.
\<close>

definition serializer_init :: "32 word \<Rightarrow> string option \<Rightarrow> rberror + Proto \<times> string" where
  "serializer_init protocol str_arg1 =
     (let strBuffer = (case str_arg1 of Some s \<Rightarrow> s | None \<Rightarrow> [])
      in case Proto_of (sint protocol) of
           Some p \<Rightarrow> Inr (p, strBuffer)
         | None \<Rightarrow> Inl (NativeError (''Unknown protocol '' @ show_int (sint protocol))))"

text \<open>
  \<^verbatim>\<open>initialize\<close> of \<^verbatim>\<open>Sparsam::Serializer\<close>. The length is kept in a
  \<^verbatim>\<open>uint32_t\<close>, and so many bytes are copied.
\<close>

definition serializer_initialize ::
  "rvalue \<Rightarrow> rvalue \<Rightarrow> rberror + Proto \<times> string" where
  "serializer_initialize type_arg str_arg =
     (case type_arg of
        RInt i \<Rightarrow>
          (if \<not> FIXNUM_P i then Inl (RubyError ''TypeError'')
           else rbind (FIX2INT i) (\<lambda>prot.
             case str_arg of
               RStr e s \<Rightarrow>
                 (let len = unat (of_nat (length s) :: 32 word);
                      input_string = (if len \<noteq> 0 then Some (take len s) else None)
                  in serializer_init prot input_string)
             | _ \<Rightarrow> Inl (RubyError ''TypeError'')))
      | _ \<Rightarrow> Inl (RubyError ''TypeError''))"

text \<open>
  \<^verbatim>\<open>sparsam_struct_initialize\<close>, the constructor of every generated class: the Ruby
  methods it calls, in order. \<open>default_values\<close> is the constant \<^verbatim>\<open>DEFAULT_VALUES\<close>.
\<close>

datatype init_call = assign_defaults rvalue | assign_from_arg rvalue | rb_yield_self

definition sparsam_struct_initialize ::
  "rvalue option \<Rightarrow> rvalue list \<Rightarrow> bool \<Rightarrow> rberror + init_call list" where
  "sparsam_struct_initialize default_values argv block_given =
     (if length argv > 1 then
        Inl (RubyError (''wrong number of arguments (given '' @ show_nat (length argv)
          @ '', expected 0..1)''))
      else case default_values of
          None \<Rightarrow> Inl (RubyError ''NameError'')
        | Some defaults \<Rightarrow>
            Inr ((if \<not> NIL_P defaults then [assign_defaults defaults] else [])
                 @ (if length argv = 1 then [assign_from_arg (argv ! 0)] else [])
                 @ (if block_given then [rb_yield_self] else [])))"

end
