(* ===== verification/Writer.thy ===== *)
theory Writer
  imports FieldCache
begin

text \<open>
  Serializing: \<^verbatim>\<open>ThriftSerializer::writeAny\<close> and \<^verbatim>\<open>writeStruct\<close>,
  \<^verbatim>\<open>checkRequiredFields\<close> and the entry point \<^verbatim>\<open>serializer_writeStruct\<close> of
  \<^verbatim>\<open>ext/serializer.cpp\<close>. The protocol object belongs to the Thrift library: the
  model records the calls the serializer makes on it and asks a parameter whether a call
  throws.
\<close>

section \<open>The protocol\<close>

datatype tcall =
  WStructBegin | WStructEnd
| WFieldBegin ttype "16 word" | WFieldEnd | WFieldStop
| WBool bool | WByte "8 word" | WI16 "16 word" | WI32 "32 word" | WI64 "64 word"
| WDouble "64 word" | WString string | WBinary string
| WListBegin ttype "32 word" | WListEnd
| WMapBegin ttype ttype "32 word" | WMapEnd

text \<open>
  The Thrift library: \<open>w_throws h c\<close> is the message of the \<^verbatim>\<open>TException\<close> that the
  call \<open>c\<close> throws after the calls \<open>h\<close>, \<open>w_buffer\<close> the contents of the memory buffer after
  some calls, \<open>r_init\<close> the state of a protocol object that reads a buffer, and the rest its
  read functions.
\<close>

record 's tproto =
  w_throws :: "tcall list \<Rightarrow> tcall \<Rightarrow> string option"
  w_buffer :: "tcall list \<Rightarrow> string"
  r_init :: "string \<Rightarrow> 's"
  r_structBegin :: "('s, string, unit) sexn"
  r_structEnd :: "('s, string, unit) sexn"
  r_fieldBegin :: "('s, string, ttype \<times> 16 word) sexn"
  r_fieldEnd :: "('s, string, unit) sexn"
  r_bool :: "('s, string, bool) sexn"
  r_byte :: "('s, string, 8 word) sexn"
  r_i16 :: "('s, string, 16 word) sexn"
  r_i32 :: "('s, string, 32 word) sexn"
  r_i64 :: "('s, string, 64 word) sexn"
  r_double :: "('s, string, 64 word) sexn"
  r_string :: "('s, string, string) sexn"
  r_binary :: "('s, string, string) sexn"
  r_listBegin :: "('s, string, ttype \<times> 32 word) sexn"
  r_listEnd :: "('s, string, unit) sexn"
  r_setBegin :: "('s, string, ttype \<times> 32 word) sexn"
  r_setEnd :: "('s, string, unit) sexn"
  r_mapBegin :: "('s, string, ttype \<times> ttype \<times> 32 word) sexn"
  r_mapEnd :: "('s, string, unit) sexn"
  r_skip :: "ttype \<Rightarrow> ('s, string, unit) sexn"

type_synonym wstate = "tcall list sstate"

definition emit :: "'s tproto \<Rightarrow> tcall \<Rightarrow> (wstate, rberror, unit) sexn" where
  "emit P c =
     sbind sget (\<lambda>st.
       case w_throws P (tprot st) c of
         Some what \<Rightarrow> sraise (TException what)
       | None \<Rightarrow> sput (st\<lparr>tprot := tprot st @ [c]\<rparr>))"

section \<open>Writing values\<close>

text \<open>
  \<^verbatim>\<open>SPARSAM_CHECK_TYPE\<close> and the read of the payload that follows it: \<open>payload\<close> is
  what \<^verbatim>\<open>RSTRING\<close>, \<^verbatim>\<open>RARRAY\<close> or \<^verbatim>\<open>RHASH\<close> gives for a value of the Ruby
  type with tag \<open>t\<close>.
\<close>

definition SPARSAM_CHECK_TYPE ::
  "'a option \<Rightarrow> int \<Rightarrow> rvalue \<Rightarrow> rvalue \<Rightarrow> sym option \<Rightarrow> ('a \<Rightarrow> ('s, rberror, unit) sexn)
     \<Rightarrow> ('s, rberror, unit) sexn" where
  "SPARSAM_CHECK_TYPE payload t x outer_struct field_sym body =
     (case payload of
        Some p \<Rightarrow> body p
      | None \<Rightarrow> sraise (raise_type_mismatch_ttype outer_struct field_sym t x))"

lemma SPARSAM_CHECK_TYPE_cong [fundef_cong]:
  "payload = payload' \<Longrightarrow> (\<And>p. payload' = Some p \<Longrightarrow> body p = body' p) \<Longrightarrow>
     SPARSAM_CHECK_TYPE payload t x outer fsym body = SPARSAM_CHECK_TYPE payload' t x outer fsym body'"
  by (cases payload') (simp_all add: SPARSAM_CHECK_TYPE_def)

fun RSTRING :: "rvalue \<Rightarrow> string option" where
  "RSTRING (RStr e s) = Some s"
| "RSTRING _ = None"

fun RARRAY :: "rvalue \<Rightarrow> rvalue list option" where
  "RARRAY (RArray vs) = Some vs"
| "RARRAY _ = None"

fun RHASH :: "rvalue \<Rightarrow> (rvalue \<times> rvalue) list option" where
  "RHASH (RHash kvs) = Some kvs"
| "RHASH _ = None"

fun RSET :: "rvalue \<Rightarrow> rvalue list option" where
  "RSET (RSet vs) = Some vs"
| "RSET _ = None"

text \<open>\<^verbatim>\<open>field_info->elementType->ftype\<close> and the like: a null pointer is dereferenced.\<close>

definition deref :: "'a option \<Rightarrow> rberror + 'a" where
  "deref p = (case p of None \<Rightarrow> Inl NullDeref | Some x \<Rightarrow> Inr x)"

text \<open>The read of the instance variable of a field.\<close>

definition field_value :: "rvalue \<Rightarrow> FieldInfo \<Rightarrow> rberror + rvalue" where
  "field_value data info = rbind (deref (ivarName info)) (\<lambda>iv. Inr (rb_ivar_get data iv))"

text \<open>\<^verbatim>\<open>checkRequiredFields\<close>; the entries are visited in the order of their ids.\<close>

fun check_required :: "klass \<Rightarrow> rvalue \<Rightarrow> FieldInfoMap \<Rightarrow> rberror + unit" where
  "check_required klass data [] = Inr ()"
| "check_required klass data ((fid, info) # flds) =
     (if \<not> isOptional info then
        rbind (field_value data info) (\<lambda>val.
          if NIL_P val then
            Inl (with_names MissingMandatory ''Required field missing'' klass (symName info))
          else check_required klass data flds)
      else check_required klass data flds)"

definition checkRequiredFields ::
  "ruby_env \<Rightarrow> klass \<Rightarrow> rvalue \<Rightarrow> (wstate, rberror, unit) sexn" where
  "checkRequiredFields E klass data =
     sbind (FindOrCreateFieldInfoMap E klass) (\<lambda>flds. slift (check_required klass data flds))"

lemma payload_iff:
  "RSTRING v = Some s \<longleftrightarrow> (\<exists>c. v = RStr c s)"
  "RARRAY v = Some vs \<longleftrightarrow> v = RArray vs"
  "RSET v = Some vs \<longleftrightarrow> v = RSet vs"
  "RHASH v = Some kvs \<longleftrightarrow> v = RHash kvs"
  by (cases v; auto)+

lemma payload_smaller:
  "RARRAY v = Some vs \<Longrightarrow> x \<in> set vs \<Longrightarrow> size x < size v"
  "RSET v = Some vs \<Longrightarrow> x \<in> set vs \<Longrightarrow> size x < size v"
  "RHASH v = Some kvs \<Longrightarrow> (k, y) \<in> set kvs \<Longrightarrow> size k < size v"
  "RHASH v = Some kvs \<Longrightarrow> (k, y) \<in> set kvs \<Longrightarrow> size y < size v"
proof -
  show "RARRAY v = Some vs \<Longrightarrow> x \<in> set vs \<Longrightarrow> size x < size v"
    by (cases v) (auto simp: less_Suc_eq_le intro: size_list_estimation')
  show "RSET v = Some vs \<Longrightarrow> x \<in> set vs \<Longrightarrow> size x < size v"
    by (cases v) (auto simp: less_Suc_eq_le intro: size_list_estimation')
  have "(k, y) \<in> set ps \<Longrightarrow> size k < Suc (size_list (size_prod size size) ps) \<and>
      size y < Suc (size_list (size_prod size size) ps)" for ps :: "(rvalue \<times> rvalue) list"
    by (induction ps) auto
  then show "RHASH v = Some kvs \<Longrightarrow> (k, y) \<in> set kvs \<Longrightarrow> size k < size v"
    and "RHASH v = Some kvs \<Longrightarrow> (k, y) \<in> set kvs \<Longrightarrow> size y < size v"
    by (cases v; auto)+
qed

text \<open>
  The recursion is on the Ruby value, so a cyclic object graph, on which the code recurses
  until its stack ends, is no \<^typ>\<open>rvalue\<close>.
\<close>

function writeAny :: "ruby_env \<Rightarrow> 's tproto \<Rightarrow> ttype \<Rightarrow> FieldInfo \<Rightarrow> rvalue \<Rightarrow> rvalue \<Rightarrow> sym option
    \<Rightarrow> (wstate, rberror, unit) sexn"
  and writeStruct :: "ruby_env \<Rightarrow> 's tproto \<Rightarrow> klass \<Rightarrow> rvalue \<Rightarrow> (wstate, rberror, unit) sexn"
where
  "writeAny E P ttype field_info actual outer_struct field_sym =
     (case ttype of
        T_I16 \<Rightarrow> sbind (slift (CONVERT_FIXNUM SHORT_CONVERT T_I16 actual outer_struct field_sym))
                   (\<lambda>w. emit P (WI16 w))
      | T_I32 \<Rightarrow> sbind (slift (CONVERT_FIXNUM FIX2INT T_I32 actual outer_struct field_sym))
                   (\<lambda>w. emit P (WI32 w))
      | T_I64 \<Rightarrow> sbind (slift (CONVERT_I64 actual outer_struct field_sym)) (\<lambda>w. emit P (WI64 w))
      | T_BOOL \<Rightarrow> sbind (slift (convertBool actual outer_struct field_sym)) (\<lambda>b. emit P (WBool b))
      | T_DOUBLE \<Rightarrow> sbind (slift (CONVERT_FLOAT actual outer_struct field_sym))
                     (\<lambda>d. emit P (WDouble d))
      | T_BYTE \<Rightarrow> sbind (slift (CONVERT_FIXNUM byte_convert T_BYTE actual outer_struct field_sym))
                   (\<lambda>w. emit P (WByte w))
      | T_STRING \<Rightarrow>
          SPARSAM_CHECK_TYPE (RSTRING actual) ruby_T_STRING actual outer_struct field_sym (\<lambda>data.
            if isBinaryString field_info then emit P (WBinary data) else emit P (WString data))
      | T_LIST \<Rightarrow>
          SPARSAM_CHECK_TYPE (RARRAY actual) ruby_T_ARRAY actual outer_struct field_sym (\<lambda>ary.
            sbind (slift (deref (elementType field_info))) (\<lambda>elem.
            sbind (emit P (WListBegin (ftype elem) (of_nat (length ary)))) (\<lambda>_.
            sbind (sfor (\<lambda>v. writeAny E P (ftype elem) elem v outer_struct field_sym) ary) (\<lambda>_.
            emit P WListEnd))))
      | T_SET \<Rightarrow>
          (case RSET actual of
             None \<Rightarrow> sraise (raise_type_mismatch_ttype outer_struct field_sym (ttype_id T_SET) actual)
           | Some ary \<Rightarrow>
               sbind (slift (deref (elementType field_info))) (\<lambda>elem.
               sbind (emit P (WListBegin (ftype elem) (of_nat (length ary)))) (\<lambda>_.
               sbind (sfor (\<lambda>v. writeAny E P (ftype elem) elem v outer_struct field_sym) ary) (\<lambda>_.
               emit P WListEnd))))
      | T_MAP \<Rightarrow>
          SPARSAM_CHECK_TYPE (RHASH actual) ruby_T_HASH actual outer_struct field_sym (\<lambda>hash.
            sbind (slift (deref (keyType field_info))) (\<lambda>key.
            sbind (slift (deref (elementType field_info))) (\<lambda>elem.
            sbind (emit P (WMapBegin (ftype key) (ftype elem) (of_nat (length hash)))) (\<lambda>_.
            sbind (sfor (\<lambda>(k, v).
                     sbind (writeAny E P (ftype key) key k outer_struct field_sym) (\<lambda>_.
                     writeAny E P (ftype elem) elem v outer_struct field_sym)) hash) (\<lambda>_.
            emit P WMapEnd)))))
      | T_STRUCT \<Rightarrow>
          (if field_klass field_info \<noteq> Some (class_name actual) then
             sbind (slift (deref (field_klass field_info))) (\<lambda>klass.
             sraise (raise_type_mismatch outer_struct field_sym klass actual))
           else
             sbind (emit P WStructBegin) (\<lambda>_.
             sbind (writeStruct E P (class_name actual) actual) (\<lambda>_.
             sbind (emit P WFieldStop) (\<lambda>_.
             emit P WStructEnd))))
      | _ \<Rightarrow> sret ())"
| "writeStruct E P klass data =
     sbind (FindOrCreateFieldInfoMap E klass) (\<lambda>flds.
     sbind (checkRequiredFields E klass data) (\<lambda>_.
     sfor (\<lambda>(fid, info).
       case ivarName info of
         None \<Rightarrow> sraise NullDeref
       | Some ivar \<Rightarrow>
           if \<not> NIL_P (rb_ivar_get data ivar) then
             sbind (emit P (WFieldBegin (ftype info) (word_of_int fid))) (\<lambda>_.
             sbind (writeAny E P (ftype info) info (rb_ivar_get data ivar) data (symName info)) (\<lambda>_.
             emit P WFieldEnd))
           else sret ()) flds))"
  by pat_completeness auto
termination
proof (relation "measures
    [\<lambda>x. case x of Inl (E, P, t, fi, v, outer, fsym) \<Rightarrow> size v | Inr (E, P, k, v) \<Rightarrow> size v,
     \<lambda>x. case x of Inl y \<Rightarrow> 1 | Inr z \<Rightarrow> 0]")
qed (auto simp: NIL_P_def intro: payload_smaller rb_ivar_get_smaller)

declare writeAny.simps [simp del] writeStruct.simps [simp del]

text \<open>
  \<^verbatim>\<open>serializer_writeStruct\<close>: a \<^verbatim>\<open>TException\<close> of the protocol leaves as
  \<^verbatim>\<open>NativeError\<close>.
\<close>

definition catch_thrift_and_reraise :: "('s, rberror, 'a) sexn \<Rightarrow> ('s, rberror, 'a) sexn" where
  "catch_thrift_and_reraise m st =
     (case m st of
        (Inl (TException what), st') \<Rightarrow> (Inl (NativeError what), st')
      | res \<Rightarrow> res)"

definition serializer_writeStruct ::
  "ruby_env \<Rightarrow> 's tproto \<Rightarrow> klass \<Rightarrow> rvalue \<Rightarrow> (wstate, rberror, rvalue) sexn" where
  "serializer_writeStruct E P klass data =
     catch_thrift_and_reraise
       (if class_name data \<noteq> klass then
          sraise (with_names TypeMismatch
            (''Mismatched type passed to serialize (expected: '' @ klass @ '' got: ''
               @ class_name data @ '')'')
            (class_name data) (Some ''(root)''))
        else
          sbind (emit P WStructBegin) (\<lambda>_.
          sbind (writeStruct E P klass data) (\<lambda>_.
          sbind (emit P WFieldStop) (\<lambda>_.
          sbind (emit P WStructEnd) (\<lambda>_.
          sbind sget (\<lambda>st.
          sret (RStr ASCII_8BIT (w_buffer P (tprot st)))))))))"

end
