(* ===== verification/Reader.thy ===== *)
theory Reader
  imports Writer
begin

text \<open>
  Deserializing: \<^verbatim>\<open>ThriftSerializer::readAny\<close>, \<^verbatim>\<open>readStruct\<close> and
  \<^verbatim>\<open>readUnion\<close> of \<^verbatim>\<open>ext/serializer.cpp\<close> and their entry points. The
  input decides how long the loops run, so the functions take fuel: each call and each turn
  of the field loop uses one unit, and \<open>OutOfFuel\<close> is not a behaviour of the program. Enough
  fuel exists for every protocol that consumes its input (theory \<open>ReaderProps\<close>).
\<close>

section \<open>Protocol calls\<close>

text \<open>A read function of the protocol object; what it throws is a \<^verbatim>\<open>TException\<close>.\<close>

definition rd :: "('s, string, 'a) sexn \<Rightarrow> ('s sstate, rberror, 'a) sexn" where
  "rd m st =
     (case m (tprot st) of
        (Inl what, s) \<Rightarrow> (Inl (TException what), st\<lparr>tprot := s\<rparr>)
      | (Inr x, s) \<Rightarrow> (Inr x, st\<lparr>tprot := s\<rparr>))"

definition skip_n_type :: "'s tproto \<Rightarrow> 32 word \<Rightarrow> ttype \<Rightarrow> ('s sstate, rberror, unit) sexn" where
  "skip_n_type P n ttype = sbind (srepeat (unat n) (rd (r_skip P ttype))) (\<lambda>_. sret ())"

definition skip_n_pair ::
  "'s tproto \<Rightarrow> 32 word \<Rightarrow> ttype \<Rightarrow> ttype \<Rightarrow> ('s sstate, rberror, unit) sexn" where
  "skip_n_pair P n type_a type_b =
     sbind (srepeat (unat n) (sbind (rd (r_skip P type_a)) (\<lambda>_. rd (r_skip P type_b)))) (\<lambda>_. sret ())"

section \<open>Ruby containers\<close>

text \<open>\<^verbatim>\<open>rb_hash_aset\<close>: an entry with an \<^verbatim>\<open>eql?\<close> key keeps its key and place.\<close>

fun rb_hash_aset ::
  "(rvalue \<Rightarrow> rvalue \<Rightarrow> bool) \<Rightarrow> (rvalue \<times> rvalue) list \<Rightarrow> rvalue \<Rightarrow> rvalue \<Rightarrow> (rvalue \<times> rvalue) list" where
  "rb_hash_aset eql [] k v = [(k, v)]"
| "rb_hash_aset eql ((k', v') # kvs) k v =
     (if eql k' k then (k', v) # kvs else (k', v') # rb_hash_aset eql kvs k v)"

text \<open>\<^verbatim>\<open>Set.new(ary)\<close>.\<close>

definition Set_new :: "(rvalue \<Rightarrow> rvalue \<Rightarrow> bool) \<Rightarrow> rvalue list \<Rightarrow> rvalue" where
  "Set_new eql ary =
     RSet (foldl (\<lambda>xs v. if \<exists>x \<in> set xs. eql x v then xs else xs @ [v]) [] ary)"

text \<open>\<^verbatim>\<open>rb_class_new_instance(0, NULL, klass)\<close>; no class at all is undefined.\<close>

definition rb_class_new_instance :: "ruby_env \<Rightarrow> klass option \<Rightarrow> rberror + rvalue" where
  "rb_class_new_instance E klass =
     (case klass of None \<Rightarrow> Inl NullDeref | Some k \<Rightarrow> new_instance E k)"

section \<open>Reading values\<close>

text \<open>
  The mismatch message of \<^verbatim>\<open>readStruct\<close> names the type found on the wire as the
  definition and the declared type as the one found.
\<close>

definition struct_mismatch :: "klass \<Rightarrow> FieldInfo \<Rightarrow> ttype \<Rightarrow> rberror" where
  "struct_mismatch klass info wire =
     with_names TypeMismatch
       (''Mismatched type (definition: '' @ TTypeName (ttype_id wire) @ '', found: ''
          @ TTypeName (ttype_id (ftype info)) @ '')'') klass (symName info)"

definition FieldID_key :: "16 word \<Rightarrow> FieldID" where
  "FieldID_key w = sint w"

text \<open>
  The bodies of the three functions, over the functions they call; the field loop of
  \<^verbatim>\<open>readStruct\<close> is \<open>readFields\<close>.
\<close>

type_synonym 's reader = "('s sstate, rberror, rvalue) sexn"

definition readAny_body ::
  "ruby_env \<Rightarrow> 's tproto \<Rightarrow> (ttype \<Rightarrow> FieldInfo \<Rightarrow> 's reader) \<Rightarrow> (klass option \<Rightarrow> 's reader)
     \<Rightarrow> (klass option \<Rightarrow> 's reader) \<Rightarrow> ttype \<Rightarrow> FieldInfo \<Rightarrow> 's reader" where
  "readAny_body E P recAny recStruct recUnion ttype field_info =
     (case ttype of
        T_I16 \<Rightarrow> sbind (rd (r_i16 P)) (\<lambda>w. sret (RInt (sint w)))
      | T_I32 \<Rightarrow> sbind (rd (r_i32 P)) (\<lambda>w. sret (RInt (sint w)))
      | T_I64 \<Rightarrow> sbind (rd (r_i64 P)) (\<lambda>w. sret (RInt (sint w)))
      | T_BOOL \<Rightarrow> sbind (rd (r_bool P)) (\<lambda>b. sret (RBool b))
      | T_DOUBLE \<Rightarrow> sbind (rd (r_double P)) (\<lambda>d. sret (RFloat d))
      | T_BYTE \<Rightarrow> sbind (rd (r_byte P)) (\<lambda>w. sret (RInt (sint w)))
      | T_STRING \<Rightarrow>
          (if isBinaryString field_info
           then sbind (rd (r_binary P)) (\<lambda>s. sret (RStr ASCII_8BIT s))
           else sbind (rd (r_string P)) (\<lambda>s. sret (RStr UTF8 s)))
      | T_LIST \<Rightarrow>
          sbind (rd (r_listBegin P)) (\<lambda>(element_type, size).
          case elementType field_info of
            None \<Rightarrow> sbind (skip_n_type P size element_type) (\<lambda>_. sret RNil)
          | Some el \<Rightarrow>
              if element_type \<noteq> ftype el then
                sbind (skip_n_type P size element_type) (\<lambda>_. sret RNil)
              else
                sbind (srepeat (unat size) (recAny element_type el)) (\<lambda>ary.
                sbind (rd (r_listEnd P)) (\<lambda>_. sret (RArray ary))))
      | T_SET \<Rightarrow>
          sbind (rd (r_setBegin P)) (\<lambda>(element_type, size).
          case elementType field_info of
            None \<Rightarrow> sbind (skip_n_type P size element_type) (\<lambda>_. sret RNil)
          | Some el \<Rightarrow>
              if element_type \<noteq> ftype el then
                sbind (skip_n_type P size element_type) (\<lambda>_. sret RNil)
              else
                sbind (srepeat (unat size) (recAny element_type el)) (\<lambda>ary.
                sbind (rd (r_setEnd P)) (\<lambda>_. sret (Set_new (key_eql E) ary))))
      | T_STRUCT \<Rightarrow>
          sbind (rd (r_structBegin P)) (\<lambda>_.
          sbind sget (\<lambda>st.
          sbind (case field_klass field_info of
                   None \<Rightarrow> recStruct None
                 | Some k \<Rightarrow> if k \<in> unions st then recUnion (Some k)
                             else recStruct (Some k)) (\<lambda>ret.
          sbind (rd (r_structEnd P)) (\<lambda>_. sret ret))))
      | T_MAP \<Rightarrow>
          sbind (rd (r_mapBegin P)) (\<lambda>(key_type, value_type, size).
          case (keyType field_info, elementType field_info) of
            (Some ke, Some el) \<Rightarrow>
              sbind (srepeat (unat size)
                (sbind (recAny key_type ke) (\<lambda>k.
                 sbind (recAny value_type el) (\<lambda>v. sret (k, v))))) (\<lambda>kvs.
              sbind (rd (r_mapEnd P)) (\<lambda>_.
              sret (RHash (foldl (\<lambda>h (k, v). rb_hash_aset (key_eql E) h k v) [] kvs))))
          | _ \<Rightarrow> sbind (skip_n_pair P size key_type value_type) (\<lambda>_. sret RNil))
      | _ \<Rightarrow>
          sbind (rd (r_skip P ttype)) (\<lambda>_.
          sraise (UnknownTypeException
            (''Received unknown type with id: '' @ show_int (ttype_id ttype)))))"

definition readStruct_body ::
  "ruby_env \<Rightarrow> (klass \<Rightarrow> FieldInfoMap \<Rightarrow> rvalue \<Rightarrow> 's reader) \<Rightarrow> klass option \<Rightarrow> 's reader" where
  "readStruct_body E recFields klass =
     sbind (slift (rb_class_new_instance E klass)) (\<lambda>ret.
     sbind (FindOrCreateFieldInfoMap E (the klass)) (\<lambda>flds.
     recFields (the klass) flds ret))"

definition readFields_body ::
  "'s tproto \<Rightarrow> (ttype \<Rightarrow> FieldInfo \<Rightarrow> 's reader) \<Rightarrow> (klass \<Rightarrow> FieldInfoMap \<Rightarrow> rvalue \<Rightarrow> 's reader)
     \<Rightarrow> klass \<Rightarrow> FieldInfoMap \<Rightarrow> rvalue \<Rightarrow> 's reader" where
  "readFields_body P recAny recFields klass flds ret =
     sbind (rd (r_fieldBegin P)) (\<lambda>(wire, fid).
     if wire = T_STOP then sret ret
     else
       case omap_find flds (FieldID_key fid) of
         None \<Rightarrow>
           sbind (rd (r_skip P wire)) (\<lambda>_.
           sbind (rd (r_fieldEnd P)) (\<lambda>_.
           recFields klass flds ret))
       | Some info \<Rightarrow>
           if ftype info \<noteq> wire then sraise (struct_mismatch klass info wire)
           else
             sbind (recAny wire info) (\<lambda>v.
             sbind (if NIL_P v then sret ret
                    else case ivarName info of
                        None \<Rightarrow> sraise NullDeref
                      | Some iv \<Rightarrow> sret (rb_ivar_set ret iv v)) (\<lambda>ret'.
             sbind (rd (r_fieldEnd P)) (\<lambda>_.
             recFields klass flds ret'))))"

definition readUnion_body ::
  "ruby_env \<Rightarrow> 's tproto \<Rightarrow> (ttype \<Rightarrow> FieldInfo \<Rightarrow> 's reader) \<Rightarrow> klass option \<Rightarrow> 's reader" where
  "readUnion_body E P recAny klass =
     sbind (slift (rb_class_new_instance E klass)) (\<lambda>ret.
     sbind (FindOrCreateFieldInfoMap E (the klass)) (\<lambda>flds.
     sbind (rd (r_fieldBegin P)) (\<lambda>(wire, fid).
     if wire = T_STOP then sret ret
     else
       case omap_find flds (FieldID_key fid) of
         None \<Rightarrow>
           sbind (rd (r_skip P wire)) (\<lambda>_.
           sbind (rd (r_fieldEnd P)) (\<lambda>_.
           sret ret))
       | Some info \<Rightarrow>
           sbind (recAny wire info) (\<lambda>v.
           sbind (if NIL_P v then sret ret
                  else case (symName info, ivarName info) of
                      (Some s, Some iv) \<Rightarrow>
                        sret (rb_ivar_set (rb_ivar_set ret ''@setfield'' (RSym s)) iv v)
                    | _ \<Rightarrow> sraise NullDeref) (\<lambda>ret'.
           sbind (rd (r_fieldEnd P)) (\<lambda>_.
           sbind (rd (r_fieldBegin P)) (\<lambda>(wire', fid').
           if wire' \<noteq> T_STOP then sraise (UnionException ''More than one element in union.'')
           else sret ret')))))))"

function (sequential) readAny :: "nat \<Rightarrow> ruby_env \<Rightarrow> 's tproto \<Rightarrow> ttype \<Rightarrow> FieldInfo \<Rightarrow> 's reader"
  and readStruct :: "nat \<Rightarrow> ruby_env \<Rightarrow> 's tproto \<Rightarrow> klass option \<Rightarrow> 's reader"
  and readFields :: "nat \<Rightarrow> ruby_env \<Rightarrow> 's tproto \<Rightarrow> klass \<Rightarrow> FieldInfoMap \<Rightarrow> rvalue \<Rightarrow> 's reader"
  and readUnion :: "nat \<Rightarrow> ruby_env \<Rightarrow> 's tproto \<Rightarrow> klass option \<Rightarrow> 's reader"
where
  "readAny 0 E P ttype field_info = sraise OutOfFuel"
| "readAny (Suc n) E P ttype field_info =
     readAny_body E P (readAny n E P) (readStruct n E P) (readUnion n E P) ttype field_info"
| "readStruct 0 E P klass = sraise OutOfFuel"
| "readStruct (Suc n) E P klass = readStruct_body E (readFields n E P) klass"
| "readFields 0 E P klass flds ret = sraise OutOfFuel"
| "readFields (Suc n) E P klass flds ret =
     readFields_body P (readAny n E P) (readFields n E P) klass flds ret"
| "readUnion 0 E P klass = sraise OutOfFuel"
| "readUnion (Suc n) E P klass = readUnion_body E P (readAny n E P) klass"
  by pat_completeness auto
termination
  by (relation "measure (\<lambda>x. case x of
        Inl (Inl (n, _)) \<Rightarrow> n | Inl (Inr (n, _)) \<Rightarrow> n | Inr (Inl (n, _)) \<Rightarrow> n | Inr (Inr (n, _)) \<Rightarrow> n)")
     auto

section \<open>Entry points\<close>

definition serializer_readStruct :: "nat \<Rightarrow> ruby_env \<Rightarrow> 's tproto \<Rightarrow> klass \<Rightarrow> 's reader" where
  "serializer_readStruct n E P klass =
     catch_thrift_and_reraise
       (sbind (rd (r_structBegin P)) (\<lambda>_.
        sbind (readStruct n E P (Some klass)) (\<lambda>ret.
        sbind (rd (r_structEnd P)) (\<lambda>_.
        sret ret))))"

definition serializer_readUnion :: "nat \<Rightarrow> ruby_env \<Rightarrow> 's tproto \<Rightarrow> klass \<Rightarrow> 's reader" where
  "serializer_readUnion n E P klass =
     catch_thrift_and_reraise
       (sbind (rd (r_structBegin P)) (\<lambda>_.
        sbind (readUnion n E P (Some klass)) (\<lambda>ret.
        sbind (rd (r_structEnd P)) (\<lambda>_.
        sret ret))))"

end
