(* ===== verification/WriterSpec.thy ===== *)
theory WriterSpec
  imports Writer
begin

text \<open>
  What the writer promises: the relation \<open>enc\<close> between a Ruby value and the calls that
  carry it on the wire, and the lemmas that the writer of \<^verbatim>\<open>ext/serializer.cpp\<close>
  makes exactly these calls, or raises when there are none.
\<close>

section \<open>The field cache under the writer\<close>

definition keeps_cache :: "ruby_env \<Rightarrow> ('p sstate, rberror, 'a) sexn \<Rightarrow> bool" where
  "keeps_cache E m \<longleftrightarrow>
     (\<forall>st. cache_ok E st \<longrightarrow> cache_ok E (snd (m st)) \<and> cache_le st (snd (m st)))"

named_theorems keeps_intro

lemma keeps_sret [keeps_intro]: "keeps_cache E (sret x)"
  by (simp add: keeps_cache_def)

lemma keeps_sraise [keeps_intro]: "keeps_cache E (sraise x)"
  by (simp add: keeps_cache_def)

lemma keeps_slift [keeps_intro]: "keeps_cache E (slift x)"
  by (simp add: keeps_cache_def)

lemma keeps_sget [keeps_intro]: "keeps_cache E sget"
  by (simp add: keeps_cache_def)

lemma keeps_sbind:
  fixes m :: "('p sstate, rberror, 'a) sexn"
  assumes m: "keeps_cache E m" and f: "\<And>x. keeps_cache E (f x)"
  shows "keeps_cache E (sbind m f)"
  unfolding keeps_cache_def
proof (intro allI impI)
  fix st :: "'p sstate"
  assume st: "cache_ok E st"
  obtain r st' where run: "m st = (r, st')" by (cases "m st")
  have st': "cache_ok E st'" "cache_le st st'"
    using m st run by (metis keeps_cache_def snd_conv)+
  show "cache_ok E (snd (sbind m f st)) \<and> cache_le st (snd (sbind m f st))"
  proof (cases r)
    case (Inl e)
    then show ?thesis using run st' by (simp add: sbind_raises)
  next
    case (Inr x)
    then have "sbind m f st = f x st'" using run by (simp add: sbind_returns)
    then show ?thesis
      using f [of x] st' by (metis cache_le_trans keeps_cache_def)
  qed
qed

lemma keeps_sfor: "(\<And>x. x \<in> set xs \<Longrightarrow> keeps_cache E (f x)) \<Longrightarrow> keeps_cache E (sfor f xs)"
  by (induction xs) (auto intro!: keeps_sbind keeps_sret)

lemma keeps_emit [keeps_intro]: "keeps_cache E (emit P c)"
  by (auto simp: keeps_cache_def emit_def split: option.split)

lemma keeps_FindOrCreate [keeps_intro]: "keeps_cache E (FindOrCreateFieldInfoMap E klass)"
  by (simp add: keeps_cache_def FindOrCreate_cache_ok FindOrCreate_cache_le)

lemma keeps_checkRequired [keeps_intro]: "keeps_cache E (checkRequiredFields E klass data)"
  unfolding checkRequiredFields_def by (intro keeps_sbind keeps_intro)

lemma keeps_CHECK_TYPE:
  "(\<And>p. payload = Some p \<Longrightarrow> keeps_cache E (body p)) \<Longrightarrow>
     keeps_cache E (SPARSAM_CHECK_TYPE payload t x outer fsym body)"
  by (auto simp: SPARSAM_CHECK_TYPE_def keeps_sraise split: option.split)

lemma write_keeps_cache:
  "keeps_cache E (writeAny E P ttype fi v outer fsym)"
  "keeps_cache E (writeStruct E P klass data)"
proof (induction E P ttype fi v outer fsym and E P klass data rule: writeAny_writeStruct.induct)
  case (1 E P ttype fi v outer fsym)
  note intros = keeps_sbind keeps_intro keeps_sfor keeps_CHECK_TYPE
  show ?case
  proof (cases ttype)
    case T_LIST
    then show ?thesis by (subst writeAny.simps) (auto intro!: intros simp: 1)
  next
    case T_SET
    then show ?thesis
      by (subst writeAny.simps) (auto intro!: intros simp: 1 split: option.split)
  next
    case T_MAP
    then show ?thesis by (subst writeAny.simps) (auto intro!: intros simp: 1)
  next
    case T_STRUCT
    then show ?thesis by (subst writeAny.simps) (auto intro!: intros simp: 1)
  qed (subst writeAny.simps; auto intro!: intros)+
next
  case (2 E P klass data)
  show ?case
    by (subst writeStruct.simps)
       (auto intro!: keeps_sbind keeps_intro keeps_sfor simp: 2 split: option.split)
qed

section \<open>The calls that carry a value\<close>

text \<open>
  \<open>enc E fi v cs\<close>: under the field description \<open>fi\<close>, the value \<open>v\<close> is written as the calls
  \<open>cs\<close>. Integers must fit their width; a set goes out with the calls of a list; a struct
  writes its non-nil fields in the order of their ids and needs every field that is not
  optional; a type id without a case writes nothing.
\<close>

definition enc_field ::
  "(FieldInfo \<Rightarrow> rvalue \<Rightarrow> tcall list \<Rightarrow> bool) \<Rightarrow> rvalue \<Rightarrow> FieldID \<times> FieldInfo \<Rightarrow> tcall list \<Rightarrow> bool" where
  "enc_field R data p cs \<longleftrightarrow>
     (\<exists>iv. ivarName (snd p) = Some iv \<and>
        (if NIL_P (rb_ivar_get data iv) then isOptional (snd p) \<and> cs = []
         else \<exists>c. cs = WFieldBegin (ftype (snd p)) (word_of_int (fst p)) # c @ [WFieldEnd]
                \<and> R (snd p) (rb_ivar_get data iv) c))"

definition enc_pair ::
  "(rvalue \<Rightarrow> tcall list \<Rightarrow> bool) \<Rightarrow> (rvalue \<Rightarrow> tcall list \<Rightarrow> bool) \<Rightarrow> rvalue \<times> rvalue
     \<Rightarrow> tcall list \<Rightarrow> bool" where
  "enc_pair K V p cs \<longleftrightarrow> (\<exists>a b. cs = a @ b \<and> K (fst p) a \<and> V (snd p) b)"

lemma enc_field_mono [mono]:
  "(\<And>i v c. R i v c \<longrightarrow> S i v c) \<Longrightarrow> enc_field R data p cs \<longrightarrow> enc_field S data p cs"
  unfolding enc_field_def by (auto split: if_splits)

lemma enc_pair_mono [mono]:
  "(\<And>v c. K v c \<longrightarrow> K' v c) \<Longrightarrow> (\<And>v c. V v c \<longrightarrow> V' v c) \<Longrightarrow>
     enc_pair K V p cs \<longrightarrow> enc_pair K' V' p cs"
  unfolding enc_pair_def by blast

lemma list_all2_mono_rule [mono]:
  "(\<And>x y. R x y \<longrightarrow> S x y) \<Longrightarrow> list_all2 R xs ys \<longrightarrow> list_all2 S xs ys"
  by (auto elim: list_all2_mono)

definition no_payload :: "ttype \<Rightarrow> bool" where
  "no_payload t \<longleftrightarrow>
     t \<notin> {T_BOOL, T_BYTE, T_DOUBLE, T_I16, T_I32, T_I64, T_STRING, T_STRUCT, T_MAP, T_SET, T_LIST}"

inductive enc :: "ruby_env \<Rightarrow> FieldInfo \<Rightarrow> rvalue \<Rightarrow> tcall list \<Rightarrow> bool" for E where
  enc_bool: "ftype fi = T_BOOL \<Longrightarrow> enc E fi (RBool b) [WBool b]"
| enc_byte: "ftype fi = T_BYTE \<Longrightarrow> in_signed 8 i \<Longrightarrow> enc E fi (RInt i) [WByte (word_of_int i)]"
| enc_i16: "ftype fi = T_I16 \<Longrightarrow> in_signed 16 i \<Longrightarrow> enc E fi (RInt i) [WI16 (word_of_int i)]"
| enc_i32: "ftype fi = T_I32 \<Longrightarrow> in_signed 32 i \<Longrightarrow> enc E fi (RInt i) [WI32 (word_of_int i)]"
| enc_i64: "ftype fi = T_I64 \<Longrightarrow> in_signed 64 i \<Longrightarrow> enc E fi (RInt i) [WI64 (word_of_int i)]"
| enc_double: "ftype fi = T_DOUBLE \<Longrightarrow> enc E fi (RFloat d) [WDouble d]"
| enc_string: "ftype fi = T_STRING \<Longrightarrow> \<not> isBinaryString fi \<Longrightarrow> enc E fi (RStr c s) [WString s]"
| enc_binary: "ftype fi = T_STRING \<Longrightarrow> isBinaryString fi \<Longrightarrow> enc E fi (RStr c s) [WBinary s]"
| enc_list: "ftype fi = T_LIST \<Longrightarrow> elementType fi = Some el \<Longrightarrow> list_all2 (enc E el) vs css \<Longrightarrow>
    enc E fi (RArray vs) (WListBegin (ftype el) (of_nat (length vs)) # concat css @ [WListEnd])"
| enc_set: "ftype fi = T_SET \<Longrightarrow> elementType fi = Some el \<Longrightarrow> list_all2 (enc E el) vs css \<Longrightarrow>
    enc E fi (RSet vs) (WListBegin (ftype el) (of_nat (length vs)) # concat css @ [WListEnd])"
| enc_map: "ftype fi = T_MAP \<Longrightarrow> keyType fi = Some ke \<Longrightarrow> elementType fi = Some el \<Longrightarrow>
    list_all2 (enc_pair (enc E ke) (enc E el)) kvs css \<Longrightarrow>
    enc E fi (RHash kvs)
      (WMapBegin (ftype ke) (ftype el) (of_nat (length kvs)) # concat css @ [WMapEnd])"
| enc_struct: "ftype fi = T_STRUCT \<Longrightarrow> field_klass fi = Some (class_name v) \<Longrightarrow>
    CreateFieldInfoMap E (class_name v) = Inr flds \<Longrightarrow> list_all2 (enc_field (enc E) v) flds css \<Longrightarrow>
    enc E fi v (WStructBegin # concat css @ [WFieldStop, WStructEnd])"
| enc_none: "no_payload (ftype fi) \<Longrightarrow> enc E fi v []"

text \<open>The body of a struct, as the top level of a message has it.\<close>

definition enc_struct_body :: "ruby_env \<Rightarrow> klass \<Rightarrow> rvalue \<Rightarrow> tcall list \<Rightarrow> bool" where
  "enc_struct_body E klass data cs \<longleftrightarrow>
     (\<exists>flds css. CreateFieldInfoMap E klass = Inr flds \<and>
        list_all2 (enc_field (enc E) data) flds css \<and> cs = concat css)"

section \<open>The writer makes these calls\<close>

text \<open>A computation that returns has made calls satisfying \<open>R\<close>.\<close>

definition writes ::
  "ruby_env \<Rightarrow> (wstate, rberror, unit) sexn \<Rightarrow> (tcall list \<Rightarrow> bool) \<Rightarrow> bool" where
  "writes E m R \<longleftrightarrow>
     (\<forall>st st'. cache_ok E st \<longrightarrow> m st = (Inr (), st') \<longrightarrow>
        cache_ok E st' \<and> (\<exists>cs. tprot st' = tprot st @ cs \<and> R cs))"

lemma writesI:
  "(\<And>st st'. cache_ok E st \<Longrightarrow> m st = (Inr (), st') \<Longrightarrow>
       cache_ok E st' \<and> (\<exists>cs. tprot st' = tprot st @ cs \<and> R cs)) \<Longrightarrow> writes E m R"
  by (simp add: writes_def)

lemma writes_weaken: "writes E m R \<Longrightarrow> (\<And>cs. R cs \<Longrightarrow> S cs) \<Longrightarrow> writes E m S"
  unfolding writes_def by blast

lemma writes_sret: "R [] \<Longrightarrow> writes E (sret ()) R"
  by (simp add: writes_def)

lemma writes_sraise: "writes E (sraise e) R"
  by (simp add: writes_def)

lemma writes_emit: "R [c] \<Longrightarrow> writes E (emit P c) R"
  by (auto simp: writes_def emit_def split: option.splits)

lemma writes_slift: "(\<And>x. m = Inr x \<Longrightarrow> writes E (f x) R) \<Longrightarrow> writes E (sbind (slift m) f) R"
  by (cases m) (auto simp: writes_def)

lemma writes_then:
  assumes "writes E m A" and "\<And>cs. A cs \<Longrightarrow> writes E f (\<lambda>ds. R (cs @ ds))"
  shows "writes E (sbind m (\<lambda>_. f)) R"
proof (rule writesI)
  fix st st'
  assume st: "cache_ok E st" and run: "sbind m (\<lambda>_. f) st = (Inr (), st')"
  then obtain u where m: "m st = (Inr (), u)" and f: "f u = (Inr (), st')"
    by (auto simp: sbind_eq_Inr)
  obtain cs where u: "cache_ok E u" "tprot u = tprot st @ cs" "A cs"
    using assms(1) st m unfolding writes_def by blast
  obtain ds where "cache_ok E st'" "tprot st' = tprot u @ ds" "R (cs @ ds)"
    using assms(2) [OF u(3)] u(1) f unfolding writes_def by blast
  then show "cache_ok E st' \<and> (\<exists>cs. tprot st' = tprot st @ cs \<and> R cs)"
    using u by auto
qed

lemma writes_sfor:
  "(\<And>x. x \<in> set xs \<Longrightarrow> writes E (f x) (A x)) \<Longrightarrow>
     writes E (sfor f xs) (\<lambda>cs. \<exists>css. cs = concat css \<and> list_all2 A xs css)"
proof (induction xs)
  case Nil
  show ?case unfolding sfor.simps by (rule writes_sret) simp
next
  case (Cons x xs)
  have "writes E (sfor f xs) (\<lambda>ds. \<exists>css. cs @ ds = concat css \<and> list_all2 A (x # xs) css)"
    if "A x cs" for cs
  proof (rule writes_weaken [OF Cons.IH])
    show "writes E (f y) (A y)" if "y \<in> set xs" for y using Cons.prems that by simp
    fix ds
    assume "\<exists>css. ds = concat css \<and> list_all2 A xs css"
    then obtain css where "ds = concat css" "list_all2 A xs css" by blast
    with \<open>A x cs\<close> show "\<exists>css. cs @ ds = concat css \<and> list_all2 A (x # xs) css"
      by (intro exI [of _ "cs # css"]) simp
  qed
  then show ?case
    unfolding sfor.simps using Cons.prems by (intro writes_then [of E "f x" "A x"]) auto
qed

lemma writes_FindOrCreate:
  assumes "\<And>flds. CreateFieldInfoMap E klass = Inr flds \<Longrightarrow> writes E (f flds) R"
  shows "writes E (sbind (FindOrCreateFieldInfoMap E klass) f) R"
proof (rule writesI)
  fix st st'
  assume st: "cache_ok E st" and run: "sbind (FindOrCreateFieldInfoMap E klass) f st = (Inr (), st')"
  then obtain flds where m: "CreateFieldInfoMap E klass = Inr flds"
    and f: "f flds (loaded E klass st) = (Inr (), st')"
    by (auto simp: sbind_eq_Inr FindOrCreate_loaded)
  then have "cache_ok E st' \<and> (\<exists>cs. tprot st' = tprot (loaded E klass st) @ cs \<and> R cs)"
    using assms [OF m] st unfolding writes_def by blast
  then show "cache_ok E st' \<and> (\<exists>cs. tprot st' = tprot st @ cs \<and> R cs)" by simp
qed

lemma writes_checkRequired: "writes E (checkRequiredFields E klass data)
    (\<lambda>cs. cs = [] \<and> (\<exists>flds. CreateFieldInfoMap E klass = Inr flds \<and> check_required klass data flds = Inr ()))"
  unfolding checkRequiredFields_def
  by (rule writes_FindOrCreate) (auto simp: writes_def)

definition required_set :: "rvalue \<Rightarrow> FieldInfo \<Rightarrow> bool" where
  "required_set data info \<longleftrightarrow>
     isOptional info \<or> (\<exists>iv. ivarName info = Some iv \<and> rb_ivar_get data iv \<noteq> RNil)"

lemma check_required_Inr:
  "check_required klass data flds = Inr () \<longleftrightarrow> list_all (\<lambda>p. required_set data (snd p)) flds"
  by (induction klass data flds rule: check_required.induct)
     (auto simp: required_set_def field_value_def deref_def NIL_P_def result_simps split: option.splits)

lemma writes_CHECK_TYPE:
  "(\<And>p. payload = Some p \<Longrightarrow> writes E (body p) R) \<Longrightarrow>
     writes E (SPARSAM_CHECK_TYPE payload t x outer fsym body) R"
  by (cases payload) (auto simp: SPARSAM_CHECK_TYPE_def intro: writes_sraise)

lemma writes_elements:
  assumes "\<And>v. v \<in> set vs \<Longrightarrow> writes E (f v) (enc E el v)"
  shows "writes E (sbind (emit P c) (\<lambda>_. sbind (sfor f vs) (\<lambda>_. emit P c')))
    (\<lambda>cs. \<exists>css. cs = c # concat css @ [c'] \<and> list_all2 (enc E el) vs css)"
proof (rule writes_then)
  show "writes E (emit P c) (\<lambda>cs. cs = [c])" by (rule writes_emit) simp
  fix cs
  assume c: "cs = [c]"
  have loop: "writes E (sfor f vs) (\<lambda>ds. \<exists>css. ds = concat css \<and> list_all2 (enc E el) vs css)"
    by (rule writes_sfor) (rule assms)
  show "writes E (sbind (sfor f vs) (\<lambda>_. emit P c'))
      (\<lambda>ds. \<exists>css. cs @ ds = c # concat css @ [c'] \<and> list_all2 (enc E el) vs css)"
  proof (rule writes_then [OF loop])
    fix ds
    assume "\<exists>css. ds = concat css \<and> list_all2 (enc E el) vs css"
    then show "writes E (emit P c') (\<lambda>es. \<exists>css. cs @ ds @ es = c # concat css @ [c'] \<and>
        list_all2 (enc E el) vs css)"
      using c by (intro writes_emit) auto
  qed
qed

lemma writes_fields:
  assumes "\<And>fid info iv. (fid, info) \<in> set flds \<Longrightarrow> ivarName info = Some iv \<Longrightarrow>
      \<not> NIL_P (rb_ivar_get data iv) \<Longrightarrow> writes E (w info iv) (enc E info (rb_ivar_get data iv))"
    and req: "list_all (\<lambda>p. required_set data (snd p)) flds"
  shows "writes E
    (sfor (\<lambda>(fid, info).
       case ivarName info of
         None \<Rightarrow> sraise NullDeref
       | Some ivar \<Rightarrow>
           if \<not> NIL_P (rb_ivar_get data ivar) then
             sbind (emit P (WFieldBegin (ftype info) (word_of_int fid))) (\<lambda>_.
             sbind (w info ivar) (\<lambda>_.
             emit P WFieldEnd))
           else sret ()) flds)
    (\<lambda>cs. \<exists>css. cs = concat css \<and> list_all2 (enc_field (enc E) data) flds css)"
proof (rule writes_sfor)
  fix p
  assume p: "p \<in> set flds"
  obtain fid info where fi: "p = (fid, info)" by (cases p)
  have opt: "required_set data info" using req p fi by (auto simp: list_all_iff)
  show "writes E (case p of (fid, info) \<Rightarrow>
       case ivarName info of
         None \<Rightarrow> sraise NullDeref
       | Some ivar \<Rightarrow>
           if \<not> NIL_P (rb_ivar_get data ivar) then
             sbind (emit P (WFieldBegin (ftype info) (word_of_int fid))) (\<lambda>_.
             sbind (w info ivar) (\<lambda>_.
             emit P WFieldEnd))
           else sret ()) (enc_field (enc E) data p)"
  proof (cases "ivarName info")
    case None
    then show ?thesis by (simp add: fi writes_sraise del: sraise_apply)
  next
    case (Some iv)
    show ?thesis
    proof (cases "NIL_P (rb_ivar_get data iv)")
      case True
      then have "isOptional info" using opt Some by (auto simp: required_set_def NIL_P_def)
      then have "enc_field (enc E) data p []" using True Some fi by (simp add: enc_field_def)
      then show ?thesis using True Some by (simp add: fi writes_sret del: sret_apply)
    next
      case False
      have val: "writes E (w info iv) (enc E info (rb_ivar_get data iv))"
        using assms(1) p fi Some False by blast
      let ?hd = "WFieldBegin (ftype info) (word_of_int fid)"
      have "writes E (sbind (emit P ?hd) (\<lambda>_. sbind (w info iv) (\<lambda>_. emit P WFieldEnd)))
          (\<lambda>cs. \<exists>c. cs = ?hd # c @ [WFieldEnd] \<and> enc E info (rb_ivar_get data iv) c)"
        by (rule writes_then [where A = "\<lambda>cs. cs = [?hd]"], rule writes_emit, simp,
            rule writes_then [OF val], rule writes_emit) auto
      then have "writes E (sbind (emit P ?hd) (\<lambda>_. sbind (w info iv) (\<lambda>_. emit P WFieldEnd)))
          (enc_field (enc E) data p)"
        by (rule writes_weaken) (use False Some fi in \<open>simp add: enc_field_def\<close>)
      then show ?thesis using False Some fi by simp
    qed
  qed
qed

lemma write_enc:
  "ttype = ftype fi \<Longrightarrow> writes E (writeAny E P ttype fi v outer fsym) (enc E fi v)"
  "writes E (writeStruct E P klass data) (enc_struct_body E klass data)"
proof (induction E P ttype fi v outer fsym and E P klass data rule: writeAny_writeStruct.induct)
  case (1 E P ttype fi v outer fsym)
  note intros = writes_slift writes_emit writes_CHECK_TYPE
  note IH = 1(1-5)
  have t: "ftype fi = ttype" using 1(6) by simp
  show ?case
  proof (cases ttype)
    case T_LIST
    then show ?thesis
      apply (subst writeAny.simps)
      apply (simp del: sret_apply)
      apply (rule writes_CHECK_TYPE, rule writes_slift)
      apply (rule writes_weaken [OF writes_elements])
       apply (auto simp: IH payload_iff t deref_def intro: enc.intros split: option.splits)
      done
  next
    case T_SET
    then show ?thesis
      apply (subst writeAny.simps)
      apply (cases "RSET v")
       apply (simp add: writes_sraise del: sraise_apply)
      apply (simp del: sret_apply)
      apply (rule writes_slift)
      apply (rule writes_weaken [OF writes_elements])
       apply (auto simp: IH payload_iff t deref_def intro: enc.intros split: option.splits)
      done
  next
    case T_MAP
    show ?thesis
    proof (cases "\<exists>kvs ke el. v = RHash kvs \<and> keyType fi = Some ke \<and> elementType fi = Some el")
      case False
      then show ?thesis
        using T_MAP by (subst writeAny.simps)
          (auto simp: deref_def SPARSAM_CHECK_TYPE_def writes_def payload_iff split: option.splits)
    next
      case True
      then obtain kvs ke el where v: "v = RHash kvs" "keyType fi = Some ke" "elementType fi = Some el"
        by blast
      let ?hd = "WMapBegin (ftype ke) (ftype el) (of_nat (length kvs))"
      let ?pair = "\<lambda>(k, w). sbind (writeAny E P (ftype ke) ke k outer fsym)
        (\<lambda>_. writeAny E P (ftype el) el w outer fsym)"
      have pair: "writes E (?pair p) (enc_pair (enc E ke) (enc E el) p)" if p: "p \<in> set kvs" for p
      proof (cases p)
        case (Pair k w)
        have kw: "writes E (writeAny E P (ftype ke) ke k outer fsym) (enc E ke k)"
          "writes E (writeAny E P (ftype el) el w outer fsym) (enc E el w)"
          using IH T_MAP v p Pair by auto
        show ?thesis
          unfolding Pair prod.case
          by (rule writes_then [OF kw(1)], rule writes_weaken [OF kw(2)]) (auto simp: enc_pair_def)
      qed
      have loop: "writes E (sfor ?pair kvs)
          (\<lambda>cs. \<exists>css. cs = concat css \<and> list_all2 (enc_pair (enc E ke) (enc E el)) kvs css)"
        by (rule writes_sfor) (rule pair)
      have "writes E (sbind (emit P ?hd) (\<lambda>_. sbind (sfor ?pair kvs) (\<lambda>_. emit P WMapEnd)))
          (enc E fi v)"
        by (rule writes_then [where A = "\<lambda>cs. cs = [?hd]"], rule writes_emit, simp,
            rule writes_then [OF loop], rule writes_emit) (use v t T_MAP in \<open>auto intro: enc_map\<close>)
      then show ?thesis
        using T_MAP v by (subst writeAny.simps) (simp add: SPARSAM_CHECK_TYPE_def deref_def sbind_unit_fun)
    qed
  next
    case T_STRUCT
    show ?thesis
    proof (cases "field_klass fi = Some (class_name v)")
      case False
      then show ?thesis
        using T_STRUCT by (subst writeAny.simps) (auto simp: writes_def deref_def split: option.splits)
    next
      case True
      have body: "writes E (writeStruct E P (class_name v) v) (enc_struct_body E (class_name v) v)"
        using IH T_STRUCT True by auto
      have "writes E (sbind (emit P WStructBegin) (\<lambda>_. sbind (writeStruct E P (class_name v) v) (\<lambda>_.
          sbind (emit P WFieldStop) (\<lambda>_. emit P WStructEnd)))) (enc E fi v)"
        by (rule writes_then [where A = "\<lambda>cs. cs = [WStructBegin]"], rule writes_emit, simp,
            rule writes_then [OF body],
            rule writes_then [where A = "\<lambda>cs. cs = [WFieldStop]"], rule writes_emit, simp,
            rule writes_emit)
           (use True t T_STRUCT in \<open>auto simp: enc_struct_body_def intro: enc_struct\<close>)
      then show ?thesis using T_STRUCT True by (subst writeAny.simps) simp
    qed
  next
    case (T_UNKNOWN n)
    then have "enc E fi v []" using t by (intro enc.intros) (simp add: no_payload_def)
    then show ?thesis
      using T_UNKNOWN by (subst writeAny.simps) (simp add: writes_sret del: sret_apply)
  qed (subst writeAny.simps;
       auto simp: t no_payload_def convert_Inr payload_iff intro!: intros writes_sret enc.intros)+
next
  case (2 E P klass data)
  show ?case
    apply (subst writeStruct.simps)
    apply (rule writes_FindOrCreate)
    apply (rule writes_then [OF writes_checkRequired])
    apply (rule writes_weaken [OF writes_fields])
    using 2 apply (auto simp: check_required_Inr enc_struct_body_def)
    done
qed

section \<open>Every value that has calls is written\<close>

definition never_throws :: "'s tproto \<Rightarrow> bool" where
  "never_throws P \<longleftrightarrow> (\<forall>h c. w_throws P h c = None)"

definition makes :: "ruby_env \<Rightarrow> (wstate, rberror, unit) sexn \<Rightarrow> tcall list \<Rightarrow> bool" where
  "makes E m cs \<longleftrightarrow>
     (\<forall>st. cache_ok E st \<longrightarrow>
        (\<exists>st'. m st = (Inr (), st') \<and> cache_ok E st' \<and> tprot st' = tprot st @ cs))"

lemma makes_sret: "makes E (sret ()) []"
  by (simp add: makes_def)

lemma makes_emit: "never_throws P \<Longrightarrow> makes E (emit P c) [c]"
  by (simp add: makes_def emit_def never_throws_def)

lemma makes_then:
  assumes m: "makes E m as" and f: "makes E f bs"
  shows "makes E (sbind m (\<lambda>_. f)) (as @ bs)"
  unfolding makes_def
proof (intro allI impI)
  fix st :: wstate
  assume "cache_ok E st"
  then obtain st1 where 1: "m st = (Inr (), st1)" "cache_ok E st1" "tprot st1 = tprot st @ as"
    using m unfolding makes_def by blast
  then obtain st2 where 2: "f st1 = (Inr (), st2)" "cache_ok E st2" "tprot st2 = tprot st1 @ bs"
    using f unfolding makes_def by blast
  show "\<exists>st'. sbind m (\<lambda>_. f) st = (Inr (), st') \<and> cache_ok E st' \<and> tprot st' = tprot st @ as @ bs"
    using 1 2 by (intro exI [of _ st2]) (simp add: sbind_returns)
qed

lemma makes_emit_then: "never_throws P \<Longrightarrow> makes E f cs \<Longrightarrow> makes E (sbind (emit P c) (\<lambda>_. f)) (c # cs)"
  using makes_then [OF makes_emit, of P E f cs c] by simp

lemma makes_then_emit: "never_throws P \<Longrightarrow> makes E f cs \<Longrightarrow> makes E (sbind f (\<lambda>_. emit P c)) (cs @ [c])"
  by (rule makes_then [OF _ makes_emit])

lemma makes_sfor: "list_all2 (\<lambda>x cs. makes E (f x) cs) xs css \<Longrightarrow> makes E (sfor f xs) (concat css)"
proof (induction xs css rule: list_all2_induct)
  case Nil
  show ?case unfolding sfor.simps concat.simps by (rule makes_sret)
next
  case (Cons x xs cs css)
  then show ?case unfolding sfor.simps concat.simps by (intro makes_then)
qed

lemma makes_FindOrCreate:
  "CreateFieldInfoMap E klass = Inr flds \<Longrightarrow> makes E (f flds) cs \<Longrightarrow>
     makes E (sbind (FindOrCreateFieldInfoMap E klass) f) cs"
  unfolding makes_def
proof (intro allI impI)
  fix st :: wstate
  assume m: "CreateFieldInfoMap E klass = Inr flds" and st: "cache_ok E st"
    and f: "\<forall>st. cache_ok E st \<longrightarrow>
      (\<exists>st'. f flds st = (Inr (), st') \<and> cache_ok E st' \<and> tprot st' = tprot st @ cs)"
  have "sbind (FindOrCreateFieldInfoMap E klass) f st = f flds (loaded E klass st)"
    by (rule sbind_returns) (simp add: FindOrCreate_loaded st m)
  then show "\<exists>st'. sbind (FindOrCreateFieldInfoMap E klass) f st = (Inr (), st') \<and>
      cache_ok E st' \<and> tprot st' = tprot st @ cs"
    using f [rule_format, of "loaded E klass st"] st by simp
qed

lemma makes_checkRequired:
  "CreateFieldInfoMap E klass = Inr flds \<Longrightarrow> check_required klass data flds = Inr () \<Longrightarrow>
     makes E (checkRequiredFields E klass data) []"
  unfolding checkRequiredFields_def by (rule makes_FindOrCreate) (auto simp: makes_def)

lemma FIXNUM_P_in_signed: "in_signed w i \<Longrightarrow> w \<le> 63 \<Longrightarrow> FIXNUM_P i"
  using in_signed_mono [of w i 63] by (simp add: FIXNUM_P_def in_signed_def)

lemma convert_ok:
  "convertBool (RBool b) outer fsym = Inr b"
  "CONVERT_FLOAT (RFloat d) outer fsym = Inr d"
  "in_signed 64 i \<Longrightarrow> CONVERT_I64 (RInt i) outer fsym = Inr (word_of_int i)"
  "in_signed 8 i \<Longrightarrow> CONVERT_FIXNUM byte_convert t (RInt i) outer fsym = Inr (word_of_int i)"
  "in_signed 16 i \<Longrightarrow> CONVERT_FIXNUM SHORT_CONVERT t (RInt i) outer fsym = Inr (word_of_int i)"
  "in_signed 32 i \<Longrightarrow> CONVERT_FIXNUM FIX2INT t (RInt i) outer fsym = Inr (word_of_int i)"
  by (simp_all add: convert_Inr FIXNUM_P_in_signed [of 8] FIXNUM_P_in_signed [of 16]
    FIXNUM_P_in_signed [of 32])

lemma enc_field_required: "enc_field R data p cs \<Longrightarrow> required_set data (snd p)"
  by (auto simp: enc_field_def required_set_def NIL_P_def split: if_splits)

lemma enc_fields_required:
  "list_all2 (enc_field R data) flds css \<Longrightarrow> check_required klass data flds = Inr ()"
  unfolding check_required_Inr list_all_length
  by (auto simp: list_all2_conv_all_nth dest: enc_field_required)

lemma makes_fields:
  assumes P: "never_throws P"
    and flds: "list_all2 (enc_field (\<lambda>info v cs. \<forall>fsym.
        makes E (writeAny E P (ftype info) info v data fsym) cs) data) flds css"
    and "CreateFieldInfoMap E klass = Inr flds"
  shows "makes E (writeStruct E P klass data) (concat css)"
proof -
  have "makes E (sbind (checkRequiredFields E klass data) (\<lambda>_. sfor (\<lambda>(fid, info).
       case ivarName info of
         None \<Rightarrow> sraise NullDeref
       | Some ivar \<Rightarrow>
           if \<not> NIL_P (rb_ivar_get data ivar) then
             sbind (emit P (WFieldBegin (ftype info) (word_of_int fid))) (\<lambda>_.
             sbind (writeAny E P (ftype info) info (rb_ivar_get data ivar) data (symName info)) (\<lambda>_.
             emit P WFieldEnd))
           else sret ()) flds)) ([] @ concat css)"
  proof (rule makes_then [OF makes_checkRequired [OF assms(3)]], rule enc_fields_required [OF flds],
      rule makes_sfor, rule list_all2_mono [OF flds])
    fix p cs
    assume p: "enc_field (\<lambda>info v cs. \<forall>fsym.
        makes E (writeAny E P (ftype info) info v data fsym) cs) data p cs"
    then obtain iv where iv: "ivarName (snd p) = Some iv" by (auto simp: enc_field_def)
    show "makes E (case p of (fid, info) \<Rightarrow>
       case ivarName info of
         None \<Rightarrow> sraise NullDeref
       | Some ivar \<Rightarrow>
           if \<not> NIL_P (rb_ivar_get data ivar) then
             sbind (emit P (WFieldBegin (ftype info) (word_of_int fid))) (\<lambda>_.
             sbind (writeAny E P (ftype info) info (rb_ivar_get data ivar) data (symName info)) (\<lambda>_.
             emit P WFieldEnd))
           else sret ()) cs"
      using p P iv
      by (cases p; cases "NIL_P (rb_ivar_get data iv)")
         (auto simp: enc_field_def intro!: makes_emit_then makes_then_emit makes_sret simp del: sret_apply)
  qed
  then show ?thesis
    by (subst writeStruct.simps) (auto intro!: makes_FindOrCreate [OF assms(3)])
qed

lemma enc_makes:
  assumes P: "never_throws P"
  shows "enc E fi v cs \<Longrightarrow> makes E (writeAny E P (ftype fi) fi v outer fsym) cs"
proof (induction arbitrary: outer fsym rule: enc.induct)
  case (enc_list fi el vs css)
  then have "makes E (sfor (\<lambda>v. writeAny E P (ftype el) el v outer fsym) vs) (concat css)"
    by (intro makes_sfor) (auto elim: list_all2_mono)
  then show ?case using P enc_list
    by (subst writeAny.simps)
      (auto simp: SPARSAM_CHECK_TYPE_def deref_def sbind_unit_fun intro!: makes_emit_then makes_then_emit)
next
  case (enc_set fi el vs css)
  then have "makes E (sfor (\<lambda>v. writeAny E P (ftype el) el v outer fsym) vs) (concat css)"
    by (intro makes_sfor) (auto elim: list_all2_mono)
  then show ?case using P enc_set
    by (subst writeAny.simps) (auto simp: deref_def sbind_unit_fun intro!: makes_emit_then makes_then_emit)
next
  case (enc_map fi ke el kvs css)
  have "makes E (sfor (\<lambda>(k, v). sbind (writeAny E P (ftype ke) ke k outer fsym)
      (\<lambda>_. writeAny E P (ftype el) el v outer fsym)) kvs) (concat css)"
    by (rule makes_sfor, rule list_all2_mono [OF enc_map(4)])
      (auto simp: enc_pair_def intro!: makes_then)
  then show ?case using P enc_map
    by (subst writeAny.simps)
      (auto simp: SPARSAM_CHECK_TYPE_def deref_def sbind_unit_fun intro!: makes_emit_then makes_then_emit)
next
  case (enc_struct fi v flds css)
  have "makes E (writeStruct E P (class_name v) v) (concat css)"
    by (rule makes_fields [OF P _ enc_struct(3)], rule list_all2_mono [OF enc_struct(4)])
      (auto simp: enc_field_def split: if_splits)
  then have "makes E (sbind (emit P WStructBegin) (\<lambda>_. sbind (writeStruct E P (class_name v) v)
      (\<lambda>_. sbind (emit P WFieldStop) (\<lambda>_. emit P WStructEnd))))
      (WStructBegin # concat css @ WFieldStop # [WStructEnd])"
    using P by (intro makes_emit_then makes_then makes_emit)
  then show ?case using enc_struct by (subst writeAny.simps) simp
next
  case (enc_none fi v)
  then show ?case
    by (subst writeAny.simps; cases "ftype fi") (simp_all add: no_payload_def makes_sret del: sret_apply)
qed (subst writeAny.simps;
     simp add: P convert_ok sbind_unit_fun SPARSAM_CHECK_TYPE_def makes_emit)+

end
