(* ===== verification/WriterProps.thy ===== *)
theory WriterProps
  imports WriterSpec
begin

text \<open>
  The properties of the serializing half of \<^verbatim>\<open>ext/serializer.cpp\<close>: which values are
  written and with which bytes, which errors are raised and when, and that well-formed field
  tables never lead to a null pointer.
\<close>

section \<open>A schema to evaluate on\<close>

text \<open>
  The tables the generator emits for
  \<^verbatim>\<open>struct User { 1: required i32 id, 2: optional string name, 3: optional list<byte> tags }\<close>
  and \<^verbatim>\<open>struct Team { 1: required User lead }\<close>.
\<close>

definition sample_field :: "int \<Rightarrow> string \<Rightarrow> bool \<Rightarrow> (rvalue \<times> rvalue) list \<Rightarrow> rvalue" where
  "sample_field t nm opt extra =
     RHash ([(RSym ''type'', RInt t), (RSym ''name'', RStr UTF8 nm), (RSym ''optional'', RBool opt)]
            @ extra)"

definition sample_env :: ruby_env where
  "sample_env = \<lparr>
     FIELDS = (\<lambda>k.
       if k = ''User'' then Some (RHash
         [(RInt 1, sample_field 8 ''id'' False []),
          (RInt 2, sample_field 11 ''name'' True []),
          (RInt 3, sample_field 15 ''tags'' True [(RSym ''element'', RHash [(RSym ''type'', RInt 3)])])])
       else if k = ''Team'' then Some (RHash
         [(RInt 1, sample_field 12 ''lead'' False [(RSym ''class'', RClass ''User'')])])
       else None),
     inherits_union = (\<lambda>k. False),
     new_instance = (\<lambda>k. Inr (RObj k [])),
     key_eql = (=),
     num2int = (\<lambda>v. Inl (RubyError ''TypeError''))\<rparr>"

definition fresh :: "'p \<Rightarrow> 'p sstate" where
  "fresh p = \<lparr>klassCache = (\<lambda>k. None), unions = {}, tprot = p\<rparr>"

lemma fresh_cache_ok [simp]: "cache_ok E (fresh p)"
  by (simp add: cache_ok_def fresh_def)

lemma fresh_tprot [simp]: "tprot (fresh p) = p"
  by (simp add: fresh_def)

definition info_id :: FieldInfo where
  "info_id = FieldInfo T_I32 None (Some ''@id'') (Some ''id'') False False None None"

definition info_name :: FieldInfo where
  "info_name = FieldInfo T_STRING None (Some ''@name'') (Some ''name'') True False None None"

definition info_tag :: FieldInfo where
  "info_tag = FieldInfo T_BYTE None None None False False None None"

definition info_tags :: FieldInfo where
  "info_tags = FieldInfo T_LIST None (Some ''@tags'') (Some ''tags'') True False (Some info_tag) None"

definition info_lead :: FieldInfo where
  "info_lead = FieldInfo T_STRUCT (Some ''User'') (Some ''@lead'') (Some ''lead'') False False None None"

lemma ttype_of_id_sample [simp]:
  "ttype_of_id 3 = T_BYTE" "ttype_of_id 8 = T_I32" "ttype_of_id 11 = T_STRING"
  "ttype_of_id 12 = T_STRUCT" "ttype_of_id 15 = T_LIST"
  by (simp_all add: ttype_of_id_def)

lemma FieldID_of_small [simp]: "FieldID_of 1 = 1" "FieldID_of 2 = 2" "FieldID_of 3 = 3"
  by (simp_all add: FieldID_of_def)

lemmas CreateFieldInfo_eval = CreateFieldInfo.simps NIL_P_def rb_hash_aref_def R_FIX_TO_TTYPE_def
  VALUE2INT_def FIX2INT_def in_signed_def field_name_to_ivar_id_def field_name_to_sym_def RTEST_def
  class_object_def

lemma sample_infos:
  "CreateFieldInfo E (sample_field 8 ''id'' False []) = Inr info_id"
  "CreateFieldInfo E (sample_field 11 ''name'' True []) = Inr info_name"
  "CreateFieldInfo E (sample_field 15 ''tags'' True
     [(RSym ''element'', RHash [(RSym ''type'', RInt 3)])]) = Inr info_tags"
  "CreateFieldInfo E (sample_field 12 ''lead'' False [(RSym ''class'', RClass ''User'')]) = Inr info_lead"
  by (simp_all add: sample_field_def CreateFieldInfo_eval info_id_def info_name_def info_tag_def
      info_tags_def info_lead_def)

lemma sample_User: "CreateFieldInfoMap sample_env ''User'' = Inr [(1, info_id), (2, info_name), (3, info_tags)]"
  by (simp add: CreateFieldInfoMap_def sample_env_def sample_infos VALUE2INT_def FIX2INT_def in_signed_def)

lemma sample_Team: "CreateFieldInfoMap sample_env ''Team'' = Inr [(1, info_lead)]"
  by (simp add: CreateFieldInfoMap_def sample_env_def sample_infos VALUE2INT_def FIX2INT_def in_signed_def)

lemma sample_none: "k \<noteq> ''User'' \<Longrightarrow> k \<noteq> ''Team'' \<Longrightarrow>
    CreateFieldInfoMap sample_env k = Inl (RubyError ''NameError'')"
  by (simp add: CreateFieldInfoMap_def sample_env_def)

definition sample_user :: rvalue where
  "sample_user = RObj ''User'' [(''@id'', RInt 7), (''@tags'', RArray [RInt (-1)])]"

definition sample_calls :: "tcall list" where
  "sample_calls =
     [WFieldBegin T_I32 1, WI32 7, WFieldEnd,
      WFieldBegin T_LIST 3, WListBegin T_BYTE 1, WByte (- 1), WListEnd, WFieldEnd]"

lemma sample_user_enc: "enc_struct_body sample_env ''User'' sample_user sample_calls"
proof -
  have id: "enc sample_env info_id (RInt 7) [WI32 7]"
    using enc_i32 [of info_id 7 sample_env] by (simp add: info_id_def in_signed_def)
  have tag: "enc sample_env info_tag (RInt (-1)) [WByte (- 1)]"
    using enc_byte [of info_tag "-1" sample_env] by (simp add: info_tag_def in_signed_def)
  have tags: "enc sample_env info_tags (RArray [RInt (-1)]) [WListBegin T_BYTE 1, WByte (- 1), WListEnd]"
    using enc_list [of info_tags info_tag sample_env "[RInt (-1)]" "[[WByte (- 1)]]"] tag
    by (simp add: info_tags_def) (simp add: info_tag_def)
  let ?css = "[[WFieldBegin T_I32 1, WI32 7, WFieldEnd], [],
    [WFieldBegin T_LIST 3, WListBegin T_BYTE 1, WByte (- 1), WListEnd, WFieldEnd]]"
  have "list_all2 (enc_field (enc sample_env) sample_user)
      [(1, info_id), (2, info_name), (3, info_tags)] ?css"
    using id tags
    by (simp add: enc_field_def NIL_P_def sample_user_def info_id_def info_name_def info_tags_def)
  then show ?thesis
    unfolding enc_struct_body_def sample_User sample_calls_def
    by (intro exI [of _ "[(1, info_id), (2, info_name), (3, info_tags)]"] exI [of _ ?css]) simp
qed

section \<open>What is written\<close>

text \<open>A protocol object over a buffer that shows the calls; it never throws.\<close>

definition log_protocol :: "unit tproto" where
  "log_protocol = \<lparr>w_throws = (\<lambda>h c. None), w_buffer = (\<lambda>h. show_nat (length h)), r_init = (\<lambda>b. ()),
     r_structBegin = sraise ''x'', r_structEnd = sraise ''x'', r_fieldBegin = sraise ''x'',
     r_fieldEnd = sraise ''x'', r_bool = sraise ''x'', r_byte = sraise ''x'', r_i16 = sraise ''x'',
     r_i32 = sraise ''x'', r_i64 = sraise ''x'', r_double = sraise ''x'', r_string = sraise ''x'',
     r_binary = sraise ''x'', r_listBegin = sraise ''x'', r_listEnd = sraise ''x'',
     r_setBegin = sraise ''x'', r_setEnd = sraise ''x'', r_mapBegin = sraise ''x'',
     r_mapEnd = sraise ''x'', r_skip = (\<lambda>t. sraise ''x'')\<rparr>"

lemma log_never_throws: "never_throws log_protocol"
  by (simp add: never_throws_def log_protocol_def)

lemma makes_writeStruct:
  assumes "never_throws P" and "enc_struct_body E klass data cs"
  shows "makes E (writeStruct E P klass data) cs"
proof -
  obtain flds css where m: "CreateFieldInfoMap E klass = Inr flds"
    and all: "list_all2 (enc_field (enc E) data) flds css" and cs: "cs = concat css"
    using assms(2) by (auto simp: enc_struct_body_def)
  have "list_all2 (enc_field (\<lambda>info v cs. \<forall>fsym.
        makes E (writeAny E P (ftype info) info v data fsym) cs) data) flds css"
    by (rule list_all2_mono [OF all]) (auto simp: enc_field_def enc_makes [OF assms(1)] split: if_splits)
  then show ?thesis unfolding cs by (rule makes_fields [OF assms(1) _ m])
qed

definition struct_message :: "tcall list \<Rightarrow> tcall list" where
  "struct_message cs = WStructBegin # cs @ [WFieldStop, WStructEnd]"

definition write_message :: "ruby_env \<Rightarrow> 's tproto \<Rightarrow> klass \<Rightarrow> rvalue \<Rightarrow> (wstate, rberror, unit) sexn" where
  "write_message E P klass data =
     sbind (emit P WStructBegin) (\<lambda>_. sbind (writeStruct E P klass data) (\<lambda>_.
     sbind (emit P WFieldStop) (\<lambda>_. emit P WStructEnd)))"

lemma write_message_makes:
  "never_throws P \<Longrightarrow> enc_struct_body E klass data cs \<Longrightarrow>
     makes E (write_message E P klass data) (struct_message cs)"
  unfolding write_message_def struct_message_def
  using makes_emit_then [OF _ makes_then [OF makes_writeStruct makes_emit_then [OF _ makes_emit]]]
  by blast

lemma write_message_writes:
  "writes E (write_message E P klass data)
     (\<lambda>ds. \<exists>cs. ds = struct_message cs \<and> enc_struct_body E klass data cs)"
  unfolding write_message_def
  by (rule writes_then [where A = "\<lambda>cs. cs = [WStructBegin]"], rule writes_emit, simp,
      rule writes_then [OF write_enc(2)],
      rule writes_then [where A = "\<lambda>cs. cs = [WFieldStop]"], rule writes_emit, simp,
      rule writes_emit) (simp add: struct_message_def)

lemma serializer_writeStruct_message:
  "serializer_writeStruct E P klass data st =
     (if class_name data \<noteq> klass then
        (Inl (with_names TypeMismatch
            (''Mismatched type passed to serialize (expected: '' @ klass @ '' got: ''
               @ class_name data @ '')'') (class_name data) (Some ''(root)'')), st)
      else case write_message E P klass data st of
          (Inl (TException what), st') \<Rightarrow> (Inl (NativeError what), st')
        | (Inl e, st') \<Rightarrow> (Inl e, st')
        | (Inr _, st') \<Rightarrow> (Inr (RStr ASCII_8BIT (w_buffer P (tprot st'))), st'))"
  by (auto simp: serializer_writeStruct_def write_message_def catch_thrift_and_reraise_def sbind_def
      with_names_def split: prod.splits sum.splits rberror.splits)

lemma writeStruct_succeeds:
  assumes "never_throws P" and "cache_ok E st"
  shows "fst (serializer_writeStruct E P klass data st) = Inr v \<longleftrightarrow>
    class_name data = klass \<and>
    (\<exists>cs. enc_struct_body E klass data cs \<and>
       v = RStr ASCII_8BIT (w_buffer P (tprot st @ struct_message cs)))"
proof (cases "class_name data = klass")
  case False
  then show ?thesis by (simp add: serializer_writeStruct_message)
next
  case True
  obtain r st' where run: "write_message E P klass data st = (r, st')" by fastforce
  show ?thesis
  proof (cases r)
    case (Inr u)
    then obtain cs where cs: "tprot st' = tprot st @ struct_message cs" "enc_struct_body E klass data cs"
      using write_message_writes [of E P klass data] assms(2) run unfolding writes_def by auto
    have "cs' = cs" if "enc_struct_body E klass data cs'" for cs'
      using write_message_makes [OF assms(1) that] assms(2) run cs(1)
      by (auto simp: makes_def struct_message_def)
    moreover have "fst (serializer_writeStruct E P klass data st) = Inr v \<longleftrightarrow>
        v = RStr ASCII_8BIT (w_buffer P (tprot st @ struct_message cs))"
      using True Inr run cs(1) by (auto simp: serializer_writeStruct_message)
    ultimately show ?thesis using True cs(2) by metis
  next
    case (Inl e)
    have "\<not> enc_struct_body E klass data cs" for cs
    proof
      assume "enc_struct_body E klass data cs"
      then have "\<exists>st'. write_message E P klass data st = (Inr (), st')"
        using write_message_makes [OF assms(1)] assms(2) unfolding makes_def by blast
      then show False using run Inl by simp
    qed
    then show ?thesis
      using True Inl run by (auto simp: serializer_writeStruct_message split: rberror.splits)
  qed
qed

text \<open>C3: \<^verbatim>\<open>serializer_writeStruct\<close> returns a string exactly for the objects of the
  given class that have an encoding under the class's field table (every required field set,
  every value of its declared type, every integer in range), and the string is then the buffer
  after the calls of this encoding, whatever the field cache held before.\<close>

theorem serialize_iff:
  assumes "never_throws P" and "cache_ok E st"
  shows "fst (serializer_writeStruct E P klass data st) = Inr v \<longleftrightarrow>
    class_name data = klass \<and>
    (\<exists>cs. enc_struct_body E klass data cs \<and>
       v = RStr ASCII_8BIT (w_buffer P (tprot st @ struct_message cs)))"
  using assms by (rule writeStruct_succeeds)

theorem serialize_iff_witness:
  "fst (serializer_writeStruct sample_env log_protocol ''User'' sample_user (fresh [])) =
     Inr (RStr ASCII_8BIT (show_nat 11))"
proof -
  let ?v = "RStr ASCII_8BIT (show_nat 11)"
  have "class_name sample_user = ''User''" by (simp add: sample_user_def)
  moreover have "?v = RStr ASCII_8BIT (w_buffer log_protocol (tprot (fresh []) @ struct_message sample_calls))"
    by (simp add: struct_message_def sample_calls_def log_protocol_def eval_nat_numeral)
  ultimately show ?thesis
    using serialize_iff [OF log_never_throws fresh_cache_ok [of sample_env "[]"], where
      klass = "''User''" and data = sample_user and v = ?v]
      sample_user_enc by blast
qed

section \<open>Required fields\<close>

lemma check_required_first:
  assumes "list_all (\<lambda>p. required_set data (snd p)) pre" and "\<not> isOptional info"
    and "ivarName info = Some iv" and "rb_ivar_get data iv = RNil"
  shows "check_required klass data (pre @ (fid, info) # post) =
    Inl (with_names MissingMandatory ''Required field missing'' klass (symName info))"
  using assms(1)
  by (induction pre)
     (use assms(2-4) in \<open>auto simp: required_set_def field_value_def deref_def NIL_P_def\<close>)

text \<open>C15: A struct whose first unset required field (in the order of the ids) is \<open>name\<close> is
  refused with \<^verbatim>\<open>MissingMandatory\<close>, which carries the names of the class and of the
  field, and nothing of the struct has been written by then.\<close>

theorem missing_mandatory:
  assumes "cache_ok E st" and "CreateFieldInfoMap E klass = Inr (pre @ (fid, info) # post)"
    and "list_all (\<lambda>p. required_set data (snd p)) pre" and "\<not> isOptional info"
    and "ivarName info = Some iv" and "rb_ivar_get data iv = RNil" and "symName info = Some name"
  shows "fst (writeStruct E P klass data st) =
      Inl (MissingMandatory (''Required field missing (in '' @ klass @ ''#'' @ name @ '')'') klass name) \<and>
    tprot (snd (writeStruct E P klass data st)) = tprot st"
proof -
  have "checkRequiredFields E klass data (loaded E klass st) =
      (Inl (with_names MissingMandatory ''Required field missing'' klass (Some name)),
       loaded E klass (loaded E klass st))"
    using check_required_first [OF assms(3-6)] assms(1,2,7)
    by (simp add: checkRequiredFields_def sbind_def FindOrCreate_loaded)
  then have "writeStruct E P klass data st =
      (Inl (with_names MissingMandatory ''Required field missing'' klass (Some name)),
       loaded E klass (loaded E klass st))"
    using assms(1,2) by (subst writeStruct.simps) (simp add: sbind_def FindOrCreate_loaded)
  then show ?thesis by (simp add: with_names_def)
qed

theorem missing_mandatory_witness:
  "fst (writeStruct sample_env log_protocol ''User'' (RObj ''User'' [(''@name'', RStr UTF8 ''x'')]) (fresh []))
     = Inl (MissingMandatory ''Required field missing (in User#id)'' ''User'' ''id'')"
  using missing_mandatory [OF fresh_cache_ok [of sample_env "[]"], where P = log_protocol and pre = "[]" and fid = 1 and info = info_id and
      post = "[(2, info_name), (3, info_tags)]" and klass = "''User''" and
      data = "RObj ''User'' [(''@name'', RStr UTF8 ''x'')]" and iv = "''@id''" and name = "''id''"]
  by (simp add: sample_User info_id_def)

section \<open>Integers\<close>

fun int_width :: "ttype \<Rightarrow> nat" where
  "int_width T_BYTE = 8"
| "int_width T_I16 = 16"
| "int_width T_I32 = 32"
| "int_width t = 64"

fun int_payload :: "tcall \<Rightarrow> (ttype \<times> int) option" where
  "int_payload (WByte w) = Some (T_BYTE, sint w)"
| "int_payload (WI16 w) = Some (T_I16, sint w)"
| "int_payload (WI32 w) = Some (T_I32, sint w)"
| "int_payload (WI64 w) = Some (T_I64, sint w)"
| "int_payload c = None"

lemma convert_range:
  "\<not> in_signed 8 i \<Longrightarrow> \<exists>m. CONVERT_FIXNUM byte_convert t (RInt i) outer fsym = Inl (RangeError m)"
  "\<not> in_signed 16 i \<Longrightarrow> \<exists>m. CONVERT_FIXNUM SHORT_CONVERT t (RInt i) outer fsym = Inl (RangeError m)"
  "\<not> in_signed 32 i \<Longrightarrow> \<exists>m. CONVERT_FIXNUM FIX2INT t (RInt i) outer fsym = Inl (RangeError m)"
  "\<not> in_signed 64 i \<Longrightarrow> \<exists>m. CONVERT_I64 (RInt i) outer fsym = Inl (RangeError m)"
proof -
  have byte: "\<exists>m. byte_convert i = Inl (RangeError m)" if "\<not> in_signed 8 i"
  proof (cases "in_signed 16 i")
    case True
    have "sint (word_of_int i :: 16 word) = i" using True by (simp add: sint_of_in_signed)
    then show ?thesis
      using that True by (auto simp: byte_convert_def SHORT_CONVERT_def in_signed_def)
  qed (simp add: byte_convert_def SHORT_CONVERT_def)
  then show "\<not> in_signed 8 i \<Longrightarrow> \<exists>m. CONVERT_FIXNUM byte_convert t (RInt i) outer fsym = Inl (RangeError m)"
    by (simp add: CONVERT_FIXNUM_def)
  show "\<not> in_signed 16 i \<Longrightarrow> \<exists>m. CONVERT_FIXNUM SHORT_CONVERT t (RInt i) outer fsym = Inl (RangeError m)"
    by (simp add: CONVERT_FIXNUM_def SHORT_CONVERT_def)
  show "\<not> in_signed 32 i \<Longrightarrow> \<exists>m. CONVERT_FIXNUM FIX2INT t (RInt i) outer fsym = Inl (RangeError m)"
    by (simp add: CONVERT_FIXNUM_def FIX2INT_def)
  show "\<not> in_signed 64 i \<Longrightarrow> \<exists>m. CONVERT_I64 (RInt i) outer fsym = Inl (RangeError m)"
    using FIXNUM_P_def [of i] by (auto simp: CONVERT_I64_def rb_big2ll_def in_signed_def)
qed

text \<open>C16: Writing an Integer into an integer field of any width makes one call with
  exactly this number when it is in the range of the type, and otherwise raises
  \<^verbatim>\<open>RangeError\<close> and writes nothing: no value is ever truncated.\<close>

theorem write_integer_exact:
  assumes "t \<in> {T_BYTE, T_I16, T_I32, T_I64}" and "never_throws P"
  shows "if in_signed (int_width t) i
    then \<exists>c. writeAny E P t fi (RInt i) outer fsym st = (Inr (), st\<lparr>tprot := tprot st @ [c]\<rparr>) \<and>
      int_payload c = Some (t, i)
    else \<exists>m. writeAny E P t fi (RInt i) outer fsym st = (Inl (RangeError m), st)"
proof (cases "in_signed (int_width t) i")
  case True
  have "emit P c st = (Inr (), st\<lparr>tprot := tprot st @ [c]\<rparr>)" for c
    using assms(2) by (simp add: emit_def never_throws_def)
  then show ?thesis
    using assms(1) True
    by (subst writeAny.simps) (auto simp: convert_ok sbind_unit_fun sint_of_in_signed)
next
  case False
  then have "\<exists>m. writeAny E P t fi (RInt i) outer fsym st = (Inl (RangeError m), st)"
    using assms(1) convert_range(1) [of i T_BYTE outer fsym] convert_range(2) [of i T_I16 outer fsym]
      convert_range(3) [of i T_I32 outer fsym] convert_range(4) [of i outer fsym]
    by (subst writeAny.simps) (auto simp: sbind_def)
  then show ?thesis using False by simp
qed

theorem write_integer_exact_witness:
  "\<exists>m. writeAny sample_env log_protocol T_BYTE info_tag (RInt 128) RNil None (fresh []) =
     (Inl (RangeError m), fresh [])"
  using write_integer_exact [of T_BYTE log_protocol 128 sample_env info_tag RNil None "fresh []"]
  by (simp add: log_never_throws in_signed_def)

section \<open>No null pointer\<close>

text \<open>
  A table is well formed when its fields are named and every struct type in it has a class;
  \<^verbatim>\<open>CreateFieldInfo\<close> itself sees to the element and key types of containers.
\<close>

fun info_ok :: "FieldInfo \<Rightarrow> bool" where
  "info_ok (FieldInfo t k iv nm opt bin el ke) \<longleftrightarrow>
     (t = T_STRUCT \<longrightarrow> k \<noteq> None) \<and>
     (t \<in> {T_LIST, T_SET, T_MAP} \<longrightarrow> el \<noteq> None) \<and> (t = T_MAP \<longrightarrow> ke \<noteq> None) \<and>
     (case el of None \<Rightarrow> True | Some e \<Rightarrow> info_ok e) \<and> (case ke of None \<Rightarrow> True | Some e \<Rightarrow> info_ok e)"

definition table_ok :: "FieldInfoMap \<Rightarrow> bool" where
  "table_ok m \<longleftrightarrow>
     list_all (\<lambda>p. info_ok (snd p) \<and> ivarName (snd p) \<noteq> None \<and> symName (snd p) \<noteq> None) m"

definition tables_ok :: "ruby_env \<Rightarrow> bool" where
  "tables_ok E \<longleftrightarrow> (\<forall>k. case CreateFieldInfoMap E k of Inl e \<Rightarrow> e \<noteq> NullDeref | Inr m \<Rightarrow> table_ok m)"

definition no_null :: "ruby_env \<Rightarrow> ('p sstate, rberror, 'a) sexn \<Rightarrow> bool" where
  "no_null E m \<longleftrightarrow> (\<forall>st. cache_ok E st \<longrightarrow> fst (m st) \<noteq> Inl NullDeref)"

lemma no_null_sret: "no_null E (sret x)"
  by (simp add: no_null_def)

lemma no_null_sraise: "e \<noteq> NullDeref \<Longrightarrow> no_null E (sraise e)"
  by (simp add: no_null_def)

lemma no_null_sbind:
  fixes m :: "('p sstate, rberror, 'a) sexn"
  assumes "keeps_cache E m" and "no_null E m" and "\<And>x. no_null E (f x)"
  shows "no_null E (sbind m f)"
  unfolding no_null_def
proof (intro allI impI)
  fix st :: "'p sstate"
  assume st: "cache_ok E st"
  obtain r st' where run: "m st = (r, st')" by (cases "m st")
  have "cache_ok E st'" using assms(1) st run by (metis keeps_cache_def snd_conv)
  then show "fst (sbind m f st) \<noteq> Inl NullDeref"
    using assms(2,3) st run unfolding no_null_def
    by (cases r) (auto simp: sbind_raises sbind_returns dest!: spec [of _ st])
qed

lemma no_null_sfor:
  "(\<And>x. x \<in> set xs \<Longrightarrow> keeps_cache E (f x) \<and> no_null E (f x)) \<Longrightarrow> no_null E (sfor f xs)"
proof (induction xs)
  case Nil
  then show ?case unfolding sfor.simps by (simp add: no_null_sret del: sret_apply)
next
  case (Cons x xs)
  then show ?case unfolding sfor.simps by (intro no_null_sbind) auto
qed

lemma no_null_emit: "no_null E (emit P c)"
  by (auto simp: no_null_def emit_def split: option.split)

lemma no_null_slift: "r \<noteq> Inl NullDeref \<Longrightarrow> (\<And>x. r = Inr x \<Longrightarrow> no_null E (f x)) \<Longrightarrow>
    no_null E (sbind (slift r) f)"
  by (cases r) (auto simp: no_null_def sbind_unit_fun)

lemma no_null_FindOrCreate:
  assumes "tables_ok E" and "\<And>m. CreateFieldInfoMap E k = Inr m \<Longrightarrow> table_ok m \<Longrightarrow> no_null E (f m)"
  shows "no_null E (sbind (FindOrCreateFieldInfoMap E k) f)"
  unfolding no_null_def
proof (intro allI impI)
  fix st :: "'a sstate"
  assume st: "cache_ok E st"
  then have run: "FindOrCreateFieldInfoMap E k st = (CreateFieldInfoMap E k, loaded E k st)"
    by (rule FindOrCreate_loaded)
  show "fst (sbind (FindOrCreateFieldInfoMap E k) f st) \<noteq> Inl NullDeref"
  proof (cases "CreateFieldInfoMap E k")
    case (Inl e)
    then have "e \<noteq> NullDeref" using assms(1) by (auto simp: tables_ok_def dest: spec [of _ k])
    then show ?thesis using run Inl by (simp add: sbind_raises)
  next
    case (Inr m)
    then have "table_ok m" using assms(1) by (auto simp: tables_ok_def dest: spec [of _ k])
    then show ?thesis
      using run Inr assms(2) [OF Inr] loaded_cache_ok [OF st, of k]
      by (simp add: sbind_returns no_null_def)
  qed
qed

lemma type_errors_not_null:
  assumes "fsym \<noteq> None"
  shows "raise_type_mismatch_ttype outer fsym n v \<noteq> NullDeref"
    and "raise_type_mismatch outer fsym k v \<noteq> NullDeref"
    and "CONVERT_I64 v outer fsym \<noteq> Inl NullDeref"
    and "CONVERT_FLOAT v outer fsym \<noteq> Inl NullDeref"
    and "convertBool v outer fsym \<noteq> Inl NullDeref"
    and "(\<And>i. cv i \<noteq> Inl NullDeref) \<Longrightarrow> CONVERT_FIXNUM cv t v outer fsym \<noteq> Inl NullDeref"
  using assms
  by (auto simp: raise_type_mismatch_ttype_def raise_type_mismatch_def with_names_def CONVERT_I64_def
      rb_big2ll_def CONVERT_FLOAT_def convertBool_def CONVERT_FIXNUM_def split: option.splits rvalue.splits)

lemma convert_not_null:
  "SHORT_CONVERT i \<noteq> Inl NullDeref" "FIX2INT i \<noteq> Inl NullDeref" "byte_convert i \<noteq> Inl NullDeref"
  by (auto simp: SHORT_CONVERT_def FIX2INT_def byte_convert_def result_simps)

lemma no_null_fields:
  assumes "\<And>fid info iv. (fid, info) \<in> set flds \<Longrightarrow> ivarName info = Some iv \<Longrightarrow>
      \<not> NIL_P (rb_ivar_get data iv) \<Longrightarrow> no_null E (w info iv) \<and> keeps_cache E (w info iv)"
    and "table_ok flds"
  shows "no_null E (sfor (\<lambda>(fid, info).
       case ivarName info of
         None \<Rightarrow> sraise NullDeref
       | Some ivar \<Rightarrow>
           if \<not> NIL_P (rb_ivar_get data ivar) then
             sbind (emit P (WFieldBegin (ftype info) (word_of_int fid))) (\<lambda>_.
             sbind (w info ivar) (\<lambda>_.
             emit P WFieldEnd))
           else sret ()) flds)"
proof (rule no_null_sfor)
  fix p
  assume p: "p \<in> set flds"
  obtain fid info where fi: "p = (fid, info)" by (cases p)
  then obtain iv where iv: "ivarName info = Some iv"
    using assms(2) p by (auto simp: table_ok_def list_all_iff)
  have w: "\<not> NIL_P (rb_ivar_get data iv) \<Longrightarrow> no_null E (w info iv) \<and> keeps_cache E (w info iv)"
    using assms(1) p fi iv by blast
  show "keeps_cache E (case p of (fid, info) \<Rightarrow>
       case ivarName info of
         None \<Rightarrow> sraise NullDeref
       | Some ivar \<Rightarrow>
           if \<not> NIL_P (rb_ivar_get data ivar) then
             sbind (emit P (WFieldBegin (ftype info) (word_of_int fid))) (\<lambda>_.
             sbind (w info ivar) (\<lambda>_. emit P WFieldEnd))
           else sret ()) \<and> no_null E (case p of (fid, info) \<Rightarrow>
       case ivarName info of
         None \<Rightarrow> sraise NullDeref
       | Some ivar \<Rightarrow>
           if \<not> NIL_P (rb_ivar_get data ivar) then
             sbind (emit P (WFieldBegin (ftype info) (word_of_int fid))) (\<lambda>_.
             sbind (w info ivar) (\<lambda>_. emit P WFieldEnd))
           else sret ())"
    using w by (cases "NIL_P (rb_ivar_get data iv)")
      (auto simp: fi iv no_null_sret keeps_sret intro!: keeps_sbind keeps_emit no_null_sbind no_null_emit
        simp del: sret_apply)
qed

lemma info_ok_deref:
  "info_ok fi \<Longrightarrow> ftype fi \<in> {T_LIST, T_SET, T_MAP} \<Longrightarrow>
     \<exists>el. elementType fi = Some el \<and> info_ok el"
  "info_ok fi \<Longrightarrow> ftype fi = T_MAP \<Longrightarrow> \<exists>ke. keyType fi = Some ke \<and> info_ok ke"
  "info_ok fi \<Longrightarrow> ftype fi = T_STRUCT \<Longrightarrow> field_klass fi \<noteq> None"
  by (cases fi; auto split: option.splits)+

lemma check_required_no_null: "table_ok flds \<Longrightarrow> check_required klass data flds \<noteq> Inl NullDeref"
  by (induction klass data flds rule: check_required.induct)
     (auto simp: table_ok_def field_value_def deref_def with_names_def result_simps split: option.splits)

lemma no_null_checkRequired: "tables_ok E \<Longrightarrow> no_null E (checkRequiredFields E klass data)"
  unfolding checkRequiredFields_def
  by (rule no_null_FindOrCreate) (auto simp: no_null_def check_required_no_null)

lemma write_no_null:
  "tables_ok E \<Longrightarrow> info_ok fi \<Longrightarrow> fsym \<noteq> None \<Longrightarrow> ttype = ftype fi \<Longrightarrow>
     no_null E (writeAny E P ttype fi v outer fsym)"
  "tables_ok E \<Longrightarrow> no_null E (writeStruct E P klass data)"
proof (induction E P ttype fi v outer fsym and E P klass data rule: writeAny_writeStruct.induct)
  case (1 E P ttype fi v outer fsym)
  note IH = 1(1-5)
  have E: "tables_ok E" and fi: "info_ok fi" and fs: "fsym \<noteq> None" and t: "ttype = ftype fi"
    using 1(6-9) by simp_all
  note errs = type_errors_not_null [OF fs] convert_not_null
  note intros = no_null_sbind no_null_emit no_null_sfor no_null_slift keeps_sbind keeps_intro keeps_sfor
    write_keeps_cache
  show ?case
  proof (cases ttype)
    case T_LIST
    then obtain el where "elementType fi = Some el" "info_ok el" using info_ok_deref(1) [OF fi] t by auto
    then show ?thesis
      using T_LIST
      by (subst writeAny.simps)
        (auto simp: SPARSAM_CHECK_TYPE_def deref_def sbind_unit_fun IH E fs errs no_null_sraise
          intro!: intros split: option.split simp del: sraise_apply)
  next
    case T_SET
    then obtain el where "elementType fi = Some el" "info_ok el" using info_ok_deref(1) [OF fi] t by auto
    then show ?thesis
      using T_SET
      by (subst writeAny.simps)
        (auto simp: deref_def sbind_unit_fun IH E fs errs no_null_sraise
          intro!: intros split: option.split simp del: sraise_apply)
  next
    case T_MAP
    then obtain el ke where "elementType fi = Some el" "info_ok el" "keyType fi = Some ke" "info_ok ke"
      using info_ok_deref(1,2) [OF fi] t by auto
    then show ?thesis
      using T_MAP
      by (subst writeAny.simps)
        (auto simp: SPARSAM_CHECK_TYPE_def deref_def sbind_unit_fun IH E fs errs no_null_sraise
          intro!: intros split: option.split simp del: sraise_apply)
  next
    case T_STRUCT
    then obtain k where k: "field_klass fi = Some k" using info_ok_deref(3) [OF fi] t by auto
    then show ?thesis
      using T_STRUCT
      by (subst writeAny.simps)
        (auto simp: deref_def sbind_unit_fun IH E fs errs no_null_sraise intro!: intros simp del: sraise_apply)
  qed (subst writeAny.simps;
       auto simp: SPARSAM_CHECK_TYPE_def errs no_null_sraise no_null_sret intro!: intros split: option.split
         simp del: sraise_apply sret_apply)+
next
  case (2 E P klass data)
  have "no_null E (sbind (checkRequiredFields E klass data) (\<lambda>_. sfor (\<lambda>(fid, info).
       case ivarName info of
         None \<Rightarrow> sraise NullDeref
       | Some ivar \<Rightarrow>
           if \<not> NIL_P (rb_ivar_get data ivar) then
             sbind (emit P (WFieldBegin (ftype info) (word_of_int fid))) (\<lambda>_.
             sbind (writeAny E P (ftype info) info (rb_ivar_get data ivar) data (symName info)) (\<lambda>_.
             emit P WFieldEnd))
           else sret ()) flds))" if m: "table_ok flds" for flds
  proof (rule no_null_sbind [OF keeps_checkRequired no_null_checkRequired [OF 2(2)]],
      rule no_null_fields [OF _ m])
    fix fid info iv
    assume p: "(fid, info) \<in> set flds" "ivarName info = Some iv" "\<not> NIL_P (rb_ivar_get data iv)"
    then have "info_ok info" "symName info \<noteq> None" using m by (auto simp: table_ok_def list_all_iff)
    then show "no_null E (writeAny E P (ftype info) info (rb_ivar_get data iv) data (symName info)) \<and>
        keeps_cache E (writeAny E P (ftype info) info (rb_ivar_get data iv) data (symName info))"
      using p 2(2) by (auto simp: write_keeps_cache(1) intro: 2(1))
  qed
  then show ?case by (subst writeStruct.simps) (rule no_null_FindOrCreate [OF 2(2)])
qed

text \<open>C17: With well-formed field tables (every field named, every struct type with its
  class), no object whatsoever makes \<^verbatim>\<open>serializer_writeStruct\<close> dereference a null
  pointer: every failure is a Ruby exception.\<close>

theorem serialize_no_null:
  assumes "tables_ok E" and "cache_ok E st"
  shows "fst (serializer_writeStruct E P klass data st) \<noteq> Inl NullDeref"
proof -
  have "no_null E (write_message E P klass data)"
    unfolding write_message_def
    by (intro no_null_sbind no_null_emit keeps_intro write_keeps_cache write_no_null assms(1))
  then have "fst (write_message E P klass data st) \<noteq> Inl NullDeref"
    using assms(2) by (simp add: no_null_def)
  then show ?thesis
    by (auto simp: serializer_writeStruct_message with_names_def split: prod.splits sum.splits rberror.splits)
qed

lemma sample_tables_ok: "tables_ok sample_env"
  unfolding tables_ok_def
proof (rule allI)
  fix k
  show "case CreateFieldInfoMap sample_env k of Inl e \<Rightarrow> e \<noteq> NullDeref | Inr m \<Rightarrow> table_ok m"
    by (cases "k = ''User''"; cases "k = ''Team''")
       (simp_all add: sample_User sample_Team sample_none table_ok_def info_id_def info_name_def
         info_tags_def info_tag_def info_lead_def)
qed

theorem serialize_no_null_witness:
  "fst (serializer_writeStruct sample_env log_protocol ''Team'' (RObj ''Team'' [(''@lead'', RSym ''x'')])
     (fresh [])) \<noteq> Inl NullDeref"
  using serialize_no_null [OF sample_tables_ok fresh_cache_ok] by blast

end
