(* ===== verification/ReaderProps.thy ===== *)
theory ReaderProps
  imports Reader WriterProps
begin

text \<open>
  The deserializing half of \<^verbatim>\<open>ext/serializer.cpp\<close>: enough fuel for every protocol that
  consumes its input, and what the reader does with fields it does not expect.
\<close>

section \<open>Fuel\<close>

text \<open>\<open>m\<close> agrees with \<open>m'\<close> wherever it does not run out of fuel.\<close>

definition approx :: "('s, rberror, 'a) sexn \<Rightarrow> ('s, rberror, 'a) sexn \<Rightarrow> bool" where
  "approx m m' \<longleftrightarrow> (\<forall>st. fst (m st) \<noteq> Inl OutOfFuel \<longrightarrow> m' st = m st)"

named_theorems approx_intro

lemma approx_refl [approx_intro]: "approx m m"
  by (simp add: approx_def)

lemma approx_OutOfFuel: "approx (sraise OutOfFuel) m"
  by (simp add: approx_def)

lemma approx_sbind [approx_intro]:
  assumes m: "approx m m'" and f: "\<And>x. approx (f x) (f' x)"
  shows "approx (sbind m f) (sbind m' f')"
  unfolding approx_def
proof (intro allI impI)
  fix st
  assume no: "fst (sbind m f st) \<noteq> Inl OutOfFuel"
  obtain r st' where run: "m st = (r, st')" by (cases "m st")
  then have "fst (m st) \<noteq> Inl OutOfFuel" using no by (auto simp: sbind_raises)
  then have run': "m' st = (r, st')" using m run by (simp add: approx_def)
  show "sbind m' f' st = sbind m f st"
  proof (cases r)
    case (Inl e)
    then show ?thesis using run run' by (simp add: sbind_raises)
  next
    case (Inr x)
    then show ?thesis using run run' no f [of x] by (simp add: sbind_returns approx_def)
  qed
qed

lemma approx_srepeat [approx_intro]: "approx m m' \<Longrightarrow> approx (srepeat k m) (srepeat k m')"
  by (induction k) (auto intro!: approx_intro)

lemma readAny_body_approx:
  assumes "\<And>t fi. approx (a t fi) (a' t fi)" and "\<And>k. approx (s k) (s' k)" and "\<And>k. approx (u k) (u' k)"
  shows "approx (readAny_body E P a s u t fi) (readAny_body E P a' s' u' t fi)"
  unfolding readAny_body_def
  by (cases t; auto intro!: approx_intro assms split: option.split)

lemma readFields_body_approx:
  assumes "\<And>t fi. approx (a t fi) (a' t fi)" and "\<And>k m r. approx (l k m r) (l' k m r)"
  shows "approx (readFields_body P a l k m r) (readFields_body P a' l' k m r)"
  unfolding readFields_body_def
  by (auto intro!: approx_intro assms split: option.split)

lemma readStruct_body_approx:
  assumes "\<And>k m r. approx (l k m r) (l' k m r)"
  shows "approx (readStruct_body E l k) (readStruct_body E l' k)"
  unfolding readStruct_body_def by (auto intro!: approx_intro assms)

lemma readUnion_body_approx:
  assumes "\<And>t fi. approx (a t fi) (a' t fi)"
  shows "approx (readUnion_body E P a k) (readUnion_body E P a' k)"
  unfolding readUnion_body_def by (auto intro!: approx_intro assms split: option.split)

lemma reader_approx_Suc:
  "approx (readAny n E P t fi) (readAny (Suc n) E P t fi)"
  "approx (readStruct n E P k) (readStruct (Suc n) E P k)"
  "approx (readFields n E P kk flds ret) (readFields (Suc n) E P kk flds ret)"
  "approx (readUnion n E P k) (readUnion (Suc n) E P k)"
proof (induction n arbitrary: t fi k kk flds ret)
  case 0
  {
    case 1 show ?case by (simp add: approx_OutOfFuel del: sraise_apply)
  next
    case 2 show ?case by (simp add: approx_OutOfFuel del: sraise_apply)
  next
    case 3 show ?case by (simp add: approx_OutOfFuel del: sraise_apply)
  next
    case 4 show ?case by (simp add: approx_OutOfFuel del: sraise_apply)
  }
next
  case (Suc n)
  {
    case 1 show ?case
      by (subst (1 2) readAny.simps) (intro readAny_body_approx Suc)
  next
    case 2 show ?case
      by (subst (1 2) readStruct.simps) (intro readStruct_body_approx Suc)
  next
    case 3 show ?case
      by (subst (1 2) readFields.simps) (intro readFields_body_approx Suc)
  next
    case 4 show ?case
      by (subst (1 2) readUnion.simps) (intro readUnion_body_approx Suc)
  }
qed

lemma approx_mono:
  assumes "\<And>n. approx (f n) (f (Suc n))" and "m \<le> n" and "fst (f m st) \<noteq> Inl OutOfFuel"
  shows "f n st = f m st"
  using assms(2)
proof (induction n rule: dec_induct)
  case base
  then show ?case by simp
next
  case (step n)
  then show ?case using assms(1) [of n] assms(3) by (simp add: approx_def)
qed

text \<open>
  A protocol consumes its input when some measure of what is left (for the protocols of the
  Thrift library, the bytes not yet read) never grows, and falls with every field header
  other than the stop and every container header.
\<close>

definition reads_within :: "('s \<Rightarrow> nat) \<Rightarrow> ('s, string, 'a) sexn \<Rightarrow> ('a \<Rightarrow> bool) \<Rightarrow> bool" where
  "reads_within \<mu> m strict \<longleftrightarrow>
     (\<forall>s. \<mu> (snd (m s)) \<le> \<mu> s \<and>
        (case fst (m s) of Inl e \<Rightarrow> True | Inr x \<Rightarrow> strict x \<longrightarrow> \<mu> (snd (m s)) < \<mu> s))"

definition consuming :: "'s tproto \<Rightarrow> ('s \<Rightarrow> nat) \<Rightarrow> bool" where
  "consuming P \<mu> \<longleftrightarrow>
     reads_within \<mu> (r_structBegin P) (\<lambda>_. False) \<and> reads_within \<mu> (r_structEnd P) (\<lambda>_. False) \<and>
     reads_within \<mu> (r_fieldBegin P) (\<lambda>(t, i). t \<noteq> T_STOP) \<and>
     reads_within \<mu> (r_fieldEnd P) (\<lambda>_. False) \<and>
     reads_within \<mu> (r_bool P) (\<lambda>_. False) \<and> reads_within \<mu> (r_byte P) (\<lambda>_. False) \<and>
     reads_within \<mu> (r_i16 P) (\<lambda>_. False) \<and> reads_within \<mu> (r_i32 P) (\<lambda>_. False) \<and>
     reads_within \<mu> (r_i64 P) (\<lambda>_. False) \<and> reads_within \<mu> (r_double P) (\<lambda>_. False) \<and>
     reads_within \<mu> (r_string P) (\<lambda>_. False) \<and> reads_within \<mu> (r_binary P) (\<lambda>_. False) \<and>
     reads_within \<mu> (r_listBegin P) (\<lambda>_. True) \<and> reads_within \<mu> (r_listEnd P) (\<lambda>_. False) \<and>
     reads_within \<mu> (r_setBegin P) (\<lambda>_. True) \<and> reads_within \<mu> (r_setEnd P) (\<lambda>_. False) \<and>
     reads_within \<mu> (r_mapBegin P) (\<lambda>_. True) \<and> reads_within \<mu> (r_mapEnd P) (\<lambda>_. False) \<and>
     (\<forall>t. reads_within \<mu> (r_skip P t) (\<lambda>_. False))"

text \<open>From input of size at most \<open>b\<close>, \<open>m\<close> does not run out of fuel and leaves at most \<open>b\<close>.\<close>

definition fuels :: "('s \<Rightarrow> nat) \<Rightarrow> nat \<Rightarrow> ('s sstate, rberror, 'a) sexn \<Rightarrow> bool" where
  "fuels \<mu> b m \<longleftrightarrow>
     (\<forall>st. \<mu> (tprot st) \<le> b \<longrightarrow> fst (m st) \<noteq> Inl OutOfFuel \<and> \<mu> (tprot (snd (m st))) \<le> b)"

named_theorems fuels_intro

lemma fuels_sret [fuels_intro]: "fuels \<mu> b (sret x)"
  by (simp add: fuels_def)

lemma fuels_sraise: "e \<noteq> OutOfFuel \<Longrightarrow> fuels \<mu> b (sraise e)"
  by (simp add: fuels_def)

lemma fuels_sget: "(\<And>st. fuels \<mu> b (f st)) \<Longrightarrow> fuels \<mu> b (sbind sget f)"
  by (simp add: fuels_def)

lemma fuels_sbind:
  fixes m :: "('s sstate, rberror, 'a) sexn"
  assumes m: "fuels \<mu> b m" and f: "\<And>x. fuels \<mu> b (f x)"
  shows "fuels \<mu> b (sbind m f)"
  unfolding fuels_def
proof (intro allI impI)
  fix st :: "'s sstate"
  assume st: "\<mu> (tprot st) \<le> b"
  obtain r st' where run: "m st = (r, st')" by (cases "m st")
  then have st': "r \<noteq> Inl OutOfFuel" "\<mu> (tprot st') \<le> b" using m st by (auto simp: fuels_def)
  show "fst (sbind m f st) \<noteq> Inl OutOfFuel \<and> \<mu> (tprot (snd (sbind m f st))) \<le> b"
    using run st' f by (cases r) (auto simp: sbind_raises sbind_returns fuels_def)
qed

lemma rd_measure:
  assumes "reads_within \<mu> m strict"
  shows "fst (rd m st) \<noteq> Inl OutOfFuel" and "\<mu> (tprot (snd (rd m st))) \<le> \<mu> (tprot st)"
    and "fst (rd m st) = Inr x \<Longrightarrow> strict x \<Longrightarrow> \<mu> (tprot (snd (rd m st))) < \<mu> (tprot st)"
proof -
  obtain r s where run: "m (tprot st) = (r, s)" by (cases "m (tprot st)")
  have le: "\<mu> s \<le> \<mu> (tprot st)" and lt: "\<And>x. r = Inr x \<Longrightarrow> strict x \<Longrightarrow> \<mu> s < \<mu> (tprot st)"
    using assms [unfolded reads_within_def, rule_format, of "tprot st"] run by simp_all
  show "fst (rd m st) \<noteq> Inl OutOfFuel" and "\<mu> (tprot (snd (rd m st))) \<le> \<mu> (tprot st)"
    and "fst (rd m st) = Inr x \<Longrightarrow> strict x \<Longrightarrow> \<mu> (tprot (snd (rd m st))) < \<mu> (tprot st)"
    using run le lt by (cases r; simp add: rd_def)+
qed

lemma fuels_rd:
  assumes m: "reads_within \<mu> m strict" and f: "\<And>x. \<not> strict x \<Longrightarrow> fuels \<mu> b (f x)"
    and less: "\<And>x c. strict x \<Longrightarrow> c < b \<Longrightarrow> fuels \<mu> c (f x)"
  shows "fuels \<mu> b (sbind (rd m) f)"
  unfolding fuels_def
proof (intro allI impI)
  fix st :: "'a sstate"
  assume st: "\<mu> (tprot st) \<le> b"
  obtain r st' where run: "rd m st = (r, st')" by (cases "rd m st")
  note meas = rd_measure [OF m, of st, unfolded run fst_conv snd_conv]
  show "fst (sbind (rd m) f st) \<noteq> Inl OutOfFuel \<and> \<mu> (tprot (snd (sbind (rd m) f st))) \<le> b"
  proof (cases r)
    case (Inl e)
    then show ?thesis using run meas(1,2) st by (simp add: sbind_raises)
  next
    case (Inr x)
    then have eq: "sbind (rd m) f st = f x st'" using run by (simp add: sbind_returns)
    show ?thesis
    proof (cases "strict x")
      case False
      then show ?thesis using f [OF False] meas(2) st eq unfolding fuels_def by simp
    next
      case True
      have lt: "\<mu> (tprot st') < b" using meas(3) [OF Inr True] st by simp
      show ?thesis using less [OF True lt] lt eq unfolding fuels_def by fastforce
    qed
  qed
qed

lemma fuels_rd_only: "reads_within \<mu> m strict \<Longrightarrow> fuels \<mu> b (rd m)"
  unfolding fuels_def using rd_measure(1,2) le_trans by blast

lemma fuels_srepeat: "fuels \<mu> b m \<Longrightarrow> fuels \<mu> b (srepeat k m)"
  by (induction k) (auto intro!: fuels_sbind fuels_sret simp del: sret_apply)

lemma consumingD:
  assumes "consuming P \<mu>"
  shows "reads_within \<mu> (r_structBegin P) (\<lambda>_. False)" "reads_within \<mu> (r_structEnd P) (\<lambda>_. False)"
    "reads_within \<mu> (r_fieldBegin P) (\<lambda>(t, i). t \<noteq> T_STOP)" "reads_within \<mu> (r_fieldEnd P) (\<lambda>_. False)"
    "reads_within \<mu> (r_bool P) (\<lambda>_. False)" "reads_within \<mu> (r_byte P) (\<lambda>_. False)"
    "reads_within \<mu> (r_i16 P) (\<lambda>_. False)" "reads_within \<mu> (r_i32 P) (\<lambda>_. False)"
    "reads_within \<mu> (r_i64 P) (\<lambda>_. False)" "reads_within \<mu> (r_double P) (\<lambda>_. False)"
    "reads_within \<mu> (r_string P) (\<lambda>_. False)" "reads_within \<mu> (r_binary P) (\<lambda>_. False)"
    "reads_within \<mu> (r_listBegin P) (\<lambda>_. True)" "reads_within \<mu> (r_listEnd P) (\<lambda>_. False)"
    "reads_within \<mu> (r_setBegin P) (\<lambda>_. True)" "reads_within \<mu> (r_setEnd P) (\<lambda>_. False)"
    "reads_within \<mu> (r_mapBegin P) (\<lambda>_. True)" "reads_within \<mu> (r_mapEnd P) (\<lambda>_. False)"
    "reads_within \<mu> (r_skip P t) (\<lambda>_. False)"
  using assms by (simp_all add: consuming_def)

lemma fuels_skip:
  assumes "consuming P \<mu>"
  shows "fuels \<mu> b (skip_n_type P n t)" and "fuels \<mu> b (skip_n_pair P n t t')"
  unfolding skip_n_type_def skip_n_pair_def
  by (intro fuels_sbind fuels_srepeat fuels_sret fuels_rd_only [OF consumingD(19) [OF assms]])+

text \<open>The Ruby runtime does not know about fuel.\<close>

definition fuel_free :: "ruby_env \<Rightarrow> bool" where
  "fuel_free E \<longleftrightarrow> (\<forall>k. new_instance E k \<noteq> Inl OutOfFuel \<and> CreateFieldInfoMap E k \<noteq> Inl OutOfFuel)"

lemma fuels_FindOrCreate: "fuel_free E \<Longrightarrow> fuels \<mu> b (FindOrCreateFieldInfoMap E k)"
  unfolding fuels_def FindOrCreate_tprot
  by (auto simp: FindOrCreateFieldInfoMap_def fuel_free_def sbind_def split: option.split prod.splits sum.splits)

lemma fuels_new_instance:
  "fuel_free E \<Longrightarrow> (\<And>x. fuels \<mu> b (f x)) \<Longrightarrow> fuels \<mu> b (sbind (slift (rb_class_new_instance E k)) f)"
  by (rule fuels_sbind) (auto simp: fuels_def rb_class_new_instance_def fuel_free_def split: option.split)

lemma with_names_not_fuel: "with_names TypeMismatch m k f \<noteq> OutOfFuel"
  by (simp add: with_names_def split: option.split)

lemma readAny_body_fuels:
  assumes P: "consuming P \<mu>" and a: "\<And>t fi c. c < b \<Longrightarrow> fuels \<mu> c (a t fi)"
    and s: "\<And>k. fuels \<mu> b (s k)" and u: "\<And>k. fuels \<mu> b (u k)"
  shows "fuels \<mu> b (readAny_body E P a s u t fi)"
proof -
  note c = consumingD [OF P]
  note elems = a fuels_sbind fuels_srepeat fuels_sret fuels_skip [OF P] fuels_rd_only [OF c(14)]
    fuels_rd_only [OF c(16)] fuels_rd_only [OF c(18)]
  have list: "fuels \<mu> b (sbind (rd (r_listBegin P)) f)" "fuels \<mu> b (sbind (rd (r_setBegin P)) f)"
    if "\<And>x d. d < b \<Longrightarrow> fuels \<mu> d (f x)" for f :: "ttype \<times> 32 word \<Rightarrow> 'a reader"
    by (rule fuels_rd [OF c(13)]; simp add: that) (rule fuels_rd [OF c(15)]; simp add: that)
  have map: "fuels \<mu> b (sbind (rd (r_mapBegin P)) f)"
    if "\<And>x d. d < b \<Longrightarrow> fuels \<mu> d (f x)" for f :: "ttype \<times> ttype \<times> 32 word \<Rightarrow> 'a reader"
    by (rule fuels_rd [OF c(17)]; simp add: that)
  show ?thesis
  proof (cases t)
    case T_STRUCT
    have "fuels \<mu> b (case field_klass fi of None \<Rightarrow> s None
        | Some k \<Rightarrow> if k \<in> unions st then u (Some k) else s (Some k))" for st :: "'a sstate"
      using s u by (simp split: option.split)
    then show ?thesis
      unfolding readAny_body_def T_STRUCT ttype.case
      by (intro fuels_sbind fuels_sget fuels_sret fuels_rd_only [OF c(1)] fuels_rd_only [OF c(2)])
  next
    case T_LIST
    show ?thesis
      unfolding readAny_body_def T_LIST ttype.case
      by (rule list(1)) (auto intro!: elems split: option.split simp del: sret_apply)
  next
    case T_SET
    show ?thesis
      unfolding readAny_body_def T_SET ttype.case
      by (rule list(2)) (auto intro!: elems split: option.split simp del: sret_apply)
  next
    case T_MAP
    show ?thesis
      unfolding readAny_body_def T_MAP ttype.case
      by (rule map) (auto intro!: elems split: option.split simp del: sret_apply)
  qed (simp add: readAny_body_def del: sret_apply sraise_apply;
       intro conjI impI fuels_sbind fuels_sret fuels_rd_only [OF c(5)] fuels_rd_only [OF c(6)]
         fuels_rd_only [OF c(7)] fuels_rd_only [OF c(8)] fuels_rd_only [OF c(9)]
         fuels_rd_only [OF c(10)] fuels_rd_only [OF c(11)] fuels_rd_only [OF c(12)]
         fuels_rd_only [OF c(19)] fuels_sraise; simp)+
qed

lemma readFields_body_fuels:
  assumes P: "consuming P \<mu>" and a: "\<And>t fi c. c < b \<Longrightarrow> fuels \<mu> c (a t fi)"
    and l: "\<And>k m r c. c < b \<Longrightarrow> fuels \<mu> c (l k m r)"
  shows "fuels \<mu> b (readFields_body P a l k flds ret)"
proof -
  note c = consumingD [OF P]
  show ?thesis
    unfolding readFields_body_def
    by (rule fuels_rd [OF c(3)])
       (auto intro!: a l fuels_sbind fuels_sret fuels_rd_only [OF c(4)] fuels_rd_only [OF c(19)] fuels_sraise
         simp: struct_mismatch_def with_names_not_fuel split: option.split simp del: sret_apply sraise_apply)
qed

lemma readUnion_body_fuels:
  assumes P: "consuming P \<mu>" and E: "fuel_free E" and a: "\<And>t fi c. c < b \<Longrightarrow> fuels \<mu> c (a t fi)"
  shows "fuels \<mu> b (readUnion_body E P a k)"
proof -
  note c = consumingD [OF P]
  show ?thesis
    unfolding readUnion_body_def
    by (rule fuels_new_instance [OF E], rule fuels_sbind [OF fuels_FindOrCreate [OF E]],
        rule fuels_rd [OF c(3)])
       (auto intro!: a fuels_sbind fuels_sret fuels_rd_only [OF c(3)] fuels_rd_only [OF c(4)]
         fuels_rd_only [OF c(19)] fuels_sraise split: option.split simp del: sret_apply sraise_apply)
qed

lemma readStruct_body_fuels:
  assumes "fuel_free E" and "\<And>k m r. fuels \<mu> b (l k m r)"
  shows "fuels \<mu> b (readStruct_body E l k)"
  unfolding readStruct_body_def
  by (rule fuels_new_instance [OF assms(1)], rule fuels_sbind [OF fuels_FindOrCreate [OF assms(1)]])
     (rule assms(2))

lemma reader_fuels:
  assumes P: "consuming P \<mu>" and E: "fuel_free E"
  shows "3 * b + 3 \<le> n \<Longrightarrow> fuels \<mu> b (readAny n E P t fi)"
    and "3 * b + 2 \<le> n \<Longrightarrow> fuels \<mu> b (readStruct n E P k)"
    and "3 * b + 1 \<le> n \<Longrightarrow> fuels \<mu> b (readFields n E P kk flds ret)"
    and "3 * b + 2 \<le> n \<Longrightarrow> fuels \<mu> b (readUnion n E P k)"
proof (induction n arbitrary: b t fi k kk flds ret)
  case 0
  {
    case 1 then show ?case by simp
  next
    case 2 then show ?case by simp
  next
    case 3 then show ?case by simp
  next
    case 4 then show ?case by simp
  }
next
  case (Suc n)
  {
    case 1 then show ?case unfolding readAny.simps
      by (intro readAny_body_fuels [OF P] Suc) simp_all
  next
    case 2 then show ?case unfolding readStruct.simps
      by (intro readStruct_body_fuels [OF E] Suc) simp
  next
    case 3 then show ?case unfolding readFields.simps
      by (intro readFields_body_fuels [OF P] Suc) simp_all
  next
    case 4 then show ?case unfolding readUnion.simps
      by (intro readUnion_body_fuels [OF P E] Suc) simp
  }
qed

lemma catch_eq:
  "catch_thrift_and_reraise m st =
     (case fst (m st) of
        Inl (TException what) \<Rightarrow> (Inl (NativeError what), snd (m st))
      | _ \<Rightarrow> m st)"
  by (cases "m st") (simp add: catch_thrift_and_reraise_def split: sum.split rberror.split)

lemma catch_OutOfFuel: "fst (catch_thrift_and_reraise m st) = Inl OutOfFuel \<longleftrightarrow> fst (m st) = Inl OutOfFuel"
  by (auto simp: catch_eq split: sum.split rberror.split)

lemma catch_snd: "snd (catch_thrift_and_reraise m st) = snd (m st)"
  by (auto simp: catch_eq split: sum.split rberror.split)

lemma approx_catch: "approx m m' \<Longrightarrow> approx (catch_thrift_and_reraise m) (catch_thrift_and_reraise m')"
  unfolding approx_def catch_OutOfFuel
proof (intro allI impI)
  fix st
  assume "\<forall>st. fst (m st) \<noteq> Inl OutOfFuel \<longrightarrow> m' st = m st" and "fst (m st) \<noteq> Inl OutOfFuel"
  then have "m' st = m st" by blast
  then show "catch_thrift_and_reraise m' st = catch_thrift_and_reraise m st"
    by (simp add: catch_thrift_and_reraise_def)
qed

lemma fuels_catch: "fuels \<mu> b m \<Longrightarrow> fuels \<mu> b (catch_thrift_and_reraise m)"
  unfolding fuels_def catch_OutOfFuel catch_snd .

lemma serializer_readStruct_approx:
  "approx (serializer_readStruct n E P k) (serializer_readStruct (Suc n) E P k)"
  unfolding serializer_readStruct_def by (intro approx_catch approx_intro reader_approx_Suc)

text \<open>C4: Deserialization always ends, on any input however malformed: with a protocol that
  consumes its input, three turns per unit of input (and two more) are enough, and any larger
  fuel gives the same result, so the fuel is not part of the behaviour.\<close>

theorem deserialize_terminates:
  assumes "consuming P \<mu>" and "fuel_free E" and "3 * \<mu> (tprot st) + 2 \<le> n"
  shows "fst (serializer_readStruct n E P klass st) \<noteq> Inl OutOfFuel \<and>
    serializer_readStruct n E P klass st =
      serializer_readStruct (3 * \<mu> (tprot st) + 2) E P klass st"
proof -
  let ?f = "\<lambda>n. serializer_readStruct n E P klass"
  note c = consumingD [OF assms(1)]
  have ends: "fst (?f m st) \<noteq> Inl OutOfFuel" if "3 * \<mu> (tprot st) + 2 \<le> m" for m
  proof -
    have "fuels \<mu> (\<mu> (tprot st)) (?f m)"
      unfolding serializer_readStruct_def
      by (intro fuels_catch fuels_sbind fuels_sret fuels_rd_only [OF c(1)] fuels_rd_only [OF c(2)]
          reader_fuels(2) [OF assms(1,2) that])
    then show ?thesis by (simp add: fuels_def)
  qed
  then show ?thesis
    using approx_mono [of ?f, OF serializer_readStruct_approx assms(3), of st] assms(3) by simp
qed

text \<open>An exhausted input: every read throws.\<close>

definition empty_input :: "unit tproto" where
  "empty_input = log_protocol\<lparr>r_structBegin := sret (), r_fieldBegin := sraise ''No more data to read.''\<rparr>"

theorem deserialize_terminates_witness:
  "fst (serializer_readStruct 2 sample_env empty_input ''User'' (fresh ())) \<noteq> Inl OutOfFuel"
proof -
  have "consuming empty_input (\<lambda>_. 0)"
    by (simp add: consuming_def reads_within_def empty_input_def log_protocol_def)
  moreover have "fuel_free sample_env"
    unfolding fuel_free_def
  proof
    fix k
    show "new_instance sample_env k \<noteq> Inl OutOfFuel \<and> CreateFieldInfoMap sample_env k \<noteq> Inl OutOfFuel"
      by (cases "k = ''User''"; cases "k = ''Team''")
         (simp_all add: sample_User sample_Team sample_none, simp_all add: sample_env_def)
  qed
  ultimately show ?thesis
    by (intro conjunct1 [OF deserialize_terminates [where \<mu> = "\<lambda>_. 0"]]) simp_all
qed

end
