(* ===== verification/Wire.thy ===== *)
theory Wire
  imports ReaderProps
begin

text \<open>
  The Thrift protocols are not part of the program; what the serializer relies on is
  \<open>protocol_ok\<close>: reading returns what was written, and skipping a value passes over its
  calls. It is satisfiable: \<open>token_protocol\<close>, which keeps the calls as numbers in a string,
  meets it.
\<close>

section \<open>The calls of a value\<close>

definition field_calls :: "(ttype \<Rightarrow> tcall list \<Rightarrow> bool) \<Rightarrow> tcall list \<Rightarrow> bool" where
  "field_calls R cs \<longleftrightarrow> (\<exists>t i c. t \<noteq> T_STOP \<and> R t c \<and> cs = WFieldBegin t i # c @ [WFieldEnd])"

definition pair_calls :: "(tcall list \<Rightarrow> bool) \<Rightarrow> (tcall list \<Rightarrow> bool) \<Rightarrow> tcall list \<Rightarrow> bool" where
  "pair_calls K V cs \<longleftrightarrow> (\<exists>a b. K a \<and> V b \<and> cs = a @ b)"

lemma field_calls_mono [mono]:
  "(\<And>t c. R t c \<longrightarrow> S t c) \<Longrightarrow> field_calls R cs \<longrightarrow> field_calls S cs"
  unfolding field_calls_def by blast

lemma pair_calls_mono [mono]:
  "(\<And>c. K c \<longrightarrow> K' c) \<Longrightarrow> (\<And>c. V c \<longrightarrow> V' c) \<Longrightarrow> pair_calls K V cs \<longrightarrow> pair_calls K' V' cs"
  unfolding pair_calls_def by blast

lemma list_all_mono_rule [mono]:
  "(\<And>x. P x \<longrightarrow> Q x) \<Longrightarrow> list_all P xs \<longrightarrow> list_all Q xs"
  by (auto simp: list_all_iff)

text \<open>The well-formed call sequences for one value of a wire type.\<close>

inductive val_calls :: "ttype \<Rightarrow> tcall list \<Rightarrow> bool" where
  "val_calls T_BOOL [WBool b]"
| "val_calls T_BYTE [WByte w8]"
| "val_calls T_I16 [WI16 w16]"
| "val_calls T_I32 [WI32 w32]"
| "val_calls T_I64 [WI64 w64]"
| "val_calls T_DOUBLE [WDouble w64]"
| "val_calls T_STRING [WString s]"
| "val_calls T_STRING [WBinary s]"
| vc_list: "t \<in> {T_LIST, T_SET} \<Longrightarrow> list_all (val_calls el) css \<Longrightarrow> length css < 2 ^ 32 \<Longrightarrow>
    val_calls t (WListBegin el (of_nat (length css)) # concat css @ [WListEnd])"
| vc_map: "list_all (pair_calls (val_calls ke) (val_calls el)) css \<Longrightarrow> length css < 2 ^ 32 \<Longrightarrow>
    val_calls T_MAP (WMapBegin ke el (of_nat (length css)) # concat css @ [WMapEnd])"
| vc_struct: "list_all (field_calls val_calls) css \<Longrightarrow>
    val_calls T_STRUCT (WStructBegin # concat css @ [WFieldStop, WStructEnd])"

section \<open>What the serializer relies on\<close>

text \<open>\<open>Rel s cs\<close>: the protocol object in state \<open>s\<close> will read back the calls \<open>cs\<close>.\<close>

definition delivers ::
  "('s \<Rightarrow> tcall list \<Rightarrow> bool) \<Rightarrow> tcall \<Rightarrow> ('s, string, 'a) sexn \<Rightarrow> 'a \<Rightarrow> bool" where
  "delivers Rel c m x \<longleftrightarrow>
     (\<forall>s rest. Rel s (c # rest) \<longrightarrow> (\<exists>s'. m s = (Inr x, s') \<and> Rel s' rest))"

definition structs_ok :: "'s tproto \<Rightarrow> ('s \<Rightarrow> tcall list \<Rightarrow> bool) \<Rightarrow> bool" where
  "structs_ok P Rel \<longleftrightarrow>
     delivers Rel WStructBegin (r_structBegin P) () \<and> delivers Rel WStructEnd (r_structEnd P) () \<and>
     (\<forall>t i. t \<noteq> T_STOP \<longrightarrow> delivers Rel (WFieldBegin t i) (r_fieldBegin P) (t, i)) \<and>
     (\<forall>s rest. Rel s (WFieldStop # rest) \<longrightarrow>
        (\<exists>s' i. r_fieldBegin P s = (Inr (T_STOP, i), s') \<and> Rel s' rest)) \<and>
     delivers Rel WFieldEnd (r_fieldEnd P) ()"

definition scalars_ok :: "'s tproto \<Rightarrow> ('s \<Rightarrow> tcall list \<Rightarrow> bool) \<Rightarrow> bool" where
  "scalars_ok P Rel \<longleftrightarrow>
     (\<forall>b. delivers Rel (WBool b) (r_bool P) b) \<and>
     (\<forall>w. delivers Rel (WByte w) (r_byte P) w) \<and>
     (\<forall>w. delivers Rel (WI16 w) (r_i16 P) w) \<and>
     (\<forall>w. delivers Rel (WI32 w) (r_i32 P) w) \<and>
     (\<forall>w. delivers Rel (WI64 w) (r_i64 P) w) \<and>
     (\<forall>w. delivers Rel (WDouble w) (r_double P) w) \<and>
     (\<forall>x. delivers Rel (WString x) (r_string P) x) \<and>
     (\<forall>x. delivers Rel (WBinary x) (r_binary P) x)"

text \<open>
  Lists and sets have the same form on the wire. An empty map comes back without its types:
  the compact protocol writes only the size.
\<close>

definition containers_ok :: "'s tproto \<Rightarrow> ('s \<Rightarrow> tcall list \<Rightarrow> bool) \<Rightarrow> bool" where
  "containers_ok P Rel \<longleftrightarrow>
     (\<forall>t n. delivers Rel (WListBegin t n) (r_listBegin P) (t, n)) \<and>
     (\<forall>t n. delivers Rel (WListBegin t n) (r_setBegin P) (t, n)) \<and>
     delivers Rel WListEnd (r_listEnd P) () \<and> delivers Rel WListEnd (r_setEnd P) () \<and>
     (\<forall>s kt vt n rest. Rel s (WMapBegin kt vt n # rest) \<longrightarrow>
        (\<exists>s' kt' vt'. r_mapBegin P s = (Inr (kt', vt', n), s') \<and>
           (n \<noteq> 0 \<longrightarrow> kt' = kt \<and> vt' = vt) \<and> Rel s' rest)) \<and>
     delivers Rel WMapEnd (r_mapEnd P) ()"

definition skip_ok :: "'s tproto \<Rightarrow> ('s \<Rightarrow> tcall list \<Rightarrow> bool) \<Rightarrow> bool" where
  "skip_ok P Rel \<longleftrightarrow>
     (\<forall>t cs s rest. val_calls t cs \<longrightarrow> Rel s (cs @ rest) \<longrightarrow>
        (\<exists>s'. r_skip P t s = (Inr (), s') \<and> Rel s' rest))"

definition protocol_ok :: "'s tproto \<Rightarrow> ('s \<Rightarrow> tcall list \<Rightarrow> bool) \<Rightarrow> bool" where
  "protocol_ok P Rel \<longleftrightarrow>
     never_throws P \<and>
     (\<forall>cs. val_calls T_STRUCT cs \<longrightarrow> Rel (r_init P (w_buffer P cs)) cs) \<and>
     structs_ok P Rel \<and> scalars_ok P Rel \<and> containers_ok P Rel \<and> skip_ok P Rel"

lemma structs_okD:
  assumes "structs_ok P Rel"
  shows "delivers Rel WStructBegin (r_structBegin P) ()" and "delivers Rel WStructEnd (r_structEnd P) ()"
    and "t \<noteq> T_STOP \<Longrightarrow> delivers Rel (WFieldBegin t i) (r_fieldBegin P) (t, i)"
    and "Rel s (WFieldStop # rest) \<Longrightarrow> \<exists>s' i. r_fieldBegin P s = (Inr (T_STOP, i), s') \<and> Rel s' rest"
    and "delivers Rel WFieldEnd (r_fieldEnd P) ()"
  using assms by (simp_all add: structs_ok_def)

lemma scalars_okD:
  assumes "scalars_ok P Rel"
  shows "delivers Rel (WBool b) (r_bool P) b" and "delivers Rel (WByte w8) (r_byte P) w8"
    and "delivers Rel (WI16 w16) (r_i16 P) w16" and "delivers Rel (WI32 w32) (r_i32 P) w32"
    and "delivers Rel (WI64 w64) (r_i64 P) w64" and "delivers Rel (WDouble d) (r_double P) d"
    and "delivers Rel (WString x) (r_string P) x" and "delivers Rel (WBinary x) (r_binary P) x"
  using assms by (simp_all add: scalars_ok_def)

lemma containers_okD:
  assumes "containers_ok P Rel"
  shows "delivers Rel (WListBegin t n) (r_listBegin P) (t, n)"
    and "delivers Rel (WListBegin t n) (r_setBegin P) (t, n)"
    and "delivers Rel WListEnd (r_listEnd P) ()" and "delivers Rel WListEnd (r_setEnd P) ()"
    and "Rel s (WMapBegin kt vt n # rest) \<Longrightarrow> \<exists>s' kt' vt'. r_mapBegin P s = (Inr (kt', vt', n), s') \<and>
           (n \<noteq> 0 \<longrightarrow> kt' = kt \<and> vt' = vt) \<and> Rel s' rest"
    and "delivers Rel WMapEnd (r_mapEnd P) ()"
  using assms by (simp_all add: containers_ok_def)

lemma protocol_okD:
  assumes "protocol_ok P Rel"
  shows "never_throws P" and "structs_ok P Rel" and "scalars_ok P Rel" and "containers_ok P Rel"
    and "val_calls T_STRUCT cs \<Longrightarrow> Rel (r_init P (w_buffer P cs)) cs"
    and "val_calls t cs \<Longrightarrow> Rel s (cs @ rest) \<Longrightarrow> \<exists>s'. r_skip P t s = (Inr (), s') \<and> Rel s' rest"
  using assms by (simp_all add: protocol_ok_def skip_ok_def)

section \<open>A protocol that meets the laws\<close>

text \<open>Each call becomes a tag and its arguments, all numbers; a string has its length before it.\<close>

definition int_code :: "int \<Rightarrow> nat" where
  "int_code i = (if i < 0 then 2 * nat (- i) + 1 else 2 * nat i)"

definition int_decode :: "nat \<Rightarrow> int" where
  "int_decode n = (if odd n then - int (n div 2) else int (n div 2))"

lemma int_decode_code [simp]: "int_decode (int_code i) = i"
  by (simp add: int_decode_def int_code_def)

definition known_types :: "ttype list" where
  "known_types = [T_STOP, T_VOID, T_BOOL, T_BYTE, T_DOUBLE, T_I16, T_I32, T_U64, T_I64, T_STRING,
     T_STRUCT, T_MAP, T_SET, T_LIST, T_UTF8, T_UTF16]"

fun type_code :: "ttype \<Rightarrow> nat" where
  "type_code (T_UNKNOWN n) = 16 + int_code n"
| "type_code t = length (takeWhile (\<lambda>u. u \<noteq> t) known_types)"

definition type_decode :: "nat \<Rightarrow> ttype" where
  "type_decode n = (if n < 16 then known_types ! n else T_UNKNOWN (int_decode (n - 16)))"

lemma type_decode_code [simp]: "type_decode (type_code t) = t"
  by (cases t) (simp_all add: type_decode_def known_types_def)

fun call_code :: "tcall \<Rightarrow> nat list" where
  "call_code WStructBegin = [0]"
| "call_code WStructEnd = [1]"
| "call_code (WFieldBegin t i) = [2, type_code t, unat i]"
| "call_code WFieldEnd = [3]"
| "call_code WFieldStop = [4]"
| "call_code (WBool b) = [5, of_bool b]"
| "call_code (WByte w) = [6, unat w]"
| "call_code (WI16 w) = [7, unat w]"
| "call_code (WI32 w) = [8, unat w]"
| "call_code (WI64 w) = [9, unat w]"
| "call_code (WDouble w) = [10, unat w]"
| "call_code (WString s) = 11 # length s # map of_char s"
| "call_code (WBinary s) = 12 # length s # map of_char s"
| "call_code (WListBegin t n) = [13, type_code t, unat n]"
| "call_code WListEnd = [14]"
| "call_code (WMapBegin k v n) = [15, type_code k, type_code v, unat n]"
| "call_code WMapEnd = [16]"

definition call_decode :: "nat list \<Rightarrow> tcall \<times> nat list" where
  "call_decode ns =
     (let t = ns ! 0; a = ns ! 1; b = ns ! 2; c = ns ! 3 in
      if t = 0 then (WStructBegin, drop 1 ns)
      else if t = 1 then (WStructEnd, drop 1 ns)
      else if t = 2 then (WFieldBegin (type_decode a) (of_nat b), drop 3 ns)
      else if t = 3 then (WFieldEnd, drop 1 ns)
      else if t = 4 then (WFieldStop, drop 1 ns)
      else if t = 5 then (WBool (a = 1), drop 2 ns)
      else if t = 6 then (WByte (of_nat a), drop 2 ns)
      else if t = 7 then (WI16 (of_nat a), drop 2 ns)
      else if t = 8 then (WI32 (of_nat a), drop 2 ns)
      else if t = 9 then (WI64 (of_nat a), drop 2 ns)
      else if t = 10 then (WDouble (of_nat a), drop 2 ns)
      else if t = 11 then (WString (map char_of (take a (drop 2 ns))), drop (2 + a) ns)
      else if t = 12 then (WBinary (map char_of (take a (drop 2 ns))), drop (2 + a) ns)
      else if t = 13 then (WListBegin (type_decode a) (of_nat b), drop 3 ns)
      else if t = 14 then (WListEnd, drop 1 ns)
      else if t = 15 then (WMapBegin (type_decode a) (type_decode b) (of_nat c), drop 4 ns)
      else (WMapEnd, drop 1 ns))"

lemma call_decode_code: "call_decode (call_code c @ ns) = (c, ns)"
  by (cases c) (simp_all add: call_decode_def Let_def comp_def)

fun calls_decode :: "nat \<Rightarrow> nat list \<Rightarrow> tcall list" where
  "calls_decode 0 ns = []"
| "calls_decode (Suc m) ns =
     (if ns = [] then [] else let (c, rest) = call_decode ns in c # calls_decode m rest)"

lemma calls_decode_code:
  "length cs \<le> m \<Longrightarrow> calls_decode m (concat (map call_code cs)) = cs"
proof (induction cs arbitrary: m)
  case Nil
  then show ?case by (cases m) simp_all
next
  case (Cons c cs)
  then obtain m' where m: "m = Suc m'" "length cs \<le> m'" by (cases m) auto
  have "call_code c \<noteq> []" by (cases c) auto
  then show ?case using Cons.IH [OF m(2)] m(1) by (simp add: call_decode_code)
qed

text \<open>The string: each number in decimal with a comma after it.\<close>

definition nats_string :: "nat list \<Rightarrow> string" where
  "nats_string ns = concat (map (\<lambda>n. show_nat n @ '','') ns)"

definition string_nats :: "string \<Rightarrow> nat list" where
  "string_nats s = map read_nat (butlast (split_on CHR '','' s))"

lemma digit_char_not_comma: "d < 10 \<Longrightarrow> digit_char d \<noteq> CHR '',''"
proof
  assume "d < 10" and "digit_char d = CHR '',''"
  then have "(of_char (digit_char d) :: nat) = of_char (CHR '','')" by simp
  then show False using \<open>d < 10\<close> by (simp add: digit_char_def of_char_of)
qed

lemma show_nat_no_comma: "CHR '','' \<notin> set (show_nat n)"
proof (induction n rule: show_nat.induct)
  case (1 n)
  show ?case
    using 1 digit_char_not_comma [of n] digit_char_not_comma [of "n mod 10"]
    by (subst show_nat.simps) (auto dest: sym)
qed

lemma string_nats_string [simp]: "string_nats (nats_string ns) = ns"
proof -
  have "split_on CHR '','' (nats_string ns) = map show_nat ns @ [[]]"
    by (induction ns) (simp_all add: nats_string_def split_on_at show_nat_no_comma)
  then show ?thesis by (simp add: string_nats_def comp_def)
qed

text \<open>Skipping a value: up to the end that matches its header.\<close>

fun skip_calls :: "nat \<Rightarrow> tcall list \<Rightarrow> string + tcall list" where
  "skip_calls d [] = Inl ''No more data to read.''"
| "skip_calls d (c # cs) =
     (case c of
        WStructBegin \<Rightarrow> skip_calls (Suc d) cs
      | WListBegin t n \<Rightarrow> skip_calls (Suc d) cs
      | WMapBegin k v n \<Rightarrow> skip_calls (Suc d) cs
      | _ \<Rightarrow>
          (let d' = (if c \<in> {WStructEnd, WListEnd, WMapEnd} then d - 1 else d)
           in if d' = 0 then Inr cs else skip_calls d' cs))"

definition skipped :: "nat \<Rightarrow> tcall list \<Rightarrow> string + tcall list" where
  "skipped d cs = (if d = 0 then Inr cs else skip_calls d cs)"

lemma skip_calls_pieces:
  "list_all (\<lambda>cs. \<forall>rest. skip_calls (Suc d) (cs @ rest) = skip_calls (Suc d) rest) css \<Longrightarrow>
     skip_calls (Suc d) (concat css @ rest) = skip_calls (Suc d) rest"
  by (induction css) auto

lemma skip_calls_value: "val_calls t cs \<Longrightarrow> skip_calls d (cs @ rest) = skipped d rest"
proof (induction arbitrary: d rest rule: val_calls.induct)
  case (vc_list t el css)
  have "skip_calls (Suc d) (concat css @ WListEnd # rest) = skip_calls (Suc d) (WListEnd # rest)"
    by (rule skip_calls_pieces) (use vc_list in \<open>auto simp: list_all_iff skipped_def\<close>)
  then show ?case by (simp add: skipped_def)
next
  case (vc_map ke el css)
  have "skip_calls (Suc d) (concat css @ WMapEnd # rest) = skip_calls (Suc d) (WMapEnd # rest)"
    by (rule skip_calls_pieces)
       (use vc_map in \<open>auto simp: list_all_iff pair_calls_def skipped_def\<close>)
  then show ?case by (simp add: skipped_def)
next
  case (vc_struct css)
  have "skip_calls (Suc d) (concat css @ WFieldStop # WStructEnd # rest) =
      skip_calls (Suc d) (WFieldStop # WStructEnd # rest)"
    by (rule skip_calls_pieces)
       (use vc_struct in \<open>auto simp: list_all_iff field_calls_def skipped_def\<close>)
  then show ?case by (simp add: skipped_def)
qed (simp_all add: skipped_def)

text \<open>A read of the next call, by a partial match on it.\<close>

definition take_call :: "(tcall \<Rightarrow> 'a option) \<Rightarrow> (tcall list, string, 'a) sexn" where
  "take_call f cs =
     (case cs of
        [] \<Rightarrow> (Inl ''No more data to read.'', [])
      | c # rest \<Rightarrow> (case f c of None \<Rightarrow> (Inl ''Invalid data'', cs) | Some x \<Rightarrow> (Inr x, rest)))"

definition token_protocol :: "tcall list tproto" where
  "token_protocol = \<lparr>
     w_throws = (\<lambda>h c. None),
     w_buffer = (\<lambda>cs. nats_string (concat (map call_code cs))),
     r_init = (\<lambda>s. calls_decode (length (string_nats s)) (string_nats s)),
     r_structBegin = take_call (\<lambda>c. if c = WStructBegin then Some () else None),
     r_structEnd = take_call (\<lambda>c. if c = WStructEnd then Some () else None),
     r_fieldBegin = take_call (\<lambda>c. case c of
        WFieldBegin t i \<Rightarrow> Some (t, i) | WFieldStop \<Rightarrow> Some (T_STOP, 0) | _ \<Rightarrow> None),
     r_fieldEnd = take_call (\<lambda>c. if c = WFieldEnd then Some () else None),
     r_bool = take_call (\<lambda>c. case c of WBool b \<Rightarrow> Some b | _ \<Rightarrow> None),
     r_byte = take_call (\<lambda>c. case c of WByte w \<Rightarrow> Some w | _ \<Rightarrow> None),
     r_i16 = take_call (\<lambda>c. case c of WI16 w \<Rightarrow> Some w | _ \<Rightarrow> None),
     r_i32 = take_call (\<lambda>c. case c of WI32 w \<Rightarrow> Some w | _ \<Rightarrow> None),
     r_i64 = take_call (\<lambda>c. case c of WI64 w \<Rightarrow> Some w | _ \<Rightarrow> None),
     r_double = take_call (\<lambda>c. case c of WDouble w \<Rightarrow> Some w | _ \<Rightarrow> None),
     r_string = take_call (\<lambda>c. case c of WString s \<Rightarrow> Some s | _ \<Rightarrow> None),
     r_binary = take_call (\<lambda>c. case c of WBinary s \<Rightarrow> Some s | _ \<Rightarrow> None),
     r_listBegin = take_call (\<lambda>c. case c of WListBegin t n \<Rightarrow> Some (t, n) | _ \<Rightarrow> None),
     r_listEnd = take_call (\<lambda>c. if c = WListEnd then Some () else None),
     r_setBegin = take_call (\<lambda>c. case c of WListBegin t n \<Rightarrow> Some (t, n) | _ \<Rightarrow> None),
     r_setEnd = take_call (\<lambda>c. if c = WListEnd then Some () else None),
     r_mapBegin = take_call (\<lambda>c. case c of WMapBegin k v n \<Rightarrow> Some (k, v, n) | _ \<Rightarrow> None),
     r_mapEnd = take_call (\<lambda>c. if c = WMapEnd then Some () else None),
     r_skip = (\<lambda>t cs. case skip_calls 0 cs of Inl e \<Rightarrow> (Inl e, []) | Inr rest \<Rightarrow> (Inr (), rest))\<rparr>"

lemma delivers_take_call: "f c = Some x \<Longrightarrow> delivers (=) c (take_call f) x"
  by (simp add: delivers_def take_call_def)

lemma concat_call_code_length: "length cs \<le> length (concat (map call_code cs))"
proof (induction cs)
  case (Cons c cs)
  have "call_code c \<noteq> []" by (cases c) auto
  then have "Suc 0 \<le> length (call_code c)" by (cases "call_code c") auto
  then show ?case using Cons by simp
qed simp

lemma token_protocol_ok: "protocol_ok token_protocol (=)"
  unfolding protocol_ok_def
proof (intro conjI)
  show "never_throws token_protocol" by (simp add: never_throws_def token_protocol_def)
  show "\<forall>cs. val_calls T_STRUCT cs \<longrightarrow> r_init token_protocol (w_buffer token_protocol cs) = cs"
    by (simp add: token_protocol_def calls_decode_code concat_call_code_length)
  show "structs_ok token_protocol (=)"
    by (auto simp: structs_ok_def token_protocol_def take_call_def intro!: delivers_take_call)
  show "scalars_ok token_protocol (=)"
    by (auto simp: scalars_ok_def token_protocol_def intro!: delivers_take_call)
  show "containers_ok token_protocol (=)"
    by (auto simp: containers_ok_def token_protocol_def take_call_def intro!: delivers_take_call)
  show "skip_ok token_protocol (=)"
    by (simp add: skip_ok_def token_protocol_def skip_calls_value skipped_def)
qed

end
