(* ===== verification/Roundtrip.thy ===== *)
theory Roundtrip
  imports Wire
begin

text \<open>
  Writing and reading back: what \<^verbatim>\<open>serializer_readStruct\<close> makes of the bytes that
  \<^verbatim>\<open>serializer_writeStruct\<close> returned, and that it skips fields its class does not know.
\<close>

section \<open>What comes back\<close>

text \<open>
  \<open>rebuilt E fi v v'\<close>: \<open>v'\<close> is what reading gives for \<open>v\<close>. Numbers and bytes are the same, the
  string encoding is the one of the declaration, sets and hashes are rebuilt from their
  elements, and an object is a new instance whose fields are set where \<open>v\<close> has them: a field
  that was nil has the value \<^verbatim>\<open>new\<close> gave it.
\<close>

definition rebuilt_field ::
  "(FieldInfo \<Rightarrow> rvalue \<Rightarrow> rvalue \<Rightarrow> bool) \<Rightarrow> rvalue \<Rightarrow> rvalue \<Rightarrow> rvalue \<Rightarrow> FieldInfo \<Rightarrow> bool" where
  "rebuilt_field R new v v' info \<longleftrightarrow>
     (\<exists>iv. ivarName info = Some iv \<and>
        (if NIL_P (rb_ivar_get v iv) then rb_ivar_get v' iv = rb_ivar_get new iv
         else R info (rb_ivar_get v iv) (rb_ivar_get v' iv)))"

lemma rebuilt_field_mono [mono]:
  "(\<And>i v w. R i v w \<longrightarrow> S i v w) \<Longrightarrow> rebuilt_field R new v v' info \<longrightarrow> rebuilt_field S new v v' info"
  unfolding rebuilt_field_def by auto

inductive rebuilt :: "ruby_env \<Rightarrow> FieldInfo \<Rightarrow> rvalue \<Rightarrow> rvalue \<Rightarrow> bool" for E where
  rebuilt_bool: "rebuilt E fi (RBool b) (RBool b)"
| rebuilt_int: "rebuilt E fi (RInt i) (RInt i)"
| rebuilt_float: "rebuilt E fi (RFloat d) (RFloat d)"
| rebuilt_str: "rebuilt E fi (RStr c s) (RStr (if isBinaryString fi then ASCII_8BIT else UTF8) s)"
| rebuilt_list: "elementType fi = Some el \<Longrightarrow> list_all2 (rebuilt E el) vs ws \<Longrightarrow>
    rebuilt E fi (RArray vs) (RArray ws)"
| rebuilt_set: "elementType fi = Some el \<Longrightarrow> list_all2 (rebuilt E el) vs ws \<Longrightarrow>
    rebuilt E fi (RSet vs) (Set_new (key_eql E) ws)"
| rebuilt_map: "keyType fi = Some ke \<Longrightarrow> elementType fi = Some el \<Longrightarrow>
    list_all2 (rel_prod (rebuilt E ke) (rebuilt E el)) kvs ws \<Longrightarrow>
    rebuilt E fi (RHash kvs) (RHash (foldl (\<lambda>h (k, v). rb_hash_aset (key_eql E) h k v) [] ws))"
| rebuilt_obj: "CreateFieldInfoMap E k = Inr flds \<Longrightarrow> new_instance E k = Inr (RObj k new) \<Longrightarrow>
    list_all (\<lambda>p. rebuilt_field (rebuilt E) (RObj k new) v (RObj k ivs) (snd p)) flds \<Longrightarrow>
    class_name v = k \<Longrightarrow> rebuilt E fi v (RObj k ivs)"
monos list.rel_mono prod.rel_mono

lemma rebuilt_not_nil: "rebuilt E fi v w \<Longrightarrow> w \<noteq> RNil"
  by (induction rule: rebuilt.induct) (simp_all add: Set_new_def)

section \<open>Reading delivered calls\<close>

definition reads ::
  "ruby_env \<Rightarrow> ('s \<Rightarrow> tcall list \<Rightarrow> bool) \<Rightarrow> ('s sstate, rberror, 'a) sexn \<Rightarrow> tcall list
     \<Rightarrow> ('a \<Rightarrow> bool) \<Rightarrow> bool" where
  "reads E Rel m cs Q \<longleftrightarrow>
     (\<forall>st rest. cache_ok E st \<longrightarrow> Rel (tprot st) (cs @ rest) \<longrightarrow>
        (\<exists>x st'. m st = (Inr x, st') \<and> Q x \<and> cache_ok E st' \<and> Rel (tprot st') rest))"

lemma reads_sret: "Q x \<Longrightarrow> reads E Rel (sret x) [] Q"
  by (simp add: reads_def)

lemma reads_weaken: "reads E Rel m cs Q \<Longrightarrow> (\<And>x. Q x \<Longrightarrow> R x) \<Longrightarrow> reads E Rel m cs R"
  unfolding reads_def by blast

lemma reads_sbind:
  assumes m: "reads E Rel m as Q" and f: "\<And>x. Q x \<Longrightarrow> reads E Rel (f x) bs R"
  shows "reads E Rel (sbind m f) (as @ bs) R"
  unfolding reads_def
proof (intro allI impI)
  fix st rest
  assume "cache_ok E st" and "Rel (tprot st) ((as @ bs) @ rest)"
  then obtain x st1 where 1: "m st = (Inr x, st1)" "Q x" "cache_ok E st1" "Rel (tprot st1) (bs @ rest)"
    using m unfolding reads_def by (metis append_assoc)
  then obtain y st2 where "f x st1 = (Inr y, st2)" "R y" "cache_ok E st2" "Rel (tprot st2) rest"
    using f unfolding reads_def by blast
  then show "\<exists>y st'. sbind m f st = (Inr y, st') \<and> R y \<and> cache_ok E st' \<and> Rel (tprot st') rest"
    using 1 by (intro exI [of _ y] exI [of _ st2]) (simp add: sbind_returns)
qed

lemma reads_sbind_nil:
  "reads E Rel m [] Q \<Longrightarrow> (\<And>x. Q x \<Longrightarrow> reads E Rel (f x) bs R) \<Longrightarrow> reads E Rel (sbind m f) bs R"
  using reads_sbind [of E Rel m "[]" Q f bs R] by simp

lemma reads_rd:
  assumes "delivers Rel c m x"
  shows "reads E Rel (rd m) [c] (\<lambda>y. y = x)"
  unfolding reads_def
proof (intro allI impI)
  fix st :: "'a sstate" and rest
  assume st: "cache_ok E st" and rel: "Rel (tprot st) ([c] @ rest)"
  then obtain s where s: "m (tprot st) = (Inr x, s)" "Rel s rest"
    using assms by (auto simp: delivers_def)
  then have "rd m st = (Inr x, st\<lparr>tprot := s\<rparr>)" by (simp add: rd_def)
  then show "\<exists>y st'. rd m st = (Inr y, st') \<and> y = x \<and> cache_ok E st' \<and> Rel (tprot st') rest"
    using st s by auto
qed

lemma reads_rd_then:
  "delivers Rel c m x \<Longrightarrow> reads E Rel (f x) cs R \<Longrightarrow> reads E Rel (sbind (rd m) f) (c # cs) R"
  using reads_sbind [OF reads_rd, of Rel c m x E f cs R] by simp

lemma reads_srepeat:
  "list_all2 (\<lambda>v cs. reads E Rel m cs (Q v)) vs css \<Longrightarrow>
     reads E Rel (srepeat (length vs) m) (concat css) (list_all2 Q vs)"
proof (induction vs css rule: list_all2_induct)
  case Nil
  show ?case by (simp add: reads_sret del: sret_apply)
next
  case (Cons v vs cs css)
  show ?case
    unfolding list.size add_0_right add_Suc_right srepeat.simps concat.simps
  proof (rule reads_sbind [OF Cons.hyps(1)])
    fix x
    assume x: "Q v x"
    have "reads E Rel (sbind (srepeat (length vs) m) (\<lambda>xs. sret (x # xs))) (concat css @ [])
        (list_all2 Q (v # vs))"
      by (rule reads_sbind [OF Cons.IH]) (use x in \<open>simp add: reads_sret del: sret_apply\<close>)
    then show "reads E Rel (sbind (srepeat (length vs) m) (\<lambda>xs. sret (x # xs))) (concat css)
        (list_all2 Q (v # vs))" by simp
  qed
qed

lemma reads_FindOrCreate:
  "CreateFieldInfoMap E k = Inr flds \<Longrightarrow> reads E Rel (FindOrCreateFieldInfoMap E k) [] (\<lambda>x. x = flds)"
  by (simp add: reads_def FindOrCreate_loaded)

text \<open>Facts that hold from some fuel on.\<close>

definition eventually_fuel :: "(nat \<Rightarrow> bool) \<Rightarrow> bool" where
  "eventually_fuel p \<longleftrightarrow> (\<exists>N. \<forall>n\<ge>N. p n)"

lemma eventually_fuel_conj:
  "eventually_fuel p \<Longrightarrow> eventually_fuel q \<Longrightarrow> eventually_fuel (\<lambda>n. p n \<and> q n)"
  unfolding eventually_fuel_def by (metis max.boundedE)

lemma eventually_fuel_mono:
  "eventually_fuel p \<Longrightarrow> (\<And>n. p n \<Longrightarrow> q n) \<Longrightarrow> eventually_fuel q"
  unfolding eventually_fuel_def by blast

lemma eventually_fuel_always: "(\<And>n. p n) \<Longrightarrow> eventually_fuel p"
  unfolding eventually_fuel_def by blast

lemma eventually_fuel_Suc: "eventually_fuel p \<Longrightarrow> (\<And>n. p n \<Longrightarrow> q (Suc n)) \<Longrightarrow> eventually_fuel q"
  unfolding eventually_fuel_def by (metis Suc_le_D Suc_le_mono)

lemma eventually_fuel_list:
  "list_all2 (\<lambda>x y. eventually_fuel (\<lambda>n. p n x y)) xs ys \<Longrightarrow>
     eventually_fuel (\<lambda>n. list_all2 (p n) xs ys)"
proof (induction xs ys rule: list_all2_induct)
  case Nil
  show ?case by (rule eventually_fuel_always) simp
next
  case (Cons x xs y ys)
  show ?case by (rule eventually_fuel_mono [OF eventually_fuel_conj [OF Cons.hyps(1) Cons.IH]]) simp
qed

section \<open>Schemas and values that go through\<close>

text \<open>Every type of the description has a wire form.\<close>

fun typed :: "FieldInfo \<Rightarrow> bool" where
  "typed (FieldInfo t k iv nm opt bin el ke) \<longleftrightarrow>
     \<not> no_payload t \<and> (case el of None \<Rightarrow> True | Some e \<Rightarrow> typed e) \<and>
     (case ke of None \<Rightarrow> True | Some e \<Rightarrow> typed e)"

text \<open>
  The classes of the schema: no unions, fields with distinct names, and \<^verbatim>\<open>new\<close> gives an
  object of the class.
\<close>

definition schema_ok :: "ruby_env \<Rightarrow> bool" where
  "schema_ok E \<longleftrightarrow>
     (\<forall>k. \<not> inherits_union E k) \<and>
     (\<forall>k m. CreateFieldInfoMap E k = Inr m \<longrightarrow>
        list_all (\<lambda>p. typed (snd p)) m \<and> distinct (map (\<lambda>p. ivarName (snd p)) m) \<and>
        (\<exists>ivs. new_instance E k = Inr (RObj k ivs)))"

text \<open>The sizes of all containers fit the 32 bits of their headers.\<close>

fun small :: "rvalue \<Rightarrow> bool" where
  "small (RArray vs) \<longleftrightarrow> length vs < 2 ^ 32 \<and> list_all small vs"
| "small (RSet vs) \<longleftrightarrow> length vs < 2 ^ 32 \<and> list_all small vs"
| "small (RHash kvs) \<longleftrightarrow> length kvs < 2 ^ 32 \<and> list_all (\<lambda>p. small (fst p) \<and> small (snd p)) kvs"
| "small (RObj k ivs) \<longleftrightarrow> list_all (\<lambda>p. small (snd p)) ivs"
| "small _ \<longleftrightarrow> True"

lemma small_ivar: "small v \<Longrightarrow> small (rb_ivar_get v iv)"
  by (cases v) (auto simp: list_all_iff dest!: map_of_SomeD split: option.split)

section \<open>The reader rebuilds what the writer wrote\<close>

lemma unat_small_length: "length vs < 2 ^ 32 \<Longrightarrow> unat (of_nat (length vs) :: 32 word) = length vs"
  by (simp add: unat_of_nat take_bit_nat_eq_self)

lemma reads_elements:
  assumes P: "containers_ok P Rel" and len: "length vs < 2 ^ 32"
    and fi: "elementType fi = Some el"
    and els: "list_all2 (\<lambda>v cs. reads E Rel (readAny n E P (ftype el) el) cs (rebuilt E el v)) vs css"
  shows "ftype fi = T_LIST \<Longrightarrow> reads E Rel (readAny (Suc n) E P (ftype fi) fi)
      (WListBegin (ftype el) (of_nat (length vs)) # concat css @ [WListEnd]) (rebuilt E fi (RArray vs))"
    and "ftype fi = T_SET \<Longrightarrow> reads E Rel (readAny (Suc n) E P (ftype fi) fi)
      (WListBegin (ftype el) (of_nat (length vs)) # concat css @ [WListEnd]) (rebuilt E fi (RSet vs))"
proof -
  note D = containers_okD [OF P]
  have loop: "reads E Rel (srepeat (unat (of_nat (length vs) :: 32 word)) (readAny n E P (ftype el) el))
      (concat css) (list_all2 (rebuilt E el) vs)"
    unfolding unat_small_length [OF len] by (rule reads_srepeat [OF els])
  have "reads E Rel (sbind (srepeat (unat (of_nat (length vs) :: 32 word)) (readAny n E P (ftype el) el)) (\<lambda>ary.
      sbind (rd (r_listEnd P)) (\<lambda>_. sret (RArray ary)))) (concat css @ [WListEnd]) (rebuilt E fi (RArray vs))"
    by (rule reads_sbind [OF loop], rule reads_rd_then [OF D(3)], rule reads_sret, rule rebuilt_list [OF fi])
  then show "ftype fi = T_LIST \<Longrightarrow> reads E Rel (readAny (Suc n) E P (ftype fi) fi)
      (WListBegin (ftype el) (of_nat (length vs)) # concat css @ [WListEnd]) (rebuilt E fi (RArray vs))"
    unfolding readAny.simps readAny_body_def
    by (simp add: fi del: sret_apply) (rule reads_rd_then [OF D(1)], simp del: sret_apply)
  have "reads E Rel (sbind (srepeat (unat (of_nat (length vs) :: 32 word)) (readAny n E P (ftype el) el)) (\<lambda>ary.
      sbind (rd (r_setEnd P)) (\<lambda>_. sret (Set_new (key_eql E) ary)))) (concat css @ [WListEnd])
      (rebuilt E fi (RSet vs))"
    by (rule reads_sbind [OF loop], rule reads_rd_then [OF D(4)], rule reads_sret, rule rebuilt_set [OF fi])
  then show "ftype fi = T_SET \<Longrightarrow> reads E Rel (readAny (Suc n) E P (ftype fi) fi)
      (WListBegin (ftype el) (of_nat (length vs)) # concat css @ [WListEnd]) (rebuilt E fi (RSet vs))"
    unfolding readAny.simps readAny_body_def
    by (simp add: fi del: sret_apply) (rule reads_rd_then [OF D(2)], simp del: sret_apply)
qed

lemma reads_pairs:
  assumes P: "containers_ok P Rel" and len: "length kvs < 2 ^ 32" and t: "ftype fi = T_MAP"
    and fi: "keyType fi = Some ke" "elementType fi = Some el"
    and els: "list_all2 (\<lambda>p cs. \<exists>a b. cs = a @ b \<and>
        reads E Rel (readAny n E P (ftype ke) ke) a (rebuilt E ke (fst p)) \<and>
        reads E Rel (readAny n E P (ftype el) el) b (rebuilt E el (snd p))) kvs css"
  shows "reads E Rel (readAny (Suc n) E P (ftype fi) fi)
      (WMapBegin (ftype ke) (ftype el) (of_nat (length kvs)) # concat css @ [WMapEnd])
      (rebuilt E fi (RHash kvs))"
  unfolding reads_def
proof (intro allI impI)
  fix st :: "'a sstate" and rest
  let ?n = "of_nat (length kvs) :: 32 word"
  assume st: "cache_ok E st"
    and "Rel (tprot st) ((WMapBegin (ftype ke) (ftype el) ?n # concat css @ [WMapEnd]) @ rest)"
  then obtain s kt vt where s: "r_mapBegin P (tprot st) = (Inr (kt, vt, ?n), s)"
    and ty: "?n \<noteq> 0 \<longrightarrow> kt = ftype ke \<and> vt = ftype el" and rel: "Rel s ((concat css @ [WMapEnd]) @ rest)"
    using containers_okD(5) [OF P, of "tprot st"] by fastforce
  let ?pair = "\<lambda>kt vt. sbind (readAny n E P kt ke) (\<lambda>k. sbind (readAny n E P vt el) (\<lambda>v. sret (k, v)))"
  have pair: "list_all2 (\<lambda>p cs. reads E Rel (?pair (ftype ke) (ftype el)) cs
      (rel_prod (rebuilt E ke) (rebuilt E el) p)) kvs css"
  proof (rule list_all2_mono [OF els], elim exE conjE)
    fix p cs a b
    assume cs: "cs = a @ b" and a: "reads E Rel (readAny n E P (ftype ke) ke) a (rebuilt E ke (fst p))"
      and b: "reads E Rel (readAny n E P (ftype el) el) b (rebuilt E el (snd p))"
    have "reads E Rel (sbind (readAny n E P (ftype el) el) (\<lambda>v. sret (k, v))) (b @ [])
        (rel_prod (rebuilt E ke) (rebuilt E el) p)" if "rebuilt E ke (fst p) k" for k
      by (rule reads_sbind [OF b], rule reads_sret) (use that in \<open>cases p; simp\<close>)
    then show "reads E Rel (?pair (ftype ke) (ftype el)) cs (rel_prod (rebuilt E ke) (rebuilt E el) p)"
      unfolding cs by (intro reads_sbind [OF a]) simp
  qed
  have "?n = 0 \<longleftrightarrow> kvs = []"
    using unat_small_length [OF len] by (metis length_0_conv unat_eq_zero)
  then have same: "srepeat (unat ?n) (?pair kt vt) = srepeat (length kvs) (?pair (ftype ke) (ftype el))"
    using ty unat_small_length [OF len] by (cases "kvs = []") auto
  have loop: "reads E Rel (sbind (srepeat (unat ?n) (?pair kt vt)) (\<lambda>ws. sbind (rd (r_mapEnd P)) (\<lambda>_.
      sret (RHash (foldl (\<lambda>h (k, v). rb_hash_aset (key_eql E) h k v) [] ws)))))
      (concat css @ [WMapEnd]) (rebuilt E fi (RHash kvs))"
    unfolding same
    by (rule reads_sbind [OF reads_srepeat [OF pair]], rule reads_rd_then [OF containers_okD(6) [OF P]],
        rule reads_sret, rule rebuilt_map [OF fi])
  have ok: "cache_ok E (st\<lparr>tprot := s\<rparr>)" and rel': "Rel (tprot (st\<lparr>tprot := s\<rparr>)) ((concat css @ [WMapEnd]) @ rest)"
    using st rel by simp_all
  obtain x st' where "sbind (srepeat (unat ?n) (?pair kt vt)) (\<lambda>ws. sbind (rd (r_mapEnd P)) (\<lambda>_.
      sret (RHash (foldl (\<lambda>h (k, v). rb_hash_aset (key_eql E) h k v) [] ws)))) (st\<lparr>tprot := s\<rparr>) = (Inr x, st')"
    and "rebuilt E fi (RHash kvs) x" "cache_ok E st'" "Rel (tprot st') rest"
    using loop [unfolded reads_def, rule_format, OF ok rel'] by blast
  moreover have "rd (r_mapBegin P) st = (Inr (kt, vt, ?n), st\<lparr>tprot := s\<rparr>)"
    using s by (simp add: rd_def)
  ultimately show "\<exists>x st'. readAny (Suc n) E P (ftype fi) fi st = (Inr x, st') \<and>
      rebuilt E fi (RHash kvs) x \<and> cache_ok E st' \<and> Rel (tprot st') rest"
    unfolding readAny.simps readAny_body_def t by (simp add: sbind_returns fi del: sret_apply)
qed

text \<open>What the field loop leaves in the object: \<open>fs\<close> are the fields still to come.\<close>

definition fields_read ::
  "ruby_env \<Rightarrow> klass \<Rightarrow> rvalue \<Rightarrow> rvalue \<Rightarrow> FieldInfoMap \<Rightarrow> rvalue \<Rightarrow> bool" where
  "fields_read E k data ret fs w \<longleftrightarrow>
     (\<exists>ivs. w = RObj k ivs) \<and>
     list_all (\<lambda>p. rebuilt_field (rebuilt E) ret data w (snd p)) fs \<and>
     (\<forall>iv. Some iv \<notin> (\<lambda>p. ivarName (snd p)) ` set fs \<longrightarrow> rb_ivar_get w iv = rb_ivar_get ret iv)"

lemma fields_read_nil:
  assumes "fields_read E k data ret fs w" and "ivarName info = Some iv" and "NIL_P (rb_ivar_get data iv)"
    and "Some iv \<notin> (\<lambda>p. ivarName (snd p)) ` set fs"
  shows "fields_read E k data ret ((fid, info) # fs) w"
  using assms by (auto simp: fields_read_def rebuilt_field_def)

lemma fields_read_step:
  assumes "fields_read E k data (rb_ivar_set (RObj k ivs) iv x) fs w"
    and iv: "ivarName info = Some iv" "\<not> NIL_P (rb_ivar_get data iv)"
    and x: "rebuilt E info (rb_ivar_get data iv) x" and new: "Some iv \<notin> (\<lambda>p. ivarName (snd p)) ` set fs"
  shows "fields_read E k data (RObj k ivs) ((fid, info) # fs) w"
proof -
  have "rb_ivar_get w iv = x" using assms(1) new by (simp add: fields_read_def map_of_ivar_update)
  then have "rebuilt_field (rebuilt E) (RObj k ivs) data w info"
    using iv x by (simp add: rebuilt_field_def)
  moreover have "rebuilt_field (rebuilt E) (RObj k ivs) data w (snd p)"
    if p: "p \<in> set fs" and prev: "rebuilt_field (rebuilt E) (rb_ivar_set (RObj k ivs) iv x) data w (snd p)" for p
  proof -
    obtain j where j: "ivarName (snd p) = Some j" using prev by (auto simp: rebuilt_field_def)
    then have "j \<noteq> iv" using new p by force
    then show ?thesis using prev j by (auto simp: rebuilt_field_def simp del: rb_ivar_set.simps)
  qed
  ultimately show ?thesis
    using assms(1) iv by (auto simp: fields_read_def list_all_iff simp del: rb_ivar_set.simps)
qed

lemma omap_find_field:
  assumes "field_map_ok m" and "(fid, info) \<in> set m"
  shows "omap_find m (FieldID_key (word_of_int fid)) = Some info"
proof -
  have "in_signed 16 fid" using assms by (force simp: field_map_ok_def)
  then have "FieldID_key (word_of_int fid) = fid" by (simp add: FieldID_key_def sint_of_in_signed)
  then show ?thesis using assms by (simp add: omap_find_in_set field_map_ok_def)
qed

lemma reads_fields:
  assumes P: "structs_ok P Rel" and m: "field_map_ok m"
    and "list_all2 (enc_field (\<lambda>info v c. ftype info \<noteq> T_STOP \<and>
        (\<forall>n\<ge>N. reads E Rel (readAny n E P (ftype info) info) c (rebuilt E info v))) data) fs css"
    and "set fs \<subseteq> set m" and "distinct (map (\<lambda>p. ivarName (snd p)) fs)" and "N + length fs < n"
  shows "reads E Rel (readFields n E P k m (RObj k ivs)) (concat css @ [WFieldStop])
    (fields_read E k data (RObj k ivs) fs)"
  using assms(3-)
proof (induction fs css arbitrary: n ivs rule: list_all2_induct)
  case Nil
  obtain n' where n: "n = Suc n'" using Nil by (cases n) auto
  show ?case
    unfolding reads_def
  proof (intro allI impI)
    fix st :: "'a sstate" and rest
    assume st: "cache_ok E st" and "Rel (tprot st) ((concat [] @ [WFieldStop]) @ rest)"
    then obtain s i where "r_fieldBegin P (tprot st) = (Inr (T_STOP, i), s)" "Rel s rest"
      using structs_okD(4) [OF P, of "tprot st" rest] by auto
    moreover have "fields_read E k data (RObj k ivs) [] (RObj k ivs)" by (simp add: fields_read_def)
    ultimately show "\<exists>x st'. readFields n E P k m (RObj k ivs) st = (Inr x, st') \<and>
        fields_read E k data (RObj k ivs) [] x \<and> cache_ok E st' \<and> Rel (tprot st') rest"
      using st by (auto simp: n readFields_body_def rd_def sbind_def)
  qed
next
  case (Cons p fs cs css)
  obtain fid info where p: "p = (fid, info)" by (cases p)
  obtain iv where iv: "ivarName info = Some iv" using Cons.hyps(1) p by (auto simp: enc_field_def)
  have new: "Some iv \<notin> (\<lambda>p. ivarName (snd p)) ` set fs" using Cons.prems(2) p iv by auto
  show ?case
  proof (cases "NIL_P (rb_ivar_get data iv)")
    case True
    then have "cs = []" using Cons.hyps(1) p iv by (simp add: enc_field_def)
    moreover have "reads E Rel (readFields n E P k m (RObj k ivs)) (concat css @ [WFieldStop])
        (fields_read E k data (RObj k ivs) fs)" using Cons by simp
    ultimately show ?thesis
      unfolding p by (auto intro: reads_weaken fields_read_nil [OF _ iv True new])
  next
    case False
    obtain n' where n: "n = Suc n'" and n': "N + length fs < n'" using Cons.prems by (cases n) auto
    obtain c where cs: "cs = WFieldBegin (ftype info) (word_of_int fid) # c @ [WFieldEnd]"
      and t: "ftype info \<noteq> T_STOP"
      and val: "reads E Rel (readAny n' E P (ftype info) info) c (rebuilt E info (rb_ivar_get data iv))"
      using Cons.hyps(1) p iv False n' by (auto simp: enc_field_def)
    have find: "omap_find m (FieldID_key (word_of_int fid)) = Some info"
      using Cons.prems(1) p by (intro omap_find_field [OF m]) auto
    have rest: "reads E Rel (sbind (if NIL_P x then sret (RObj k ivs)
          else case ivarName info of None \<Rightarrow> sraise NullDeref
             | Some iv \<Rightarrow> sret (rb_ivar_set (RObj k ivs) iv x))
        (\<lambda>ret'. sbind (rd (r_fieldEnd P)) (\<lambda>_. readFields n' E P k m ret')))
        (WFieldEnd # concat css @ [WFieldStop]) (fields_read E k data (RObj k ivs) (p # fs))"
      if x: "rebuilt E info (rb_ivar_get data iv) x" for x
    proof -
      have "reads E Rel (readFields n' E P k m (RObj k (ivar_update ivs iv x))) (concat css @ [WFieldStop])
          (fields_read E k data (rb_ivar_set (RObj k ivs) iv x) fs)"
        using Cons.IH [of n' "ivar_update ivs iv x"] Cons.prems n' by simp
      then have "reads E Rel (readFields n' E P k m (RObj k (ivar_update ivs iv x))) (concat css @ [WFieldStop])
          (fields_read E k data (RObj k ivs) (p # fs))"
        unfolding p by (rule reads_weaken) (rule fields_read_step [OF _ iv False x new])
      then show ?thesis
        using rebuilt_not_nil [OF x]
        by (simp add: NIL_P_def iv sbind_unit_fun reads_rd_then [OF structs_okD(5) [OF P]] del: sret_apply)
    qed
    have "reads E Rel (readFields n E P k m (RObj k ivs))
        (WFieldBegin (ftype info) (word_of_int fid) # c @ WFieldEnd # concat css @ [WFieldStop])
        (fields_read E k data (RObj k ivs) (p # fs))"
      unfolding n readFields.simps readFields_body_def
      by (rule reads_rd_then [OF structs_okD(3) [OF P t]])
         (simp add: t find reads_sbind [OF val rest] del: sret_apply)
    then show ?thesis by (simp add: cs)
  qed
qed

lemma typed_payload: "typed fi \<Longrightarrow> \<not> no_payload (ftype fi)"
  by (cases fi) simp

lemma typed_not_stop: "typed fi \<Longrightarrow> ftype fi \<noteq> T_STOP"
  using typed_payload [of fi] by (auto simp: no_payload_def)

lemma typed_element: "typed fi \<Longrightarrow> elementType fi = Some el \<Longrightarrow> typed el"
  by (cases fi) simp

lemma typed_key: "typed fi \<Longrightarrow> keyType fi = Some ke \<Longrightarrow> typed ke"
  by (cases fi) simp

definition reads_field ::
  "nat \<Rightarrow> ruby_env \<Rightarrow> 's tproto \<Rightarrow> ('s \<Rightarrow> tcall list \<Rightarrow> bool) \<Rightarrow> FieldInfo \<Rightarrow> rvalue \<Rightarrow> tcall list \<Rightarrow> bool" where
  "reads_field N E P Rel info v c \<longleftrightarrow> ftype info \<noteq> T_STOP \<and>
     (\<forall>n\<ge>N. reads E Rel (readAny n E P (ftype info) info) c (rebuilt E info v))"

lemma eventually_reads_field:
  assumes "ftype info \<noteq> T_STOP"
    and "eventually_fuel (\<lambda>n. reads E Rel (readAny n E P (ftype info) info) c (rebuilt E info v))"
  shows "eventually_fuel (\<lambda>N. reads_field N E P Rel info v c)"
  using assms unfolding eventually_fuel_def reads_field_def by (meson le_trans)

lemma enc_field_eventually:
  assumes t: "ftype (snd p) \<noteq> T_STOP"
    and enc: "enc_field (\<lambda>info v c.
        eventually_fuel (\<lambda>n. reads E Rel (readAny n E P (ftype info) info) c (rebuilt E info v))) v p cs"
  shows "eventually_fuel (\<lambda>N. enc_field (reads_field N E P Rel) v p cs)"
proof -
  obtain iv where iv: "ivarName (snd p) = Some iv" using enc by (auto simp: enc_field_def)
  show ?thesis
  proof (cases "NIL_P (rb_ivar_get v iv)")
    case True
    then show ?thesis using enc iv by (intro eventually_fuel_always) (simp add: enc_field_def)
  next
    case False
    then obtain c where cs: "cs = WFieldBegin (ftype (snd p)) (word_of_int (fst p)) # c @ [WFieldEnd]"
      and "eventually_fuel (\<lambda>n. reads E Rel (readAny n E P (ftype (snd p)) (snd p)) c
        (rebuilt E (snd p) (rb_ivar_get v iv)))"
      using enc iv by (auto simp: enc_field_def)
    then have "eventually_fuel (\<lambda>N. reads_field N E P Rel (snd p) (rb_ivar_get v iv) c)"
      by (intro eventually_reads_field t)
    then show ?thesis
      by (rule eventually_fuel_mono) (use iv cs False in \<open>simp add: enc_field_def\<close>)
  qed
qed

text \<open>The body of a struct: \<^verbatim>\<open>readStruct\<close> after the struct header.\<close>

lemma reads_struct_body:
  assumes P: "structs_ok P Rel" and E: "schema_ok E" and m: "CreateFieldInfoMap E k = Inr flds"
    and fs: "list_all2 (enc_field (\<lambda>info v c.
        eventually_fuel (\<lambda>n. reads E Rel (readAny n E P (ftype info) info) c (rebuilt E info v))) v) flds css"
  shows "\<exists>new. new_instance E k = Inr (RObj k new) \<and>
    eventually_fuel (\<lambda>n. reads E Rel (readStruct n E P (Some k)) (concat css @ [WFieldStop])
      (fields_read E k v (RObj k new) flds))"
proof -
  have sc: "list_all (\<lambda>p. typed (snd p)) flds \<and> distinct (map (\<lambda>p. ivarName (snd p)) flds) \<and>
      (\<exists>new. new_instance E k = Inr (RObj k new))"
    using E m unfolding schema_ok_def by blast
  obtain new where new: "new_instance E k = Inr (RObj k new)" using sc by blast
  have typed: "list_all (\<lambda>p. typed (snd p)) flds" and dist: "distinct (map (\<lambda>p. ivarName (snd p)) flds)"
    using sc by blast+
  have "list_all2 (\<lambda>p cs. eventually_fuel (\<lambda>N. enc_field (reads_field N E P Rel) v p cs)) flds css"
    unfolding list_all2_conv_all_nth
  proof (intro conjI allI impI)
    show "length flds = length css" using fs by (simp add: list_all2_lengthD)
    fix i
    assume i: "i < length flds"
    then have t: "ftype (snd (flds ! i)) \<noteq> T_STOP"
      using typed by (intro typed_not_stop) (simp add: list_all_length)
    have "enc_field (\<lambda>info v c. eventually_fuel (\<lambda>n. reads E Rel (readAny n E P (ftype info) info) c
        (rebuilt E info v))) v (flds ! i) (css ! i)"
      using fs i by (simp add: list_all2_nthD)
    then show "eventually_fuel (\<lambda>N. enc_field (reads_field N E P Rel) v (flds ! i) (css ! i))"
      by (rule enc_field_eventually [OF t])
  qed
  then have "eventually_fuel (\<lambda>N. list_all2 (enc_field (reads_field N E P Rel) v) flds css)"
    by (rule eventually_fuel_list)
  then obtain N where N: "list_all2 (enc_field (reads_field N E P Rel) v) flds css"
    unfolding eventually_fuel_def by blast
  have "reads E Rel (readStruct n E P (Some k)) (concat css @ [WFieldStop])
      (fields_read E k v (RObj k new) flds)" if big: "Suc (N + length flds) < n" for n
  proof -
    obtain n' where n: "n = Suc n'" and n': "N + length flds < n'" using big by (cases n) auto
    have "reads E Rel (readFields n' E P k flds (RObj k new)) (concat css @ [WFieldStop])
        (fields_read E k v (RObj k new) flds)"
      by (rule reads_fields [OF P CreateFieldInfoMap_ok [OF m] N [unfolded reads_field_def] _ dist n']) simp
    then show ?thesis
      unfolding n readStruct.simps readStruct_body_def rb_class_new_instance_def option.case new sbind_unit_fun
        option.sel
      by (intro reads_sbind_nil [OF reads_FindOrCreate [OF m]]) simp
  qed
  then show ?thesis
    using new unfolding eventually_fuel_def by (intro exI [of _ new] conjI exI [of _ "Suc (Suc (N + length flds))"]) auto
qed

lemma fields_read_rebuilt:
  assumes "CreateFieldInfoMap E k = Inr flds" and "new_instance E k = Inr (RObj k new)"
    and "fields_read E k v (RObj k new) flds w" and "class_name v = k"
  shows "rebuilt E fi v w"
  using assms by (auto simp: fields_read_def intro: rebuilt_obj)

lemma enc_field_weaken:
  "enc_field R data p cs \<Longrightarrow>
     (\<And>iv c. R (snd p) (rb_ivar_get data iv) c \<Longrightarrow> S (snd p) (rb_ivar_get data iv) c) \<Longrightarrow>
     enc_field S data p cs"
  unfolding enc_field_def by (auto split: if_splits)

lemma enc_reads:
  assumes P: "protocol_ok P Rel" and E: "schema_ok E"
  shows "enc E fi v cs \<Longrightarrow> typed fi \<Longrightarrow> small v \<Longrightarrow>
    eventually_fuel (\<lambda>n. reads E Rel (readAny n E P (ftype fi) fi) cs (rebuilt E fi v))"
proof (induction rule: enc.induct)
  case (enc_list fi el vs css)
  have t: "typed el" using typed_element enc_list by blast
  have "eventually_fuel (\<lambda>n. list_all2 (\<lambda>v cs.
      reads E Rel (readAny n E P (ftype el) el) cs (rebuilt E el v)) vs css)"
    using enc_list t by (intro eventually_fuel_list) (auto simp: list_all2_conv_all_nth list_all_length)
  then show ?case
    by (rule eventually_fuel_Suc, intro reads_elements(1) [OF protocol_okD(4) [OF P] _ enc_list(2) _ enc_list(1)])
       (use enc_list.prems in simp_all)
next
  case (enc_set fi el vs css)
  have t: "typed el" using typed_element enc_set by blast
  have "eventually_fuel (\<lambda>n. list_all2 (\<lambda>v cs.
      reads E Rel (readAny n E P (ftype el) el) cs (rebuilt E el v)) vs css)"
    using enc_set t by (intro eventually_fuel_list) (auto simp: list_all2_conv_all_nth list_all_length)
  then show ?case
    by (rule eventually_fuel_Suc, intro reads_elements(2) [OF protocol_okD(4) [OF P] _ enc_set(2) _ enc_set(1)])
       (use enc_set.prems in simp_all)
next
  case (enc_map fi ke el kvs css)
  have t: "typed ke" "typed el" using typed_key typed_element enc_map by blast+
  have "list_all2 (\<lambda>p cs. eventually_fuel (\<lambda>n. \<exists>a b. cs = a @ b \<and>
        reads E Rel (readAny n E P (ftype ke) ke) a (rebuilt E ke (fst p)) \<and>
        reads E Rel (readAny n E P (ftype el) el) b (rebuilt E el (snd p)))) kvs css"
    unfolding list_all2_conv_all_nth
  proof (intro conjI allI impI)
    show "length kvs = length css" using enc_map(4) by (rule list_all2_lengthD)
    fix i
    assume i: "i < length kvs"
    then have small: "small (fst (kvs ! i))" "small (snd (kvs ! i))"
      using enc_map.prems by (simp_all add: list_all_length)
    obtain a b where "css ! i = a @ b"
      and a: "eventually_fuel (\<lambda>n. reads E Rel (readAny n E P (ftype ke) ke) a (rebuilt E ke (fst (kvs ! i))))"
      and b: "eventually_fuel (\<lambda>n. reads E Rel (readAny n E P (ftype el) el) b (rebuilt E el (snd (kvs ! i))))"
      using list_all2_nthD [OF enc_map(4) i] small t unfolding enc_pair_def by blast
    then show "eventually_fuel (\<lambda>n. \<exists>a b. css ! i = a @ b \<and>
        reads E Rel (readAny n E P (ftype ke) ke) a (rebuilt E ke (fst (kvs ! i))) \<and>
        reads E Rel (readAny n E P (ftype el) el) b (rebuilt E el (snd (kvs ! i))))"
      by (intro eventually_fuel_mono [OF eventually_fuel_conj [OF a b]]) blast
  qed
  then have "eventually_fuel (\<lambda>n. list_all2 (\<lambda>p cs. \<exists>a b. cs = a @ b \<and>
        reads E Rel (readAny n E P (ftype ke) ke) a (rebuilt E ke (fst p)) \<and>
        reads E Rel (readAny n E P (ftype el) el) b (rebuilt E el (snd p))) kvs css)"
    by (rule eventually_fuel_list)
  then show ?case
    by (rule eventually_fuel_Suc, intro reads_pairs [OF protocol_okD(4) [OF P] _ enc_map(1-3)])
       (use enc_map.prems in simp_all)
next
  case (enc_struct fi v flds css)
  have "list_all (\<lambda>p. typed (snd p)) flds" using E enc_struct(3) unfolding schema_ok_def by blast
  then have "list_all2 (enc_field (\<lambda>info v c. eventually_fuel (\<lambda>n.
      reads E Rel (readAny n E P (ftype info) info) c (rebuilt E info v))) v) flds css"
    using enc_struct(4) small_ivar [OF enc_struct.prems(2)]
    unfolding list_all2_conv_all_nth list_all_length by (auto elim!: enc_field_weaken)
  then obtain new where new: "new_instance E (class_name v) = Inr (RObj (class_name v) new)"
    and body: "eventually_fuel (\<lambda>n. reads E Rel (readStruct n E P (Some (class_name v)))
      (concat css @ [WFieldStop]) (fields_read E (class_name v) v (RObj (class_name v) new) flds))"
    using reads_struct_body [OF protocol_okD(2) [OF P] E enc_struct(3)] by blast
  show ?case
    using body
  proof (rule eventually_fuel_Suc)
    fix n
    assume body_n: "reads E Rel (readStruct n E P (Some (class_name v)))
      (concat css @ [WFieldStop]) (fields_read E (class_name v) v (RObj (class_name v) new) flds)"
    let ?k = "class_name v"
    have close: "reads E Rel (sbind (rd (r_structEnd P)) (\<lambda>_. sret x)) [WStructEnd] (rebuilt E fi v)"
      if "fields_read E ?k v (RObj ?k new) flds x" for x
      by (rule reads_rd_then [OF structs_okD(2) [OF protocol_okD(2) [OF P]]], rule reads_sret,
          rule fields_read_rebuilt [OF enc_struct(3) new that]) simp
    have "reads E Rel (sbind sget (\<lambda>st. sbind (if ?k \<in> unions st then readUnion n E P (Some ?k)
        else readStruct n E P (Some ?k)) (\<lambda>ret. sbind (rd (r_structEnd P)) (\<lambda>_. sret ret))))
        ((concat css @ [WFieldStop]) @ [WStructEnd]) (rebuilt E fi v)"
      unfolding reads_def
    proof (intro allI impI)
      fix st :: "'a sstate" and rest
      assume st: "cache_ok E st" and rel: "Rel (tprot st) (((concat css @ [WFieldStop]) @ [WStructEnd]) @ rest)"
      have "?k \<notin> unions st" using st E by (auto simp: cache_ok_def schema_ok_def)
      then show "\<exists>x st'. sbind sget (\<lambda>st. sbind (if ?k \<in> unions st then readUnion n E P (Some ?k)
        else readStruct n E P (Some ?k)) (\<lambda>ret. sbind (rd (r_structEnd P)) (\<lambda>_. sret ret))) st = (Inr x, st') \<and>
        rebuilt E fi v x \<and> cache_ok E st' \<and> Rel (tprot st') rest"
        using reads_sbind [OF body_n close, unfolded reads_def, rule_format, OF _ st rel]
        by (simp del: sret_apply)
    qed
    then show "reads E Rel (readAny (Suc n) E P (ftype fi) fi)
        (WStructBegin # concat css @ [WFieldStop, WStructEnd]) (rebuilt E fi v)"
      unfolding readAny.simps readAny_body_def enc_struct(1)
      by (simp add: enc_struct(2) del: sret_apply)
         (rule reads_rd_then [OF structs_okD(1) [OF protocol_okD(2) [OF P]]], simp)
  qed
next
  case (enc_none fi v)
  then show ?case using typed_payload by blast
next
  case (enc_string fi c s)
  have "rebuilt E fi (RStr c s) (RStr UTF8 s)" using rebuilt_str [of E fi c s] enc_string by simp
  then have rd: "reads E Rel (readAny (Suc n) E P (ftype fi) fi) [WString s] (rebuilt E fi (RStr c s))" for n
    unfolding readAny.simps readAny_body_def
    by (auto simp: enc_string reads_sret simp del: sret_apply
        intro!: reads_rd_then scalars_okD [OF protocol_okD(3) [OF P]])
  show ?case
    by (rule eventually_fuel_Suc [OF eventually_fuel_always [where p = "\<lambda>n. True"]], simp, rule rd)
next
  case (enc_binary fi c s)
  have "rebuilt E fi (RStr c s) (RStr ASCII_8BIT s)" using rebuilt_str [of E fi c s] enc_binary by simp
  then have rd: "reads E Rel (readAny (Suc n) E P (ftype fi) fi) [WBinary s] (rebuilt E fi (RStr c s))" for n
    unfolding readAny.simps readAny_body_def
    by (auto simp: enc_binary reads_sret simp del: sret_apply
        intro!: reads_rd_then scalars_okD [OF protocol_okD(3) [OF P]])
  show ?case
    by (rule eventually_fuel_Suc [OF eventually_fuel_always [where p = "\<lambda>n. True"]], simp, rule rd)
qed (rule eventually_fuel_Suc [OF eventually_fuel_always [where p = "\<lambda>n. True"]], simp,
     unfold readAny.simps readAny_body_def,
     auto simp: sint_of_in_signed rebuilt.intros reads_sret
       intro!: reads_rd_then scalars_okD [OF protocol_okD(3) [OF P]] simp del: sret_apply)+

section \<open>Round trip\<close>

lemma concat_nonempty: "concat (filter (\<lambda>cs. cs \<noteq> []) css) = concat css"
  by (induction css) auto

lemma enc_val_calls:
  assumes E: "schema_ok E"
  shows "enc E fi v cs \<Longrightarrow> typed fi \<Longrightarrow> small v \<Longrightarrow> val_calls (ftype fi) cs"
proof (induction rule: enc.induct)
  case (enc_list fi el vs css)
  have "list_all (val_calls (ftype el)) css"
    using enc_list typed_element [OF enc_list.prems(1) enc_list(2)]
    by (auto simp: list_all2_conv_all_nth list_all_length)
  then show ?case
    using vc_list [of T_LIST "ftype el" css] enc_list list_all2_lengthD [OF enc_list(3)] by simp
next
  case (enc_set fi el vs css)
  have "list_all (val_calls (ftype el)) css"
    using enc_set typed_element [OF enc_set.prems(1) enc_set(2)]
    by (auto simp: list_all2_conv_all_nth list_all_length)
  then show ?case
    using vc_list [of T_SET "ftype el" css] enc_set list_all2_lengthD [OF enc_set(3)] by simp
next
  case (enc_map fi ke el kvs css)
  have t: "typed ke" "typed el" using typed_key typed_element enc_map by blast+
  have "list_all (pair_calls (val_calls (ftype ke)) (val_calls (ftype el))) css"
    using enc_map t
    by (fastforce simp: list_all2_conv_all_nth list_all_length pair_calls_def enc_pair_def)
  then show ?case
    using vc_map [of "ftype ke" "ftype el" css] enc_map list_all2_lengthD [OF enc_map(4)] by simp
next
  case (enc_struct fi v flds css)
  have t: "list_all (\<lambda>p. typed (snd p)) flds" using E enc_struct(3) unfolding schema_ok_def by blast
  have "val_calls T_STRUCT (WStructBegin # concat (filter (\<lambda>cs. cs \<noteq> []) css) @ [WFieldStop, WStructEnd])"
  proof (rule vc_struct, unfold list_all_iff, intro ballI)
    fix cs
    assume "cs \<in> set (filter (\<lambda>cs. cs \<noteq> []) css)"
    then obtain i where i: "i < length css" "cs = css ! i" "cs \<noteq> []" by (auto simp: in_set_conv_nth)
    then have len: "i < length flds" using list_all2_lengthD [OF enc_struct(4)] by simp
    have ty: "typed (snd (flds ! i))" using t len by (simp add: list_all_length)
    show "field_calls val_calls cs"
      using list_all2_nthD [OF enc_struct(4) len] i ty typed_not_stop [OF ty] small_ivar [OF enc_struct.prems(2)]
      by (auto simp: enc_field_def field_calls_def split: if_splits)
  qed
  then show ?case using enc_struct(1) by (simp add: concat_nonempty)
next
  case (enc_none fi v)
  then show ?case using typed_payload by blast
qed (auto intro: val_calls.intros)

definition root_info :: "klass \<Rightarrow> FieldInfo" where
  "root_info k = FieldInfo T_STRUCT (Some k) None None False False None None"

lemma enc_root:
  "enc_struct_body E k v cs \<Longrightarrow> class_name v = k \<Longrightarrow> enc E (root_info k) v (struct_message cs)"
  unfolding enc_struct_body_def struct_message_def
  by (elim exE conjE) (auto intro!: enc_struct simp: root_info_def)

text \<open>C1: Round trip: when \<^verbatim>\<open>serializer_writeStruct\<close> returns a string for an object,
  \<^verbatim>\<open>serializer_readStruct\<close> of the same class on that string returns, whatever the
  field cache of the reading process holds, an object rebuilt from the first: the same class,
  each field that was set with its value, each nil field with the value \<^verbatim>\<open>new\<close> gives.
  This is for schemas without union classes and containers whose size fits the wire.\<close>

theorem roundtrip:
  assumes "protocol_ok P Rel" and "schema_ok E" and "cache_ok E st" and "tprot st = []" and "small v"
    and "fst (serializer_writeStruct E P k v st) = Inr (RStr ASCII_8BIT bytes)"
    and "cache_ok E st2" and "tprot st2 = r_init P bytes"
  shows "\<exists>N. \<forall>n\<ge>N. \<exists>w. fst (serializer_readStruct n E P k st2) = Inr w \<and> rebuilt E (root_info k) v w"
proof -
  have "never_throws P" using assms(1) by (simp add: protocol_ok_def)
  from writeStruct_succeeds [OF this assms(3), of k v "RStr ASCII_8BIT bytes"] assms(4,6)
  obtain cs where k: "class_name v = k" and body: "enc_struct_body E k v cs"
    and bytes: "bytes = w_buffer P (struct_message cs)" by auto
  obtain flds css where m: "CreateFieldInfoMap E k = Inr flds"
    and fs: "list_all2 (enc_field (enc E) v) flds css" and cs: "cs = concat css"
    using body by (auto simp: enc_struct_body_def)
  have "val_calls T_STRUCT (struct_message cs)"
    using enc_val_calls [OF assms(2) enc_root [OF body k]] assms(5)
    by (simp add: root_info_def no_payload_def)
  then have rel: "Rel (tprot st2) ((WStructBegin # (concat css @ [WFieldStop]) @ [WStructEnd]) @ [])"
    using assms(1,8) bytes by (simp add: protocol_ok_def cs struct_message_def)
  have typed: "list_all (\<lambda>p. typed (snd p)) flds" using assms(2) m unfolding schema_ok_def by blast
  have "list_all2 (enc_field (\<lambda>info v c. eventually_fuel (\<lambda>n.
      reads E Rel (readAny n E P (ftype info) info) c (rebuilt E info v))) v) flds css"
    using fs typed enc_reads [OF assms(1,2)] small_ivar [OF assms(5)]
    unfolding list_all2_conv_all_nth list_all_length by (auto elim!: enc_field_weaken)
  then obtain new where new: "new_instance E k = Inr (RObj k new)"
    and "eventually_fuel (\<lambda>n. reads E Rel (readStruct n E P (Some k)) (concat css @ [WFieldStop])
      (fields_read E k v (RObj k new) flds))"
    using reads_struct_body [OF protocol_okD(2) [OF assms(1)] assms(2) m] by blast
  then obtain N where N: "\<And>n. n \<ge> N \<Longrightarrow> reads E Rel (readStruct n E P (Some k)) (concat css @ [WFieldStop])
      (fields_read E k v (RObj k new) flds)"
    unfolding eventually_fuel_def by blast
  have "\<exists>w. fst (serializer_readStruct n E P k st2) = Inr w \<and> rebuilt E (root_info k) v w" if n: "n \<ge> N" for n
  proof -
    have "reads E Rel (sbind (rd (r_structBegin P)) (\<lambda>_. sbind (readStruct n E P (Some k))
        (\<lambda>ret. sbind (rd (r_structEnd P)) (\<lambda>_. sret ret))))
        (WStructBegin # (concat css @ [WFieldStop]) @ [WStructEnd]) (rebuilt E (root_info k) v)"
      by (rule reads_rd_then [OF structs_okD(1) [OF protocol_okD(2) [OF assms(1)]]],
          rule reads_sbind [OF N [OF n]],
          rule reads_rd_then [OF structs_okD(2) [OF protocol_okD(2) [OF assms(1)]]], rule reads_sret,
          rule fields_read_rebuilt [OF m new _ k])
    then show ?thesis
      using assms(7) rel unfolding reads_def serializer_readStruct_def catch_eq by fastforce
  qed
  then show ?thesis by blast
qed

lemma sample_schema_ok: "schema_ok sample_env"
proof -
  have "list_all (\<lambda>p. typed (snd p)) m \<and> distinct (map (\<lambda>p. ivarName (snd p)) m) \<and>
      (\<exists>ivs. new_instance sample_env k = Inr (RObj k ivs))"
    if "CreateFieldInfoMap sample_env k = Inr m" for k m
  proof -
    have "new_instance sample_env k = Inr (RObj k [])" by (simp add: sample_env_def)
    then show ?thesis
      using that sample_User sample_Team sample_none [of k]
      by (cases "k = ''User''"; cases "k = ''Team''")
         (auto simp: info_id_def info_name_def info_tags_def info_tag_def info_lead_def no_payload_def)
  qed
  then show ?thesis by (simp add: schema_ok_def) (simp add: sample_env_def)
qed

theorem roundtrip_witness:
  "\<exists>n w. fst (serializer_readStruct n sample_env token_protocol ''User''
       (fresh (r_init token_protocol (w_buffer token_protocol (struct_message sample_calls))))) = Inr w \<and>
     rebuilt sample_env (root_info ''User'') sample_user w"
proof -
  let ?b = "w_buffer token_protocol (struct_message sample_calls)"
  have P: "never_throws token_protocol" using token_protocol_ok by (simp add: protocol_ok_def)
  have "class_name sample_user = ''User''" by (simp add: sample_user_def)
  then have "fst (serializer_writeStruct sample_env token_protocol ''User'' sample_user (fresh [])) =
      Inr (RStr ASCII_8BIT ?b)"
    using writeStruct_succeeds [OF P fresh_cache_ok [of sample_env "[]"], where klass = "''User''" and
        data = sample_user and v = "RStr ASCII_8BIT ?b"] sample_user_enc by auto
  moreover have "small sample_user" by (simp add: sample_user_def)
  ultimately have "\<exists>N. \<forall>n\<ge>N. \<exists>w. fst (serializer_readStruct n sample_env token_protocol ''User''
       (fresh (r_init token_protocol ?b))) = Inr w \<and> rebuilt sample_env (root_info ''User'') sample_user w"
    by (intro roundtrip [OF token_protocol_ok sample_schema_ok fresh_cache_ok [of sample_env "[]"]]) simp_all
  then show ?thesis by blast
qed

section \<open>Fields the class does not expect\<close>

text \<open>C18: Forward compatibility: a field whose id the class does not declare is skipped,
  whatever value of whatever type it holds: the loop goes on with the same object as if the
  field had not been in the message.\<close>

theorem unknown_field_skipped:
  assumes "protocol_ok P Rel" and "omap_find flds (FieldID_key i) = None"
    and "t \<noteq> T_STOP" and "val_calls t c"
    and "Rel (tprot st) (WFieldBegin t i # c @ WFieldEnd # rest)"
  shows "\<exists>s. Rel s rest \<and>
    readFields (Suc n) E P k flds ret st = readFields n E P k flds ret (st\<lparr>tprot := s\<rparr>)"
proof -
  note S = structs_okD [OF protocol_okD(2) [OF assms(1)]]
  obtain s1 where 1: "r_fieldBegin P (tprot st) = (Inr (t, i), s1)" "Rel s1 (c @ WFieldEnd # rest)"
    using S(3) [OF assms(3), of i] assms(5) by (auto simp: delivers_def)
  obtain s2 where 2: "r_skip P t s1 = (Inr (), s2)" "Rel s2 (WFieldEnd # rest)"
    using protocol_okD(6) [OF assms(1,4) 1(2)] by blast
  obtain s3 where 3: "r_fieldEnd P s2 = (Inr (), s3)" "Rel s3 rest"
    using S(5) 2(2) by (auto simp: delivers_def)
  have "readFields (Suc n) E P k flds ret st = readFields n E P k flds ret (st\<lparr>tprot := s3\<rparr>)"
    using 1(1) 2(1) 3(1) assms(2,3) by (simp add: readFields_body_def rd_def sbind_def)
  then show ?thesis using 3(2) by blast
qed

theorem unknown_field_skipped_witness:
  "\<exists>s. s = [WFieldStop] \<and>
     readFields 5 sample_env token_protocol ''User'' [(1, info_id)] (RObj ''User'' [])
       (fresh [WFieldBegin T_I32 9, WI32 4, WFieldEnd, WFieldStop]) =
     readFields 4 sample_env token_protocol ''User'' [(1, info_id)] (RObj ''User'' [])
       (fresh [WFieldBegin T_I32 9, WI32 4, WFieldEnd, WFieldStop] \<lparr>tprot := s\<rparr>)"
proof -
  have "omap_find [(1, info_id)] (FieldID_key 9) = None" by (simp add: FieldID_key_def)
  from unknown_field_skipped [OF token_protocol_ok this, of T_I32 "[WI32 4]"
      "fresh [WFieldBegin T_I32 9, WI32 4, WFieldEnd, WFieldStop]" "[WFieldStop]" 4]
  show ?thesis by (auto intro: val_calls.intros)
qed

text \<open>C19: A known field that arrives with another wire type than its declaration raises
  \<^verbatim>\<open>TypeMismatch\<close> with the names of class and field before any of its value is read.
  (The message has the two types the wrong way round: as definition it gives the type on the
  wire.)\<close>

theorem struct_field_type_checked:
  assumes "structs_ok P Rel" and "omap_find flds (FieldID_key i) = Some info"
    and "t \<noteq> T_STOP" and "t \<noteq> ftype info" and "symName info = Some nm"
    and "Rel (tprot st) (WFieldBegin t i # rest)"
  shows "fst (readFields (Suc n) E P k flds ret st) =
    Inl (TypeMismatch (''Mismatched type (definition: '' @ TTypeName (ttype_id t) @ '', found: ''
      @ TTypeName (ttype_id (ftype info)) @ '')'' @ '' (in '' @ k @ ''#'' @ nm @ '')'') k nm)"
proof -
  obtain s1 where 1: "r_fieldBegin P (tprot st) = (Inr (t, i), s1)"
    using structs_okD(3) [OF assms(1,3), of i] assms(6) by (auto simp: delivers_def)
  then show ?thesis
    using assms by (auto simp: readFields_body_def rd_def sbind_def struct_mismatch_def with_names_def)
qed

theorem struct_field_type_checked_witness:
  "fst (readFields 1 sample_env token_protocol ''User'' [(1, info_id)] (RObj ''User'' [])
       (fresh [WFieldBegin T_STRING 1, WString ''x''])) =
     Inl (TypeMismatch (''Mismatched type (definition: T_STRING or T_UTF7, found: T_I32)'' @
       '' (in User#id)'') ''User'' ''id'')"
proof -
  have "omap_find [(1, info_id)] (FieldID_key 1) = Some info_id" by (simp add: FieldID_key_def)
  from struct_field_type_checked [OF protocol_okD(2) [OF token_protocol_ok] this, of T_STRING "''id''"
      "fresh [WFieldBegin T_STRING 1, WString ''x'']" "[WString ''x'']" 0 sample_env "''User''"]
  show ?thesis by (simp add: info_id_def TTypeName_def TTypeNames_def)
qed

section \<open>Unions\<close>



text \<open>C21: Unlike a struct, a union does not compare the wire type of its field with the
  declaration: a message whose field has the id of a member without a class but the wire type
  of a struct makes the reader use the class pointer of that member, which is null.\<close>

theorem union_wire_type_unchecked:
  assumes "structs_ok P Rel" and "cache_ok E st" and "CreateFieldInfoMap E k = Inr flds"
    and "new_instance E k = Inr (RObj k ivs)" and "omap_find flds (FieldID_key i) = Some info"
    and "field_klass info = None" and "Rel (tprot st) (WFieldBegin T_STRUCT i # WStructBegin # rest)"
  shows "fst (readUnion (Suc (Suc (Suc n))) E P (Some k) st) = Inl NullDeref"
proof -
  note S = structs_okD [OF assms(1)]
  obtain s1 where 1: "r_fieldBegin P (tprot st) = (Inr (T_STRUCT, i), s1)" "Rel s1 (WStructBegin # rest)"
    using S(3) [of T_STRUCT i] assms(7) by (auto simp: delivers_def)
  obtain s2 where 2: "r_structBegin P s1 = (Inr (), s2)"
    using S(1) 1(2) by (auto simp: delivers_def)
  show ?thesis
    using 1(1) 2 assms(2-6)
    by (simp add: readUnion_body_def readAny_body_def readStruct_body_def rb_class_new_instance_def
        sbind_unit_fun FindOrCreate_loaded sbind_returns sbind_raises rd_def)
qed

theorem union_wire_type_unchecked_witness:
  "fst (readUnion 3 sample_env token_protocol (Some ''User'') (fresh [WFieldBegin T_STRUCT 1, WStructBegin])) =
     Inl NullDeref"
proof -
  have "omap_find [(1, info_id), (2, info_name), (3, info_tags)] (FieldID_key 1) = Some info_id"
    by (simp add: FieldID_key_def)
  from union_wire_type_unchecked [OF protocol_okD(2) [OF token_protocol_ok] fresh_cache_ok sample_User _ this,
      of "[]" "[WFieldBegin T_STRUCT 1, WStructBegin]" "[]" 0]
  show ?thesis by (simp add: info_id_def numeral_3_eq_3) (simp add: sample_env_def)
qed

end
