(* ===== verification/CacheProps.thy ===== *)
theory CacheProps
  imports WriterProps
begin

text \<open>
  Correctness of the field tables of the serializer: what they hold for each type, and that the
  cache is nothing but a memory of them.
\<close>

section \<open>Well-typed field tables\<close>

text \<open>
  Containers and only they have an element description, maps and only they one for their keys,
  a class belongs to a struct, and only a string is binary.
\<close>

fun field_info_ok :: "FieldInfo \<Rightarrow> bool" where
  "field_info_ok (FieldInfo t k iv sy opt bin el key) \<longleftrightarrow>
     (el \<noteq> None \<longleftrightarrow> t \<in> {T_LIST, T_SET, T_MAP}) \<and> (key \<noteq> None \<longleftrightarrow> t = T_MAP) \<and>
     (k \<noteq> None \<longrightarrow> t = T_STRUCT) \<and> (bin \<longrightarrow> t = T_STRING) \<and>
     (case el of None \<Rightarrow> True | Some e \<Rightarrow> field_info_ok e) \<and>
     (case key of None \<Rightarrow> True | Some e \<Rightarrow> field_info_ok e)"

lemma CreateFieldInfo_ok: "CreateFieldInfo E entry = Inr fi \<Longrightarrow> field_info_ok fi"
proof (induction E entry arbitrary: fi rule: CreateFieldInfo.induct)
  case (1 E entry)
  have nn: "\<not> NIL_P entry"
    using "1.prems" by (subst (asm) CreateFieldInfo.simps) (simp split: if_splits)
  obtain ty t opt nm iv sy where steps: "rb_hash_aref entry ''type'' = Inr ty" "R_FIX_TO_TTYPE E ty = Inr t"
    "rb_hash_aref entry ''optional'' = Inr opt" "rb_hash_aref entry ''name'' = Inr nm"
    "field_name_to_ivar_id nm = Inr iv" "field_name_to_sym nm = Inr sy"
    using "1.prems" nn by (subst (asm) CreateFieldInfo.simps) (simp add: rbind_eq_Inr, blast)
  note ih = "1.IH" [OF nn steps]
  show ?case
    using "1.prems" nn steps ih
    by (subst (asm) CreateFieldInfo.simps, cases t) (auto simp: rbind_eq_Inr)
qed

text \<open>C22: The table that is built from the constant of a class has its ids in ascending order and within 16
bits, and every description in it, nested ones included, is typed: elements for containers, keys for
maps, a class for structs only.\<close>

theorem field_table_typed:
  assumes "CreateFieldInfoMap E klass = Inr m"
  shows "sorted_wrt (<) (map fst m) \<and> (\<forall>(fid, fi) \<in> set m. in_signed 16 fid \<and> field_info_ok fi)"
proof -
  obtain kvs where fold: "rfold (\<lambda>(k, v) fieldMap.
            rbind (VALUE2INT E k) (\<lambda>fid.
            rbind (CreateFieldInfo E v) (\<lambda>info.
            Inr (omap_insert (FieldID_of fid) info fieldMap)))) kvs [] = Inr m"
    using assms by (auto simp: CreateFieldInfoMap_def split: option.splits rvalue.splits)
  have entries: "(i, x) \<in> set (omap_insert k v n) \<Longrightarrow> x = v \<or> (i, x) \<in> set n" for k i :: int and x v n
    by (induction k v n rule: omap_insert.induct) (auto split: if_splits)
  have "\<forall>fi \<in> snd ` set m. field_info_ok fi"
    by (rule rfold_invariant [OF fold, of "\<lambda>n. \<forall>fi \<in> snd ` set n. field_info_ok fi"])
       (use entries in \<open>fastforce simp: result_simps dest!: CreateFieldInfo_ok\<close>)+
  moreover have "field_map_ok m" using assms by (rule CreateFieldInfoMap_ok)
  ultimately show ?thesis by (force simp: field_map_ok_def omap_ok_def)
qed

theorem field_table_typed_witness:
  "\<exists>m. CreateFieldInfoMap sample_env ''Team'' = Inr m \<and> map fst m = [1] \<and> field_info_ok (snd (hd m))"
proof -
  have m: "CreateFieldInfoMap sample_env ''Team'' = Inr [(1, info_lead)]"
    by (rule sample_Team)
  show ?thesis using m field_table_typed [OF m] by simp
qed

section \<open>The cache\<close>

text \<open>C23: With a sound cache, asking for the table of a class gives what building it gives, errors
included; it leaves a sound cache that has all the tables it had, does not touch the protocol, and
gives the same again when it is asked a second time.\<close>

theorem cache_transparent:
  assumes "cache_ok E st"
  shows "\<exists>st'. FindOrCreateFieldInfoMap E klass st = (CreateFieldInfoMap E klass, st')
    \<and> cache_ok E st' \<and> cache_le st st' \<and> tprot st' = tprot st
    \<and> fst (FindOrCreateFieldInfoMap E klass st') = CreateFieldInfoMap E klass"
  using assms loaded_cache_le [of st E klass]
  by (intro exI [of _ "loaded E klass st"]) (simp add: FindOrCreate_loaded FindOrCreate_result)

theorem cache_transparent_witness:
  "\<exists>st'. FindOrCreateFieldInfoMap sample_env ''Team'' (fresh ()) = (Inr [(1, info_lead)], st') \<and> cache_ok sample_env st'"
  using cache_transparent [of sample_env "fresh ()" "''Team''"] by (auto simp: sample_Team)

end
