(* ===== verification/ConstProps.thy ===== *)
theory ConstProps
  imports ConstCheck
begin

text \<open>
  Correctness of the scopes, of the resolution of constant values and of their checks.
\<close>

section \<open>The tables of a scope\<close>

text \<open>
  What the parser relies on for a table of symbols: a lookup returns the entry last added
  under the name, and neither operation disturbs the other names.
\<close>

locale symbol_table =
  fixes add :: "string \<Rightarrow> 'v \<Rightarrow> unit scoped"
    and get :: "string \<Rightarrow> 'v option scoped"
    and view :: "t_scope \<Rightarrow> string \<Rightarrow> 'v option"
  assumes add_view: "scope_ok s \<Longrightarrow> \<exists>t. add k v s = (Inr (), t) \<and> scope_ok t \<and> view t = (view s)(k \<mapsto> v)"
    and get_view: "scope_ok s \<Longrightarrow> \<exists>t. get k s = (Inr (view s k), t) \<and> scope_ok t \<and> view t = view s"
begin

lemma add_then_get:
  assumes "scope_ok s"
  shows "\<exists>t. sbind (add k v) (\<lambda>_. get k') s = (Inr (if k' = k then Some v else view s k'), t) \<and> scope_ok t"
proof -
  obtain t where t: "add k v s = (Inr (), t)" "scope_ok t" "view t = (view s)(k \<mapsto> v)"
    using add_view [OF assms] by blast
  obtain u where u: "get k' t = (Inr (view t k'), u)" "scope_ok u"
    using get_view [OF t(2)] by blast
  have "sbind (add k v) (\<lambda>_. get k') s = (Inr (view t k'), u)"
    using t(1) u(1) by (simp add: sbind_returns)
  then show ?thesis using t(3) u(2) by auto
qed

lemma get_twice:
  assumes "scope_ok s"
  shows "\<exists>t. sbind (get k) (\<lambda>_. get k') s = (Inr (view s k'), t) \<and> scope_ok t"
proof -
  obtain t where t: "get k s = (Inr (view s k), t)" "scope_ok t" "view t = view s"
    using get_view [OF assms] by blast
  then show ?thesis using get_view [OF t(2)] by (auto simp: sbind_returns)
qed

end

definition table_view :: "(string \<times> 'v option) list \<Rightarrow> string \<Rightarrow> 'v option" where
  "table_view m k = (case omap_find m k of Some v \<Rightarrow> v | None \<Rightarrow> None)"

lemma table_view_insert [simp]:
  "omap_ok m \<Longrightarrow> table_view (omap_insert k v m) = (table_view m)(k := v)"
  by (rule ext) (simp add: table_view_def omap_insert_find)

lemma omap_index_view:
  "omap_ok m \<Longrightarrow> \<exists>m'. omap_index m k = (table_view m k, m') \<and> omap_ok m' \<and> table_view m' = table_view m"
  by (cases "omap_find m k")
     (auto simp: omap_index_def table_view_def omap_insert_ok omap_insert_find fun_eq_iff)

interpretation type_table: symbol_table add_type get_type "\<lambda>s. table_view (sc_types s)"
proof unfold_locales
  fix s k and v :: t_type
  assume "scope_ok s"
  then show "\<exists>t. add_type k v s = (Inr (), t) \<and> scope_ok t
      \<and> table_view (sc_types t) = (table_view (sc_types s))(k \<mapsto> v)"
    by (simp add: add_type_def scope_ok_def omap_insert_ok)
next
  fix s k
  assume ok: "scope_ok s"
  then obtain m where "omap_index (sc_types s) k = (table_view (sc_types s) k, m)" "omap_ok m"
      "table_view m = table_view (sc_types s)"
    using omap_index_view by (metis scope_ok_def)
  with ok show "\<exists>t. get_type k s = (Inr (table_view (sc_types s) k), t) \<and> scope_ok t
      \<and> table_view (sc_types t) = table_view (sc_types s)"
    by (simp add: get_type_def scope_ok_def)
qed

interpretation service_table: symbol_table add_service get_service "\<lambda>s. table_view (sc_services s)"
proof unfold_locales
  fix s k and v :: t_service
  assume "scope_ok s"
  then show "\<exists>t. add_service k v s = (Inr (), t) \<and> scope_ok t
      \<and> table_view (sc_services t) = (table_view (sc_services s))(k \<mapsto> v)"
    by (simp add: add_service_def scope_ok_def omap_insert_ok)
next
  fix s k
  assume ok: "scope_ok s"
  then obtain m where "omap_index (sc_services s) k = (table_view (sc_services s) k, m)" "omap_ok m"
      "table_view m = table_view (sc_services s)"
    using omap_index_view by (metis scope_ok_def)
  with ok show "\<exists>t. get_service k s = (Inr (table_view (sc_services s) k), t) \<and> scope_ok t
      \<and> table_view (sc_services t) = table_view (sc_services s)"
    by (simp add: get_service_def scope_ok_def)
qed

text \<open>A type looked up after another one is added is the added one under its name and the
previous one under every other name, whatever null entries earlier lookups left in the table.\<close>

lemma type_lookup_after_add:
  assumes "scope_ok s"
  shows "\<exists>t. sbind (add_type k v) (\<lambda>_. get_type k') s
      = (Inr (if k' = k then Some v else table_view (sc_types s) k'), t) \<and> scope_ok t"
  using assms by (rule type_table.add_then_get)

definition sample_const :: t_const where
  "sample_const =
     \<lparr>const_type = t_base_type ''i32'' TYPE_I32 False False, const_name = ''X'',
      const_value = CV_INTEGER 1, const_doc = None\<rparr>"

text \<open>C27: \<^verbatim>\<open>add_constant\<close> rejects a second definition of a name; and since a failed
lookup inserts a null entry, a name that was only looked up counts as defined too.\<close>

theorem lookup_blocks_definition:
  assumes ok: "scope_ok s"
  shows "fst (sbind (get_constant name) (\<lambda>_. add_constant name c) s)
           = Inl (Throw (''Enum '' @ name @ '' is already defined!''))
     \<and> (omap_find (sc_constants s) name = None \<longrightarrow> (\<exists>t. add_constant name c s = (Inr (), t)
          \<and> fst (add_constant name d t) = Inl (Throw (''Enum '' @ name @ '' is already defined!''))
          \<and> fst (get_constant name t) = Inr (Some c)))"
proof (rule conjI)
  have "omap_find (snd (omap_index (sc_constants s) name)) name \<noteq> None"
    using ok by (cases "omap_find (sc_constants s) name")
      (auto simp: omap_index_def scope_ok_def omap_insert_find)
  then show "fst (sbind (get_constant name) (\<lambda>_. add_constant name c) s)
           = Inl (Throw (''Enum '' @ name @ '' is already defined!''))"
    by (cases "omap_index (sc_constants s) name") (simp add: get_constant_def add_constant_def sbind_def)
  show "omap_find (sc_constants s) name = None \<longrightarrow> (\<exists>t. add_constant name c s = (Inr (), t)
          \<and> fst (add_constant name d t) = Inl (Throw (''Enum '' @ name @ '' is already defined!''))
          \<and> fst (get_constant name t) = Inr (Some c))"
    using ok
    by (simp add: add_constant_def get_constant_def omap_index_def scope_ok_def omap_insert_find)
qed

theorem lookup_blocks_definition_witness:
  "fst (sbind (get_constant ''X'') (\<lambda>_. add_constant ''X'' sample_const) new_scope)
     = Inl (Throw (''Enum '' @ ''X'' @ '' is already defined!''))
   \<and> (\<exists>t. add_constant ''X'' sample_const new_scope = (Inr (), t)
          \<and> fst (add_constant ''X'' sample_const t) = Inl (Throw (''Enum '' @ ''X'' @ '' is already defined!''))
          \<and> fst (get_constant ''X'' t) = Inr (Some sample_const))"
proof -
  have "scope_ok new_scope" "omap_find (sc_constants new_scope) ''X'' = None"
    by (simp_all add: new_scope_def scope_ok_def)
  then show ?thesis using lookup_blocks_definition by blast
qed

section \<open>Resolution and checking of constants\<close>

text \<open>
  What \<^verbatim>\<open>validate_const_rec\<close> accepts, as a relation between types and values
  that mentions neither names nor messages. A value of a typedef'd type is not looked at, and
  a value of a container type need not be a container: only the elements it has are checked.
\<close>

inductive conforms :: "t_type \<Rightarrow> t_const_value \<Rightarrow> bool" where
  conforms_base: "base_const_ok b v \<Longrightarrow> conforms (t_base_type n b bin sl) v"
| conforms_enum: "get_identifier_name (CV_IDENTIFIER i en) = Inr n \<Longrightarrow> n \<in> ev_name ` set (enum_constants e)
    \<Longrightarrow> conforms (t_enum_type e) (CV_IDENTIFIER i en)"
| conforms_struct:
    "(\<And>k v. (k, v) \<in> set m \<Longrightarrow> \<exists>name ft. k = CV_STRING name
        \<and> find_field_type (members s) name = Some ft \<and> conforms ft v)
     \<Longrightarrow> conforms (t_struct_type s) (CV_MAP m)"
| conforms_map:
    "(\<And>k v. (k, v) \<in> set (get_map cv) \<Longrightarrow> conforms kt k \<and> conforms vt v) \<Longrightarrow> conforms (t_map kt vt) cv"
| conforms_list: "(\<And>v. v \<in> set (get_list cv) \<Longrightarrow> conforms et v) \<Longrightarrow> conforms (t_list et) cv"
| conforms_set: "(\<And>v. v \<in> set (get_list cv) \<Longrightarrow> conforms et v) \<Longrightarrow> conforms (t_set et) cv"
| conforms_typedef: "conforms (t_typedef p n t) cv"

inductive_simps conforms_simps:
  "conforms (t_base_type n b bin sl) v"
  "conforms (t_enum_type e) v"
  "conforms (t_struct_type s) v"
  "conforms (t_map kt vt) v"
  "conforms (t_list et) v"
  "conforms (t_set et) v"
  "conforms (t_typedef p n t) v"

lemma rfold_unit_ok: "rfold (\<lambda>x _. f x) xs () = Inr () \<longleftrightarrow> (\<forall>x \<in> set xs. f x = Inr ())"
  by (induction xs) (auto simp: result_simps)

lemma rfold_pairs_ok:
  "rfold (\<lambda>(k, v) _. f k v) xs () = Inr () \<longleftrightarrow> (\<forall>(k, v) \<in> set xs. f k v = Inr ())"
  using rfold_unit_ok [of "\<lambda>(k, v). f k v" xs] by (simp add: case_prod_unfold)

lemma cv_type_cases:
  "cv_type v = CVT_IDENTIFIER \<longleftrightarrow> (\<exists>i e. v = CV_IDENTIFIER i e)"
  "cv_type v = CVT_MAP \<longleftrightarrow> (\<exists>m. v = CV_MAP m)"
  "cv_type v = CVT_STRING \<longleftrightarrow> (\<exists>s. v = CV_STRING s)"
  by (cases v; simp)+

lemma validate_const_conforms: "validate_const_rec name ty v = Inr () \<longleftrightarrow> conforms ty v"
proof (induction name ty v rule: validate_const_rec.induct)
  case (1 name ty cv)
  show ?case
  proof (cases ty)
    case (t_base_type n b bin sl)
    then show ?thesis
      by (subst validate_const_rec.simps) (cases b; simp add: conforms_simps base_const_ok_def)
  next
    case (t_enum_type e)
    then show ?thesis
      by (subst validate_const_rec.simps)
         (auto simp: conforms_simps cv_type_cases rbind_eq_Inr split: if_splits)
  next
    case (t_struct_type s)
    have member: "validate_const_rec (name @ ''.'' @ n) ft w = Inr () \<longleftrightarrow> conforms ft w"
      if "cv_type cv = CVT_MAP" "(CV_STRING n, w) \<in> set (get_map cv)"
        "find_field_type (members s) n = Some ft" for n ft w
      using "1"(1) [of s "(CV_STRING n, w)" "CV_STRING n" w ft] that t_struct_type by auto
    have step: "cv_type k = CVT_STRING \<and> (cv_type k = CVT_STRING \<longrightarrow>
          (case find_field_type (members s) (get_string k) of None \<Rightarrow> Inl e
           | Some ft \<Rightarrow> validate_const_rec (name @ ''.'' @ get_string k) ft w) = Inr ())
       \<longleftrightarrow> (\<exists>n ft. k = CV_STRING n \<and> find_field_type (members s) n = Some ft \<and> conforms ft w)"
      if "cv_type cv = CVT_MAP" "(k, w) \<in> set (get_map cv)" for k w e
      using member [OF that(1)] that(2) by (auto simp: cv_type_cases split: option.split)
    show ?thesis
    proof (cases "cv_type cv = CVT_MAP")
      case True
      have "validate_const_rec name ty cv = Inr () \<longleftrightarrow> (\<forall>(k, w) \<in> set (get_map cv).
          \<exists>n ft. k = CV_STRING n \<and> find_field_type (members s) n = Some ft \<and> conforms ft w)"
        by (subst validate_const_rec.simps)
           (simp add: t_struct_type True rfold_pairs_ok split_beta step [OF True])
      then show ?thesis using True t_struct_type by (auto simp: cv_type_cases conforms_simps)
    next
      case False
      then show ?thesis
        using t_struct_type by (subst validate_const_rec.simps) (auto simp: conforms_simps)
    qed
  next
    case (t_list et)
    then show ?thesis
      using "1" by (subst validate_const_rec.simps) (auto simp: conforms_simps rfold_unit_ok)
  next
    case (t_set et)
    then show ?thesis
      using "1" by (subst validate_const_rec.simps) (auto simp: conforms_simps rfold_unit_ok)
  next
    case (t_map kt vt)
    have pair: "rbind (validate_const_rec (name @ ''<key>'') kt k) (\<lambda>_.
        validate_const_rec (name @ ''<val>'') vt w) = Inr () \<longleftrightarrow> conforms kt k \<and> conforms vt w"
      if "(k, w) \<in> set (get_map cv)" for k w
      using "1"(4) [of kt vt "(k, w)" k w] "1"(5) [of kt vt "(k, w)" k w] that t_map
      by (auto simp: rbind_eq_Inr)
    have "validate_const_rec name ty cv = Inr () \<longleftrightarrow>
        (\<forall>(k, w) \<in> set (get_map cv). conforms kt k \<and> conforms vt w)"
      by (subst validate_const_rec.simps) (simp add: t_map rfold_pairs_ok split_beta pair)
    then show ?thesis using t_map by (auto simp: conforms_simps)
  next
    case (t_typedef p n t)
    then show ?thesis by (subst validate_const_rec.simps) (simp add: conforms_simps)
  qed
qed


section \<open>Enum values\<close>

lemma get_constant_by_value_Some:
  "get_constant_by_value e i = Some ev \<Longrightarrow> ev \<in> set (enum_constants e) \<and> ev_value ev = i"
  by (auto simp: get_constant_by_value_def find_Some_iff)

lemma get_constant_by_name_distinct:
  assumes "distinct (map ev_name (enum_constants e))" "ev \<in> set (enum_constants e)"
  shows "get_constant_by_name e (ev_name ev) = Some ev"
proof -
  obtain c where c: "get_constant_by_name e (ev_name ev) = Some c"
    using assms(2) by (cases "get_constant_by_name e (ev_name ev)")
      (auto simp: get_constant_by_name_def find_None_iff)
  then have "c \<in> set (enum_constants e)" "ev_name c = ev_name ev"
    by (auto simp: get_constant_by_name_def find_Some_iff)
  then have "c = ev"
    using assms by (metis distinct_map inj_onD)
  then show ?thesis using c by simp
qed

lemma after_last_dot_qualified:
  assumes "CHR ''.'' \<notin> set b"
  shows "after_last_dot (a @ CHR ''.'' # b) = b"
proof -
  have "str_find CHR ''.'' (rev (a @ CHR ''.'' # b)) = Some (length b)"
    using str_find_split [of "CHR ''.''" "rev b" "rev a"] assms by simp
  then show ?thesis by (simp add: after_last_dot_def str_rfind_def substr_def)
qed

lemma identifier_name_qualified:
  assumes "CHR ''.'' \<notin> set a" "CHR ''.'' \<notin> set b"
  shows "get_identifier_name (CV_IDENTIFIER (a @ CHR ''.'' # b) en) = Inr b"
  using assms str_find_split [OF assms(1), of b] str_find_None [of "CHR ''.''" b]
  by (simp add: get_identifier_name_def substr_def)

text \<open>C26: A number given for an enum is resolved to the identifier of the enum's first constant with
that value: it passes the check of constants and reads back as the number; and a number no constant
has is an error. The names must be free of dots, which the grammar enforces for constants only.\<close>

theorem resolve_enum_number:
  assumes names: "distinct (map ev_name (enum_constants e))" "CHR ''.'' \<notin> set (enum_name e)"
    and dots: "\<And>c. c \<in> set (enum_constants e) \<Longrightarrow> CHR ''.'' \<notin> set (ev_name c)"
  shows "if i \<in> ev_value ` set (enum_constants e)
    then \<exists>cv. resolve_const_value fuel scopes (CV_INTEGER i) (t_enum_type e) s = (Inr cv, s)
       \<and> validate_const_rec name (t_enum_type e) cv = Inr () \<and> get_integer cv = Inr i
    else fst (resolve_const_value fuel scopes (CV_INTEGER i) (t_enum_type e) s)
       = Inl (Throw (''Couldn'' @ sq @ ''t find a named value in enum '' @ enum_name e @ '' for value '' @ show_int i))"
proof (cases "get_constant_by_value e i")
  case None
  then have "i \<notin> ev_value ` set (enum_constants e)"
    by (auto simp: get_constant_by_value_def find_None_iff)
  then show ?thesis
    by (subst (2) resolve_const_value.simps) (simp add: None)
next
  case (Some ev)
  note ev = get_constant_by_value_Some [OF Some]
  let ?cv = "CV_IDENTIFIER (enum_name e @ ''.'' @ ev_name ev) (Some e)"
  have dot: "CHR ''.'' \<notin> set (ev_name ev)" using ev dots by simp
  have "resolve_const_value fuel scopes (CV_INTEGER i) (t_enum_type e) s = (Inr ?cv, s)"
    by (subst resolve_const_value.simps) (simp add: Some)
  moreover have "get_integer ?cv = Inr i"
    using after_last_dot_qualified [OF dot] get_constant_by_name_distinct [OF names(1)] ev by simp
  moreover have "conforms (t_enum_type e) ?cv"
    using identifier_name_qualified [OF names(2) dot] ev by (auto simp: conforms_simps)
  ultimately show ?thesis
    using ev by (auto simp: validate_const_conforms)
qed

definition sample_enum :: t_enum where
  "sample_enum = t_enum ''/a.thrift'' ''Color'' [t_enum_value ''RED'' 1 None, t_enum_value ''BLUE'' 4 None] None"

theorem resolve_enum_number_witness:
  "if 4 \<in> ev_value ` set (enum_constants sample_enum)
    then \<exists>cv. resolve_const_value 1 (\<lambda>_ _. None) (CV_INTEGER 4) (t_enum_type sample_enum) new_scope = (Inr cv, new_scope)
       \<and> validate_const_rec ''FAVOURITE'' (t_enum_type sample_enum) cv = Inr () \<and> get_integer cv = Inr 4
    else fst (resolve_const_value 1 (\<lambda>_ _. None) (CV_INTEGER 4) (t_enum_type sample_enum) new_scope)
       = Inl (Throw (''Couldn'' @ sq @ ''t find a named value in enum '' @ enum_name sample_enum @ '' for value '' @ show_int 4))"
  by (rule resolve_enum_number) (auto simp: sample_enum_def)

end
