(* ===== verification/DocProps.thy ===== *)
theory DocProps
  imports Doctext
begin

text \<open>
  Correctness of the doc comment handling: which comment becomes the program's, and the
  clean-up of a block of starred lines.
\<close>

section \<open>Cleaning a block comment\<close>

text \<open>A line of text as it should come out: no blanks at its ends and no line break inside.\<close>

definition plain :: "string \<Rightarrow> bool" where
  "plain l \<longleftrightarrow> l \<noteq> [] \<and> \<not> blank (hd l) \<and> \<not> blank (last l) \<and> CHR 0x0A \<notin> set l \<and> CHR 0x0D \<notin> set l"

definition starred :: "nat \<Rightarrow> string \<Rightarrow> string" where
  "starred k l = replicate k (CHR 0x20) @ ''* '' @ l"

lemma doc_lines_blank: "doc_lines (replicate m (CHR 0x20)) = []"
proof -
  have "str_find (CHR 0x0A) (replicate m (CHR 0x20)) = None"
    by (simp add: str_find_None)
  moreover have "takeWhile blank (replicate m (CHR 0x20)) = replicate m (CHR 0x20)"
    by (induction m) (auto simp: blank_def)
  ultimately show ?thesis by (subst doc_lines.simps) (simp add: first_not_blank_def)
qed

lemma doc_lines_line: "CHR 0x0A \<notin> set a \<Longrightarrow> doc_lines (a @ CHR 0x0A # b) = a # doc_lines b"
  by (subst doc_lines.simps) (simp add: str_find_split)

lemma doc_lines_block:
  "(\<And>l. l \<in> set ls \<Longrightarrow> CHR 0x0A \<notin> set l) \<Longrightarrow>
     doc_lines (concat (map (\<lambda>l. l @ [CHR 0x0A]) ls) @ replicate m (CHR 0x20)) = ls"
  by (induction ls) (auto simp: doc_lines_blank doc_lines_line)

lemma first_not_blank_at:
  assumes "\<not> blank c"
  shows "first_not_blank (replicate k (CHR 0x20) @ c # s) = Some k"
proof -
  have "takeWhile blank (replicate k (CHR 0x20) @ c # s) = replicate k (CHR 0x20)"
    using assms by (induction k) (auto simp: blank_def)
  then show ?thesis by (simp add: first_not_blank_def)
qed

lemma first_not_blank_starred: "first_not_blank (starred k l) = Some k"
  unfolding starred_def using first_not_blank_at [of "CHR ''*''" k] by (simp add: blank_def)

lemma starred_star: "starred k l \<noteq> [] \<and> starred k l ! k = CHR ''*''"
  by (simp add: starred_def nth_append)

lemma star_prefix_starred: "star_prefix True k (map (starred k) ls) = (map (starred k) ls, True, k)"
  by (induction ls) (auto simp: first_not_blank_starred starred_star)

lemma star_prefix_block:
  "ls \<noteq> [] \<Longrightarrow> star_prefix False 0 (map (starred k) ls) = (map (starred k) ls, True, k)"
  by (cases ls) (auto simp: first_not_blank_starred starred_star star_prefix_starred)

lemma drop_starred: "drop (Suc k) (starred k l) = CHR 0x20 # l"
  by (simp add: starred_def)

lemma first_not_blank_spaced: "plain l \<Longrightarrow> first_not_blank (CHR 0x20 # l) = Some 1"
  using first_not_blank_at [of "hd l" 1 "tl l"] by (simp add: plain_def)

lemma min_indent_spaced:
  assumes "ls \<noteq> []" "\<And>l. l \<in> set ls \<Longrightarrow> plain l"
  shows "min_indent (map (\<lambda>l. CHR 0x20 # l) ls) = Some 1"
proof -
  let ?step = "\<lambda>r l. if l = [] then r
       else case first_not_blank l of None \<Rightarrow> r
       | Some pos \<Rightarrow> (case r of None \<Rightarrow> Some pos | Some n \<Rightarrow> if pos < n then Some pos else r)"
  have rest: "foldl ?step (Some 1) (map (\<lambda>l. CHR 0x20 # l) xs) = Some 1"
    if "\<And>l. l \<in> set xs \<Longrightarrow> plain l" for xs
    using that by (induction xs) (auto simp: first_not_blank_spaced)
  obtain l xs where ls: "ls = l # xs" using assms(1) by (cases ls) auto
  have "plain l" using assms(2) ls by simp
  then have "min_indent (map (\<lambda>l. CHR 0x20 # l) ls) = foldl ?step (Some 1) (map (\<lambda>l. CHR 0x20 # l) xs)"
    unfolding min_indent_def ls by (simp add: first_not_blank_spaced)
  also have "\<dots> = Some 1" using rest assms(2) ls by simp
  finally show ?thesis .
qed

lemma trim_right_plain: "l = [] \<or> plain l \<Longrightarrow> trim_right l = l"
proof (cases l rule: rev_cases)
  case Nil
  then show ?thesis by (simp add: trim_right_def last_not_blank_def first_not_blank_def)
next
  case (snoc xs x)
  assume "l = [] \<or> plain l"
  then have "\<not> blank x" using snoc by (simp add: plain_def)
  then have "last_not_blank l = Some (length xs)"
    using snoc first_not_blank_at [of x 0 "rev xs"] by (simp add: last_not_blank_def)
  then show ?thesis using snoc by (simp add: trim_right_def)
qed

lemma front_plain: "front = [] \<or> plain front \<Longrightarrow> (case first_not_blank front of None \<Rightarrow> [] | Some pos \<Rightarrow> drop pos front) = front"
proof (cases front)
  case (Cons c cs)
  assume "front = [] \<or> plain front"
  then have "first_not_blank front = Some 0"
    using Cons first_not_blank_at [of c 0 cs] by (simp add: plain_def)
  then show ?thesis by simp
qed (simp add: first_not_blank_def)

lemma no_cr_block: "(\<And>l. l \<in> set ls \<Longrightarrow> plain l) \<Longrightarrow>
    filter (\<lambda>c. c \<noteq> CHR 0x0D) (concat (map (\<lambda>l. l @ [CHR 0x0A]) (map (starred k) ls)))
      = concat (map (\<lambda>l. l @ [CHR 0x0A]) (map (starred k) ls))"
  by (induction ls) (auto simp: starred_def plain_def filter_id_conv)

lemma filter_no_cr: "CHR 0x0D \<notin> set s \<Longrightarrow> filter (\<lambda>c. c \<noteq> CHR 0x0D) s = s"
  by (auto simp: filter_id_conv)

text \<open>C35: A block comment whose lines after the first are indented alike and start with a star and
a space comes out as its lines of text, each ended by a line break, whatever the indentation, with
the empty first line and the blanks before the closing mark dropped.\<close>

theorem clean_up_star_block:
  assumes front: "front = [] \<or> plain front" and some: "ls \<noteq> []"
    and lines: "\<And>l. l \<in> set ls \<Longrightarrow> plain l"
  shows "clean_up_doctext (front @ [CHR 0x0A] @ concat (map (\<lambda>l. starred k l @ [CHR 0x0A]) ls)
            @ replicate m (CHR 0x20))
       = Some (concat (map (\<lambda>l. l @ [CHR 0x0A]) ((if front = [] then [] else [front]) @ ls)))"
proof -
  let ?body = "concat (map (\<lambda>l. l @ [CHR 0x0A]) (map (starred k) ls))"
  let ?text = "front @ [CHR 0x0A] @ ?body @ replicate m (CHR 0x20)"
  have no_nl: "CHR 0x0A \<notin> set l" if "l \<in> set (map (starred k) ls)" for l
    using that lines by (auto simp: starred_def plain_def)
  have no_cr: "filter (\<lambda>c. c \<noteq> CHR 0x0D) ?text = ?text"
    using front no_cr_block [OF lines, where ls = ls]
    by (auto simp: plain_def filter_no_cr simp del: filter_replicate)
  have split: "doc_lines ?text = front # map (starred k) ls"
    using front doc_lines_line [of front] doc_lines_block [OF no_nl, of "map (starred k) ls" m]
    by (auto simp: plain_def)
  have drop_star: "map (drop (Suc k)) (map (starred k) ls) = map (\<lambda>l. CHR 0x20 # l) ls"
    by (simp add: drop_starred)
  have indent: "min_indent (map (\<lambda>l. CHR 0x20 # l) ls) = Some 1"
    using some lines by (rule min_indent_spaced)
  have drop_one: "map (drop 1) (map (\<lambda>l. CHR 0x20 # l) ls) = ls"
    by (simp add: map_idI)
  have trim: "map trim_right (front # ls) = front # ls"
    using front lines by (simp add: trim_right_plain map_idI)
  have "clean_up_doctext ?text =
      Some (concat (map (\<lambda>l. l @ [CHR 0x0A]) (if front = [] then ls else front # ls)))"
    unfolding clean_up_doctext_def no_cr split list.case front_plain [OF front]
      star_prefix_block [OF some, of k] Let_def prod.case if_True drop_star
      indent option.case drop_one trim list.sel by simp
  then show ?thesis by (cases front) (simp_all add: comp_def)
qed

theorem clean_up_star_block_witness:
  "clean_up_doctext ([] @ [CHR 0x0A] @ concat (map (\<lambda>l. starred 2 l @ [CHR 0x0A]) [''A user.'', ''See #1''])
            @ replicate 2 (CHR 0x20))
       = Some (concat (map (\<lambda>l. l @ [CHR 0x0A]) ((if ([]::string) = [] then [] else [[]]) @ [''A user.'', ''See #1''])))"
  by (rule clean_up_star_block) (auto simp: plain_def blank_def)

section \<open>The program's comment\<close>

text \<open>The first declaration of a file decides on its doc text: a pending candidate becomes the
program's for sure, and stays it only until the next declaration; a candidate that was already taken
as the doc of an object is never the program's.\<close>

lemma program_doctext_decided:
  "\<exists>t. declare_valid_program_doctext g = (Inr (), t)
     \<and> (g_program_doctext_status t = ABSOLUTELY_SURE
          \<longleftrightarrow> g_program_doctext_candidate g \<noteq> None \<and> g_program_doctext_status g = STILL_CANDIDATE)
     \<and> (g_program_doctext_status t = ABSOLUTELY_SURE \<or> g_program_doctext_status t = NO_PROGRAM_DOCTEXT)
     \<and> (\<exists>u. declare_valid_program_doctext t = (Inr (), u) \<and> g_program_doctext_status u = NO_PROGRAM_DOCTEXT)
     \<and> g_program_doctext_candidate t = g_program_doctext_candidate g"
proof -
  have dbg: "\<exists>out. pdebug msg g = (Inr (), g\<lparr>printed := printed g @ out\<rparr>)" for msg g
    using messages_only_print(2) by (simp add: only_prints_def)
  have decide: "\<exists>out. declare_valid_program_doctext g =
      (Inr (), g\<lparr>g_program_doctext_status :=
         if g_program_doctext_candidate g \<noteq> None \<and> g_program_doctext_status g = STILL_CANDIDATE
         then ABSOLUTELY_SURE else NO_PROGRAM_DOCTEXT, printed := printed g @ out\<rparr>)" for g
    using dbg [of "''program doctext set to ABSOLUTELY_SURE''"
        "g\<lparr>g_program_doctext_status := ABSOLUTELY_SURE\<rparr>"]
      dbg [of "''program doctext set to NO_PROGRAM_DOCTEXT''"
        "g\<lparr>g_program_doctext_status := NO_PROGRAM_DOCTEXT\<rparr>"]
    by (auto simp: declare_valid_program_doctext_def)
  obtain out t where t: "declare_valid_program_doctext g = (Inr (), t)"
    "t = g\<lparr>g_program_doctext_status :=
         if g_program_doctext_candidate g \<noteq> None \<and> g_program_doctext_status g = STILL_CANDIDATE
         then ABSOLUTELY_SURE else NO_PROGRAM_DOCTEXT, printed := printed g @ out\<rparr>"
    using decide [of g] by blast
  obtain out' where "declare_valid_program_doctext t =
      (Inr (), t\<lparr>g_program_doctext_status := NO_PROGRAM_DOCTEXT, printed := printed t @ out'\<rparr>)"
  proof -
    have "g_program_doctext_status t \<noteq> STILL_CANDIDATE" using t(2) by simp
    then show ?thesis using that decide [of t] by auto
  qed
  then show ?thesis using t by (intro exI [of _ t]) auto
qed

end
