(* ===== verification/CommandLine.thy ===== *)
theory CommandLine
  imports Driver
begin

text \<open>
  The command line of the compiler (\<^verbatim>\<open>main\<close> in \<^verbatim>\<open>main.cc\<close>): usage and help, the
  loop over the options, and the run it sets up.
\<close>

section \<open>Version, usage and help\<close>

definition version :: "host \<Rightarrow> unit comp" where
  "version h = print_to Stdout (''Sparsam version '' @ THRIFT_VERSION h @ nl)"

definition usage :: "'a comp" where
  "usage =
     sbind (print_to Stderr (''Usage: sparsam-gen [options] file'' @ nl @ nl)) (\<lambda>_.
     sbind (print_to Stderr (''Use sparsam-gen -help for a list of options'' @ nl)) (\<lambda>_.
     sraise (Exit 1 [])))"

definition help_lines :: "string list" where
  "help_lines =
     [''Usage: sparsam-gen [options] file'',
      ''Options:'',
      ''  -version    Print the compiler version'',
      ''  -o dir      Set the output directory for gen-* packages'',
      ''               (default: current directory)'',
      ''  -out dir    Set the ouput location for generated files.'',
      ''               (no gen-* folder will be created)'',
      ''  -I dir      Add a directory to the list of directories'',
      ''                searched for include directives'',
      ''  -nowarn     Suppress all compiler warnings (BAD!)'',
      ''  -strict     Strict compiler warnings on'',
      ''  -v[erbose]  Verbose mode'',
      ''  -r[ecurse]  Also generate included files'',
      ''  -debug      Parse debug trace to stdout'',
      ''  --allow-neg-keys  Allow negative field keys (Used to preserve protocol'',
      ''                compatibility with older .thrift files)'',
      ''  --allow-64bit-consts  Do not print warnings about using 64-bit constants'',
      ''  --gen STR   Generate code with a dynamically-registered generator.'',
      ''                STR has the form language[:key1=val1[,key2[,key3=val3]]].'',
      ''                Keys and values are options passed to the generator.'',
      ''                Many options will not require values.'',
      '''',
      ''Options related to audit operation'',
      ''   --audit OldFile   Old Thrift file to be audited with '' @ sq @ ''file'' @ sq,
      ''  -Iold dir    Add a directory to the list of directories'',
      ''                searched for include directives for old thrift file'',
      ''  -Inew dir    Add a directory to the list of directories'',
      ''                searched for include directives for new thrift file'',
      '''',
      ''Available generators (and options):'']"

definition print_help :: "host \<Rightarrow> 'a comp" where
  "print_help h =
     sbind (sfor (\<lambda>l. print_to Stderr (l @ nl)) help_lines) (\<lambda>_.
     sbind (sfor (\<lambda>(short, long, doc).
       sbind (print_to Stderr (''  '' @ short @ '' ('' @ long @ ''):'' @ nl)) (\<lambda>_.
       print_to Stderr doc)) (generator_docs h)) (\<lambda>_.
     sraise (Exit 1 [])))"

section \<open>Options\<close>

text \<open>The variables of \<^verbatim>\<open>main\<close> the options set, beside the globals.\<close>

record options =
  opt_out_path :: string
  opt_out_path_is_absolute :: bool
  namespaced_option :: bool
  generator_strings :: "string list"
  old_thrift_include_path :: string
  new_thrift_include_path :: string
  old_input_file :: string

definition no_options :: options where
  "no_options =
     \<lparr>opt_out_path = [], opt_out_path_is_absolute = False, namespaced_option = False,
      generator_strings = [], old_thrift_include_path = [], new_thrift_include_path = [],
      old_input_file = []\<rparr>"

text \<open>\<^verbatim>\<open>strtok\<close> at spaces: the pieces that are not empty.\<close>

definition tokens :: "string \<Rightarrow> string list" where
  "tokens s = filter (\<lambda>t. t \<noteq> []) (split_on CHR 0x20 s)"

definition single_dash :: "string \<Rightarrow> string" where
  "single_dash arg = (if take 2 arg = ''--'' then drop 1 arg else arg)"

text \<open>
  \<^verbatim>\<open>arg = argv[++i]\<close>: \<open>args\<close> is \<^verbatim>\<open>argv\<close> from \<open>i\<close> on, and the argument after
  the last is null, which ends in the message and the usage.
\<close>

definition next_arg :: "string \<Rightarrow> string list \<Rightarrow> (string \<times> string list) comp" where
  "next_arg missing args =
     (case tl args of
        [] \<Rightarrow> sbind (print_to Stderr (missing @ nl)) (\<lambda>_. usage)
      | arg # rest \<Rightarrow> sret (arg, arg # rest))"

definition do_option :: "host \<Rightarrow> string \<Rightarrow> options \<times> string list \<Rightarrow> (options \<times> string list) comp" where
  "do_option h tok st =
     (let (opts, args) = st; arg = single_dash tok in
      if arg = ''-help'' then print_help h
      else if arg = ''-version'' then sbind (version h) (\<lambda>_. sraise (Exit 0 []))
      else if arg = ''-debug'' then sbind (modify (\<lambda>g. g\<lparr>g_debug := 1\<rparr>)) (\<lambda>_. sret st)
      else if arg = ''-nowarn'' then sbind (modify (\<lambda>g. g\<lparr>g_warn := 0\<rparr>)) (\<lambda>_. sret st)
      else if arg = ''-strict'' then sbind (modify (\<lambda>g. g\<lparr>g_strict := 255, g_warn := 2\<rparr>)) (\<lambda>_. sret st)
      else if arg = ''-v'' \<or> arg = ''-verbose'' then sbind (modify (\<lambda>g. g\<lparr>g_verbose := 1\<rparr>)) (\<lambda>_. sret st)
      else if arg = ''-r'' \<or> arg = ''-recurse'' then sbind (modify (\<lambda>g. g\<lparr>gen_recurse := True\<rparr>)) (\<lambda>_. sret st)
      else if arg = ''-allow-neg-keys''
      then sbind (modify (\<lambda>g. g\<lparr>g_allow_neg_field_keys := True\<rparr>)) (\<lambda>_. sret st)
      else if arg = ''-allow-64bit-consts''
      then sbind (modify (\<lambda>g. g\<lparr>g_allow_64bit_consts := True\<rparr>)) (\<lambda>_. sret st)
      else if arg = ''-I'' then
        sbind (next_arg ''Missing Include directory'' args) (\<lambda>(dir, args).
        sbind (modify (\<lambda>g. g\<lparr>g_incl_searchpath := g_incl_searchpath g @ [dir]\<rparr>)) (\<lambda>_.
        sret (opts, args)))
      else if arg = ''-namespaced'' then
        sret (opts\<lparr>generator_strings := generator_strings opts @ [''ruby:namespaced''],
                   namespaced_option := True\<rparr>, args)
      else if arg = ''-o'' \<or> arg = ''-out'' then
        sbind (next_arg ''-o: missing output directory'' args) (\<lambda>(dir, args).
        sbind (check_is_directory h dir) (\<lambda>ok.
        if ok then sret (opts\<lparr>opt_out_path := dir, opt_out_path_is_absolute := (arg = ''-out'')\<rparr>, args)
        else sraise (Exit (-1) [])))
      else if arg = ''-audit'' then
        sbind (modify (\<lambda>g. g\<lparr>g_audit := True\<rparr>)) (\<lambda>_.
        sbind (next_arg ''Missing old thrift file name for audit operation'' args) (\<lambda>(file, args).
        case realpath h file of
          None \<Rightarrow> failure (''Could not open input file with realpath: '' @ file)
        | Some rp \<Rightarrow> sret (opts\<lparr>old_input_file := rp\<rparr>, args)))
      else if arg = ''-audit-nofatal'' then
        sbind (modify (\<lambda>g. g\<lparr>g_audit_fatal := False\<rparr>)) (\<lambda>_. sret st)
      else if arg = ''-Iold'' then
        sbind (next_arg ''Missing Include directory for old thrift file'' args) (\<lambda>(dir, args).
        sret (opts\<lparr>old_thrift_include_path := dir\<rparr>, args))
      else if arg = ''-Inew'' then
        sbind (next_arg ''Missing Include directory for new thrift file'' args) (\<lambda>(dir, args).
        sret (opts\<lparr>new_thrift_include_path := dir\<rparr>, args))
      else
        sbind (print_to Stderr (''Unrecognized option: '' @ arg @ nl)) (\<lambda>_. usage))"

text \<open>
  The loop over the arguments before the last one. An option that takes an argument may take
  the last one too, and then nothing is left for the file name. The fuel is the number of
  arguments: each round drops at least one.
\<close>

fun option_loop :: "nat \<Rightarrow> host \<Rightarrow> options \<times> string list \<Rightarrow> (options \<times> string list) comp" where
  "option_loop 0 h (opts, args) = sret (opts, args)"
| "option_loop (Suc n) h (opts, args) =
     (if length args \<le> 1 then sret (opts, args)
      else
        sbind (sfold (do_option h) (tokens (hd args)) (opts, args)) (\<lambda>(opts, args).
        option_loop n h (opts, tl args)))"

section \<open>Running\<close>

definition set_program_prefix :: "string \<Rightarrow> t_program \<Rightarrow> t_program" where
  "set_program_prefix input_filename p =
     set_include_prefix
       (case str_rfind CHR ''/'' input_filename of
          Some last_slash \<Rightarrow> substr input_filename 0 (Some last_slash) | None \<Rightarrow> []) p"

definition input_file :: "host \<Rightarrow> string \<Rightarrow> string list \<Rightarrow> string comp" where
  "input_file h missing args =
     (case args of
        [] \<Rightarrow> sbind (print_to Stderr (missing @ nl)) (\<lambda>_. usage)
      | file # _ \<Rightarrow>
          (case realpath h file of
             None \<Rightarrow> failure (''Could not open input file with realpath: '' @ file)
           | Some rp \<Rightarrow> sret rp))"

definition run_audit :: "nat \<Rightarrow> host \<Rightarrow> options \<Rightarrow> string list \<Rightarrow> unit comp" where
  "run_audit fuel h opts args =
     (if old_input_file opts = [] then
        sbind (print_to Stderr (''Missing file name of old thrift file for audit'' @ nl)) (\<lambda>_. usage)
      else
        sbind (input_file h ''Missing file name of new thrift file for audit'' args) (\<lambda>new_file.
        audit fuel h (Program (new_program new_file) []) (Program (new_program (old_input_file opts)) [])
          (new_thrift_include_path opts) (old_thrift_include_path opts)))"

definition run_generate :: "nat \<Rightarrow> host \<Rightarrow> options \<Rightarrow> string list \<Rightarrow> unit comp" where
  "run_generate fuel h opts args =
     sbind (input_file h ''Missing file name'' args) (\<lambda>file.
     sbind (if opt_out_path opts \<noteq> []
            then slift (set_out_path (opt_out_path opts) (opt_out_path_is_absolute opts) (new_program file))
            else sret (new_program file)) (\<lambda>p.
     sbind (parse fuel h (Program (set_program_prefix (hd args) p) []) None) (\<lambda>(program, _).
     sbind (modify (\<lambda>g. g\<lparr>g_curpath := ''generation'', yylineno := 1\<rparr>)) (\<lambda>_.
     generate h (generator_strings opts @ (if namespaced_option opts then [] else [''ruby''])) program))))"

text \<open>
  \<^verbatim>\<open>main\<close>: \<open>argv\<close> without the name of the program. The result is the exit status of a
  normal return; the other ends raise \<open>Exit\<close>.
\<close>

definition compiler_main :: "nat \<Rightarrow> host \<Rightarrow> string list \<Rightarrow> int comp" where
  "compiler_main fuel h argv =
     sbind (if argv = [] then usage else sret ()) (\<lambda>_.
     sbind (modify (\<lambda>g. g\<lparr>g_curpath := ''arguments''\<rparr>)) (\<lambda>_.
     sbind (option_loop (length argv) h (no_options, argv)) (\<lambda>(opts, args).
     sbind (if single_dash (last argv) = ''-help'' then print_help h else sret ()) (\<lambda>_.
     sbind (if single_dash (last argv) = ''-version'' then sbind (version h) (\<lambda>_. sraise (Exit 0 []))
            else sret ()) (\<lambda>_.
     sbind sget (\<lambda>g.
     sbind (if g_audit g then run_audit fuel h opts args else run_generate fuel h opts args) (\<lambda>_.
     sbind sget (\<lambda>g.
     if g_return_failure g \<and> g_audit_fatal g then sraise (Exit 2 []) else sret 0))))))))"

end
