(* ===== verification/DriverProps.thy ===== *)
theory DriverProps
  imports CommandLine "HOL-Library.Sublist"
begin

text \<open>
  Correctness of the driver: the search for includes, the termination of the parse on acyclic
  includes and its divergence on a cycle, generation at most once, and the command line.
\<close>

section \<open>Search order\<close>

definition present :: "host \<Rightarrow> string \<Rightarrow> bool" where
  "present h f \<longleftrightarrow> (\<exists>rp b. realpath h f = Some rp \<and> stat h rp = Inr b)"

lemma first_existing_find: "first_existing h fs = map_option (\<lambda>f. the (realpath h f)) (find (present h) fs)"
  by (induction fs) (auto simp: present_def split: option.split sum.split)

lemma include_warns:
  "\<exists>out. sbind (print_warning l msg) (\<lambda>_. sret []) g = (Inr [], g\<lparr>printed := printed g @ out\<rparr>)"
  using sbind_only_prints [OF messages_only_print(4) [of l msg], of "\<lambda>_. sret []" g] by simp

lemma include_absolute:
  assumes "name \<noteq> [] \<and> hd name = CHR ''/''"
  shows "\<exists>out. include_file h name g =
     (Inr (case find (present h) [name] of Some f \<Rightarrow> the (realpath h f) | None \<Rightarrow> []),
      g\<lparr>printed := printed g @ out\<rparr>)"
proof (cases "present h name")
  case True
  then obtain rp b where "realpath h name = Some rp" "stat h rp = Inr b"
    by (auto simp: present_def)
  then show ?thesis
    using assms True by (simp add: include_file_def Let_def) (rule exI [of _ "[]"], simp)
next
  case False
  then have found: "find (present h) [name] = None" by simp
  show ?thesis
  proof (cases "realpath h name")
    case None
    then show ?thesis
      using assms found include_warns [of 0 "''Cannot open include file '' @ name @ nl" g]
      by (simp add: include_file_def Let_def del: find.simps)
  next
    case (Some rp)
    then obtain e where "stat h rp = Inl e"
      using False by (cases "stat h rp") (auto simp: present_def)
    then show ?thesis
      using assms found Some include_warns [of 0 "''Could not find include file '' @ name @ nl" g]
      by (simp add: include_file_def Let_def del: find.simps)
  qed
qed

lemma include_relative:
  assumes "\<not> (name \<noteq> [] \<and> hd name = CHR ''/'')"
  shows "\<exists>out. include_file h name g =
     (Inr (case find (present h) (map (\<lambda>dir. dir @ ''/'' @ name) (g_curdir g # g_incl_searchpath g)) of
             Some f \<Rightarrow> the (realpath h f) | None \<Rightarrow> []),
      g\<lparr>printed := printed g @ out\<rparr>)"
proof -
  let ?files = "map (\<lambda>dir. dir @ ''/'' @ name) (g_curdir g # g_incl_searchpath g)"
  have run: "include_file h name g = (case find (present h) ?files of
      Some f \<Rightarrow> sret (the (realpath h f)) g
    | None \<Rightarrow> sbind (print_warning 0 (''Could not find include file '' @ name @ nl)) (\<lambda>_. sret []) g)"
    unfolding include_file_def Let_def if_not_P [OF assms] sbind_sget first_existing_find
    by (cases "find (present h) ?files") simp_all
  show ?thesis
  proof (cases "find (present h) ?files")
    case None
    show ?thesis
      unfolding run None option.case by (rule include_warns)
  next
    case (Some f)
    show ?thesis
      unfolding run Some option.case by (rule exI [of _ "[]"]) simp
  qed
qed

text \<open>C31: A relative include is the file of the first directory that has it, the directory of the
including file before the search path in its order; an absolute one is looked up as it is. Nothing
found gives the empty name, at most warnings are printed and the rest of the state is untouched.\<close>

theorem include_search_order:
  "\<exists>out. include_file h name g =
     (Inr (case find (present h)
                  (if name \<noteq> [] \<and> hd name = CHR ''/'' then [name]
                   else map (\<lambda>dir. dir @ ''/'' @ name) (g_curdir g # g_incl_searchpath g)) of
             Some f \<Rightarrow> the (realpath h f) | None \<Rightarrow> []),
      g\<lparr>printed := printed g @ out\<rparr>)"
proof (cases "name \<noteq> [] \<and> hd name = CHR ''/''")
  case True
  show ?thesis
    unfolding if_P [OF True] by (rule include_absolute [OF True])
next
  case False
  show ?thesis
    unfolding if_not_P [OF False] by (rule include_relative [OF False])
qed

section \<open>Termination of the parse\<close>

text \<open>
  What the termination relies on of the generated parser: it ends, and the include pass over a
  file adds fresh programs, each below the file in an order without cycles.
\<close>

definition parser_ends :: "host \<Rightarrow> bool" where
  "parser_ends h \<longleftrightarrow> (\<forall>mode text pre st g. fst (yyparse h mode text pre st g) \<noteq> Inl Endless)"

definition acyclic_includes :: "host \<Rightarrow> (string \<Rightarrow> nat) \<Rightarrow> bool" where
  "acyclic_includes h rank \<longleftrightarrow>
     (\<forall>p f g status p' ps g'.
        fopen h (prog_path p) = Some f \<longrightarrow>
        yyparse h INCLUDES (snd (skip_utf8_bom f)) [] (Program p [], None) g = (Inr (status, (p', ps)), g') \<longrightarrow>
        (\<forall>inc \<in> set (get_includes p'). rank (prog_path (the_program inc)) < rank (prog_path p)
           \<and> get_includes inc = []))"

definition ends :: "'a comp \<Rightarrow> bool" where
  "ends m \<longleftrightarrow> (\<forall>g. fst (m g) \<noteq> Inl Endless)"

lemma ends_bind: "ends m \<Longrightarrow> (\<And>x. ends (f x)) \<Longrightarrow> ends (sbind m f)"
  unfolding ends_def sbind_def by (auto split: prod.splits sum.splits) (metis fst_conv)

lemma ends_bind_result:
  "ends m \<Longrightarrow> (\<And>x g t. m g = (Inr x, t) \<Longrightarrow> fst (f x t) \<noteq> Inl Endless) \<Longrightarrow> ends (sbind m f)"
  unfolding ends_def sbind_def by (auto split: prod.splits sum.splits) (metis fst_conv)

lemma ends_ret: "ends (sret x)"
  by (simp add: ends_def)

lemma ends_get: "(\<And>g. ends (f g)) \<Longrightarrow> ends (sbind sget f)"
  by (simp add: ends_def)

lemma ends_modify: "ends (modify f)"
  by (simp add: ends_def)

lemma ends_failure: "ends (failure msg)"
  by (simp add: ends_def failure_def)

lemma ends_prints: "only_prints m \<Longrightarrow> ends m"
  unfolding only_prints_def ends_def by (metis Inl_Inr_False fst_conv)

lemma ends_reset: "ends reset_program_doctext_info"
  unfolding reset_program_doctext_info_def
  by (intro ends_bind ends_modify ends_prints messages_only_print)

lemma ends_open_input: "ends (open_input h path)"
  unfolding open_input_def
  by (auto intro!: ends_bind ends_failure ends_ret ends_prints messages_only_print only_prints_if
      only_prints_ret split: option.split prod.split simp del: sret_apply)

lemma ends_parse_pass: "parser_ends h \<Longrightarrow> ends (parse_pass h mode text pre st)"
  unfolding ends_def
proof
  fix g
  assume ends: "parser_ends h"
  obtain r g' where run: "yyparse h mode text pre st (g\<lparr>yylineno := 1\<rparr>) = (r, g')"
    by (cases "yyparse h mode text pre st (g\<lparr>yylineno := 1\<rparr>)")
  have "r \<noteq> Inl Endless" using ends run unfolding parser_ends_def by (metis fst_conv)
  then show "fst (parse_pass h mode text pre st g) \<noteq> Inl Endless"
    by (auto simp: parse_pass_def run failure_def split: sum.split cxx_error.split prod.split)
qed

lemma parse_pass_result:
  assumes "parse_pass h mode text pre st g = (Inr x, t)"
  obtains status g' t' where "yyparse h mode text pre st g' = (Inr (status, (fst x, snd x)), t')"
proof -
  have no: "failure msg g' \<noteq> (Inr x, t)" for msg g'
    by (simp add: failure_def)
  obtain r g' where "yyparse h mode text pre st (g\<lparr>yylineno := 1\<rparr>) = (r, g')"
    by (cases "yyparse h mode text pre st (g\<lparr>yylineno := 1\<rparr>)")
  then show ?thesis
    using assms no that
    by (auto simp: parse_pass_def split: sum.splits cxx_error.splits prod.splits if_splits)
qed

lemma open_input_result:
  assumes "open_input h path g = (Inr text, t)"
  obtains f where "fopen h path = Some f" "text = snd (skip_utf8_bom f)"
proof (cases "fopen h path")
  case None
  then show ?thesis using assms by (simp add: open_input_def failure_def)
next
  case (Some f)
  then have "text = snd (skip_utf8_bom f)"
    using assms by (auto simp: open_input_def sexn_simps split: prod.splits)
  then show ?thesis using that Some by blast
qed

lemma ends_sfold:
  "(\<And>x b. x \<in> set xs \<Longrightarrow> ends (f x b)) \<Longrightarrow> ends (sfold f xs b)"
  by (induction xs arbitrary: b) (auto intro!: ends_bind ends_ret simp del: sret_apply)

lemma ends_parse:
  assumes "parser_ends h" "acyclic_includes h rank"
  shows "rank (prog_path (the_program p)) < fuel \<Longrightarrow> get_includes p = [] \<Longrightarrow> ends (parse fuel h p parent)"
proof (induction fuel arbitrary: p parent)
  case 0
  then show ?case by simp
next
  case (Suc fuel)
  let ?path = "prog_path (the_program p)"
  let ?step = "\<lambda>inc (scope, done). sbind (parse fuel h inc (Some (?path, scope))) (\<lambda>(inc, scope').
               sret (the scope', done @ [inc]))"
  let ?rest = "\<lambda>(program, _). sbind (sfold ?step (get_includes program) (prog_scope (the_program program), []))
      (\<lambda>(scope, incs).
      sbind (modify (\<lambda>g. g\<lparr>program_to_scope := omap_insert ?path scope (program_to_scope g)\<rparr>)) (\<lambda>_.
      sret (Program (with_scope scope (the_program program)) incs)))"
  have rest: "ends (?rest (q, ps))"
    if "\<And>inc. inc \<in> set (get_includes q) \<Longrightarrow>
          rank (prog_path (the_program inc)) < rank ?path \<and> get_includes inc = []" for q ps
  proof -
    have "ends (?step inc b)" if inc: "inc \<in> set (get_includes q)" for inc b
    proof -
      have "rank (prog_path (the_program inc)) < fuel" "get_includes inc = []"
        using \<open>\<And>inc. inc \<in> set (get_includes q) \<Longrightarrow> _\<close> [OF inc] Suc.prems by auto
      then show ?thesis
        using Suc.IH by (cases b) (auto intro!: ends_bind ends_ret simp del: sret_apply)
    qed
    then have "ends (sfold ?step (get_includes q) (prog_scope (the_program q), []))"
      by (rule ends_sfold)
    then show ?thesis
      by (auto intro!: ends_bind ends_modify ends_ret simp del: sret_apply)
  qed
  have pass: "ends (sbind (parse_pass h INCLUDES contents [] (p, None)) ?rest)"
    if src: "fopen h ?path = Some f" "contents = snd (skip_utf8_bom f)" for contents f
  proof (rule ends_bind_result [OF ends_parse_pass [OF assms(1)]])
    fix x g t
    assume "parse_pass h INCLUDES contents [] (p, None) g = (Inr x, t)"
    then obtain status g' t' where
      run: "yyparse h INCLUDES contents [] (p, None) g' = (Inr (status, (fst x, snd x)), t')"
      by (rule parse_pass_result)
    have "p = Program (the_program p) []" using Suc.prems(2) by (cases p) simp
    then have "ends (?rest (fst x, snd x))"
      using assms(2) src run unfolding acyclic_includes_def by (intro rest) metis
    then show "fst (?rest x t) \<noteq> Inl Endless" unfolding ends_def by (cases x) simp
  qed
  have scan: "ends (sbind (open_input h ?path) (\<lambda>contents.
      sbind (pverbose (''Scanning includes from '' @ ?path @ '' '' @ nl)) (\<lambda>_.
      sbind (parse_pass h INCLUDES contents [] (p, None)) ?rest)))"
  proof (rule ends_bind_result [OF ends_open_input])
    fix contents g t
    assume "open_input h ?path g = (Inr contents, t)"
    then obtain f where "fopen h ?path = Some f" "contents = snd (skip_utf8_bom f)"
      by (rule open_input_result)
    then have "ends (sbind (pverbose (''Scanning includes from '' @ ?path @ '' '' @ nl)) (\<lambda>_.
        sbind (parse_pass h INCLUDES contents [] (p, None)) ?rest))"
      by (intro ends_bind [OF ends_prints [OF messages_only_print(3)]] pass)
    then show "fst (sbind (pverbose (''Scanning includes from '' @ ?path @ '' '' @ nl)) (\<lambda>_.
        sbind (parse_pass h INCLUDES contents [] (p, None)) ?rest) t) \<noteq> Inl Endless"
      unfolding ends_def by blast
  qed
  have first: "ends (case omap_find (program_to_scope g) ?path of
      None \<Rightarrow> sbind (modify (\<lambda>g. g\<lparr>g_curdir := directory_name ?path, g_curpath := ?path\<rparr>)) (\<lambda>_.
        sbind (open_input h ?path) (\<lambda>contents.
        sbind (pverbose (''Scanning includes from '' @ ?path @ '' '' @ nl)) (\<lambda>_.
        sbind (parse_pass h INCLUDES contents [] (p, None)) ?rest)))
    | Some scope \<Rightarrow>
        sbind (pverbose (''Skipping recursion for parsed program '' @ ?path @ nl)) (\<lambda>_.
        sret (Program (with_scope scope (the_program p)) (get_includes p))))" for g
    by (cases "omap_find (program_to_scope g) ?path")
       (simp_all only: option.case ends_bind [OF ends_modify scan]
          ends_bind [OF ends_prints [OF messages_only_print(3)] ends_ret])
  show ?case
    unfolding parse.simps Let_def
    by (intro ends_get ends_bind first ends_reset ends_modify ends_open_input ends_prints
        messages_only_print ends_parse_pass assms)
qed


text \<open>
  A host for the witnesses: the text of a file is the path it includes, or empty.
\<close>

definition toy_yyparse ::
  "PARSE_MODE \<Rightarrow> string \<Rightarrow> string \<Rightarrow> program \<times> t_scope option \<Rightarrow> (int \<times> program \<times> t_scope option) comp" where
  "toy_yyparse mode contents pre st =
     sret (0, if mode = INCLUDES \<and> contents \<noteq> [] then add_include contents contents (fst st) else fst st, snd st)"

definition toy_host :: "(string \<Rightarrow> string option) \<Rightarrow> host" where
  "toy_host files =
     \<lparr>realpath = Some, stat = (\<lambda>_. Inr False), fopen = files, yyparse = toy_yyparse,
      get_generator = (\<lambda>p gen. Inr (Some (Inr (), [(gen @ ''/'' @ prog_name (the_program p), [])]))),
      generator_docs = [], THRIFT_VERSION = ''1.0''\<rparr>"

lemmas toy_defs = toy_host_def toy_yyparse_def


section \<open>A cycle of includes\<close>

lemma open_input_prints:
  assumes "fopen h path = Some f"
  shows "\<exists>out. open_input h path g = (Inr (snd (skip_utf8_bom f)), g\<lparr>printed := printed g @ out\<rparr>)"
proof (cases "skip_utf8_bom f")
  case (Pair bom contents)
  have ret: "only_prints (if bom then pverbose (''Skipped UTF-8 BOM at '' @ path @ nl) else sret ())"
    by (intro only_prints_if messages_only_print only_prints_ret)
  show ?thesis
    using sbind_only_prints [OF ret, of "\<lambda>_. sret contents" g]
    unfolding open_input_def assms option.case Pair prod.case by simp
qed

text \<open>The include pass over the file finds an include of the file itself first.\<close>

definition includes_itself :: "host \<Rightarrow> string \<Rightarrow> string \<Rightarrow> bool" where
  "includes_itself h path f \<longleftrightarrow>
     (\<forall>p g. prog_path p = path \<longrightarrow>
        (\<exists>p' q incs ps g'. yyparse h INCLUDES (snd (skip_utf8_bom f)) [] (Program p [], None) g
             = (Inr (0, (Program p' (Program q [] # incs), ps)), g')
           \<and> prog_path q = path \<and> program_to_scope g' = program_to_scope g))"

lemma cyclic_parse:
  assumes src: "fopen h path = Some f" and self: "includes_itself h path f"
  shows "prog_path p = path \<Longrightarrow> omap_find (program_to_scope g) path = None \<Longrightarrow>
    fst (parse fuel h (Program p []) parent g) = Inl Endless"
proof (induction fuel arbitrary: p parent g)
  case 0
  show ?case by (simp add: parse.simps)
next
  case (Suc fuel)
  let ?g1 = "g\<lparr>g_curdir := directory_name path, g_curpath := path\<rparr>"
  obtain g2 where opened: "open_input h path ?g1 = (Inr (snd (skip_utf8_bom f)), g2)"
    and g2: "program_to_scope g2 = program_to_scope g"
    using open_input_prints [OF src, of ?g1] by auto
  obtain g3 where scanning: "pverbose (''Scanning includes from '' @ path @ '' '' @ nl) g2 = (Inr (), g3)"
    and g3: "program_to_scope g3 = program_to_scope g"
  proof -
    obtain out where "pverbose (''Scanning includes from '' @ path @ '' '' @ nl) g2
        = (Inr (), g2\<lparr>printed := printed g2 @ out\<rparr>)"
      using messages_only_print(3) unfolding only_prints_def by blast
    from that [OF this] show ?thesis using g2 by simp
  qed
  obtain p' q incs ps g4 where run:
      "yyparse h INCLUDES (snd (skip_utf8_bom f)) [] (Program p [], None) (g3\<lparr>yylineno := 1\<rparr>)
         = (Inr (0, (Program p' (Program q [] # incs), ps)), g4)"
    and q: "prog_path q = path" and g4: "program_to_scope g4 = program_to_scope g"
    using self Suc.prems(1) g3 unfolding includes_itself_def by fastforce
  have pass: "parse_pass h INCLUDES (snd (skip_utf8_bom f)) [] (Program p [], None) g3
      = (Inr (Program p' (Program q [] # incs), ps), g4)"
    by (simp add: parse_pass_def run)
  have "fst (parse fuel h (Program q []) (Some (path, prog_scope p')) g4) = Inl Endless"
    using q g4 Suc.prems(2) by (intro Suc.IH) simp_all
  then obtain t where again: "parse fuel h (Program q []) (Some (path, prog_scope p')) g4 = (Inl Endless, t)"
    by (metis prod.collapse)
  have "parse (Suc fuel) h (Program p []) parent g = (Inl Endless, t)"
    unfolding parse.simps Let_def program.sel sbind_sget Suc.prems option.case
    by (rule sbind_raises, simp only: sbind_modify, rule sbind_then, rule opened,
        rule sbind_then, rule scanning, rule sbind_then, rule pass)
       (simp add: sbind_raises again)
  then show ?case by simp
qed



section \<open>Generation\<close>

fun tree_paths :: "program \<Rightarrow> string set" where
  "tree_paths (Program p incs) = insert (prog_path p) (\<Union>inc \<in> set incs. tree_paths inc)"

lemma tree_paths_same_path:
  "prog_path q = prog_path (the_program inc) \<Longrightarrow> tree_paths (Program q (get_includes inc)) = tree_paths inc"
  by (cases inc) simp

lemma set_out_path_keeps: "set_out_path out absolute p = Inr q \<Longrightarrow> prog_path q = prog_path p"
  by (auto simp: set_out_path_def split: if_splits)

lemma catch_and_print_state:
  "m g = (r, t) \<Longrightarrow> gen_recurse (snd (catch_and_print m g)) = gen_recurse t
     \<and> generated_files (snd (catch_and_print m g)) = generated_files t"
  by (simp add: catch_and_print_def split: sum.split cxx_error.split)

text \<open>What a step of the generation may do to the record of generated files.\<close>

definition generates_within :: "string set \<Rightarrow> 'a comp \<Rightarrow> bool" where
  "generates_within paths m \<longleftrightarrow> (\<forall>g. gen_recurse (snd (m g)) = gen_recurse g
     \<and> set (generated_files g) \<subseteq> set (generated_files (snd (m g)))
     \<and> set (generated_files (snd (m g))) \<subseteq> set (generated_files g) \<union> paths)"

lemma within_ret: "generates_within S (sret x)" "generates_within S (slift r)"
  by (simp_all add: generates_within_def)

lemma within_get: "(\<And>g. generates_within S (f g)) \<Longrightarrow> generates_within S (sbind sget f)"
  by (simp add: generates_within_def)

lemma within_prints:
  assumes "only_prints m"
  shows "generates_within S m"
  unfolding generates_within_def
proof
  fix g
  obtain out where "m g = (Inr (), g\<lparr>printed := printed g @ out\<rparr>)"
    using assms unfolding only_prints_def by blast
  then show "gen_recurse (snd (m g)) = gen_recurse g
     \<and> set (generated_files g) \<subseteq> set (generated_files (snd (m g)))
     \<and> set (generated_files (snd (m g))) \<subseteq> set (generated_files g) \<union> S"
    by simp
qed

lemmas within_messages = messages_only_print [THEN within_prints]

lemma within_bind:
  assumes "generates_within S m" "\<And>x. generates_within S (f x)"
  shows "generates_within S (sbind m f)"
  unfolding generates_within_def
proof
  fix g
  obtain r t where m: "m g = (r, t)" by (cases "m g")
  have 1: "gen_recurse t = gen_recurse g" "set (generated_files g) \<subseteq> set (generated_files t)"
    "set (generated_files t) \<subseteq> set (generated_files g) \<union> S"
    using assms(1) m unfolding generates_within_def by (metis snd_conv)+
  show "gen_recurse (snd (sbind m f g)) = gen_recurse g
     \<and> set (generated_files g) \<subseteq> set (generated_files (snd (sbind m f g)))
     \<and> set (generated_files (snd (sbind m f g))) \<subseteq> set (generated_files g) \<union> S"
  proof (cases r)
    case (Inl e)
    then show ?thesis using m 1 by (simp add: sbind_raises)
  next
    case (Inr x)
    have "gen_recurse (snd (f x t)) = gen_recurse t"
      "set (generated_files t) \<subseteq> set (generated_files (snd (f x t)))"
      "set (generated_files (snd (f x t))) \<subseteq> set (generated_files t) \<union> S"
      using assms(2) [of x] unfolding generates_within_def by blast+
    then show ?thesis using m Inr 1 by (simp add: sbind_returns) blast
  qed
qed

lemma within_if: "generates_within S m \<Longrightarrow> generates_within S n \<Longrightarrow> generates_within S (if c then m else n)"
  by simp

lemma within_mono: "generates_within S m \<Longrightarrow> S \<subseteq> T \<Longrightarrow> generates_within T m"
  unfolding generates_within_def by blast

lemma within_sfor:
  "(\<And>x. x \<in> set xs \<Longrightarrow> generates_within S (f x)) \<Longrightarrow> generates_within S (sfor f xs)"
  by (induction xs) (auto intro!: within_bind within_ret simp del: sret_apply)

lemma within_modify:
  "(\<And>g. gen_recurse (f g) = gen_recurse g \<and> set (generated_files g) \<subseteq> set (generated_files (f g))
      \<and> set (generated_files (f g)) \<subseteq> set (generated_files g) \<union> S) \<Longrightarrow> generates_within S (modify f)"
  by (simp add: generates_within_def)

lemma within_catch: "generates_within S m \<Longrightarrow> generates_within S (catch_and_print m)"
  unfolding generates_within_def
proof
  fix g
  assume "\<forall>g. gen_recurse (snd (m g)) = gen_recurse g
     \<and> set (generated_files g) \<subseteq> set (generated_files (snd (m g)))
     \<and> set (generated_files (snd (m g))) \<subseteq> set (generated_files g) \<union> S"
  moreover obtain r t where "m g = (r, t)" by (cases "m g")
  ultimately show "gen_recurse (snd (catch_and_print m g)) = gen_recurse g
     \<and> set (generated_files g) \<subseteq> set (generated_files (snd (catch_and_print m g)))
     \<and> set (generated_files (snd (catch_and_print m g))) \<subseteq> set (generated_files g) \<union> S"
    by (metis (no_types, lifting) catch_and_print_state snd_conv)
qed

lemma within_generate_one: "generates_within S (generate_one h p gen)"
  unfolding generate_one_def
  by (auto intro!: within_bind within_ret within_messages within_modify
      split: option.split prod.split)

lemma generate_within: "generates_within (tree_paths p) (generate h gens p)"
proof (induction h gens p rule: generate.induct)
  case (1 h gens p incs)
  let ?S = "tree_paths (Program p incs)"
  have inc: "generates_within ?S (sbind (slift (set_out_path (out_path p) (out_path_is_absolute p) (the_program inc)))
      (\<lambda>q. generate h gens (Program q (get_includes inc))))" if "inc \<in> set incs" for inc
  proof (cases "set_out_path (out_path p) (out_path_is_absolute p) (the_program inc)")
    case (Inl e)
    then show ?thesis by (auto simp: generates_within_def)
  next
    case (Inr q)
    have "tree_paths (Program q (get_includes inc)) \<subseteq> ?S"
      using tree_paths_same_path [OF set_out_path_keeps [OF Inr]] that by auto
    moreover have "generates_within (tree_paths (Program q (get_includes inc)))
        (generate h gens (Program q (get_includes inc)))"
      by (rule "1.IH" [of "initial_globals\<lparr>gen_recurse := True\<rparr>"]) (simp_all add: initial_globals_def that)
    ultimately show ?thesis
      unfolding Inr sbind_unit_fun by (rule within_mono [rotated])
  qed
  have own: "generates_within ?S (modify (\<lambda>g. g\<lparr>generated_files := List.insert (prog_path p) (generated_files g)\<rparr>))"
    by (rule within_modify) auto
  note loops = within_sfor [OF inc] within_sfor [OF within_generate_one]
  show ?case
    by (subst generate.simps)
       (intro within_get within_if within_bind loops within_messages within_catch own within_ret)
qed

text \<open>C32: Generation records exactly what it is run on: the program's own path always, beside it only
paths of its tree of includes, and it forgets none. A program that is recorded is not generated again:
the second run writes no file and only prints.\<close>

theorem generated_at_most_once:
  assumes "generate h gens (Program p incs) g = (Inr (), t)"
  shows "prog_path p \<in> set (generated_files t)
     \<and> set (generated_files g) \<subseteq> set (generated_files t)
     \<and> set (generated_files t) \<subseteq> set (generated_files g) \<union> tree_paths (Program p incs)
     \<and> (\<exists>out. generate h gens' (Program p incs') t = (Inr (), t\<lparr>printed := printed t @ out\<rparr>))"
proof -
  have own: "prog_path p \<in> set (generated_files t)"
  proof (cases "prog_path p \<in> set (generated_files g)")
    case True
    then show ?thesis
      using generate_within [of "Program p incs" h gens] assms unfolding generates_within_def
      by (metis snd_conv subsetD)
  next
    case False
    then show ?thesis
      using assms [unfolded generate.simps [of h gens p incs] sbind_sget if_not_P [OF False]]
      by (auto simp: sexn_simps)
  qed
  moreover have "\<exists>out. generate h gens' (Program p incs') t = (Inr (), t\<lparr>printed := printed t @ out\<rparr>)"
    using own messages_only_print(3) [of "''Skipping an already generated file '' @ prog_path p @ nl"]
    by (subst generate.simps) (simp add: only_prints_def)
  ultimately show ?thesis
    using generate_within [of "Program p incs" h gens] assms unfolding generates_within_def
    by (metis snd_conv)
qed

definition generated_once :: globals where
  "generated_once = snd (generate (toy_host (\<lambda>_. None)) [''ruby''] (Program (new_program ''/a'') []) initial_globals)"

theorem generated_at_most_once_witness:
  "prog_path (new_program ''/a'') \<in> set (generated_files generated_once)
     \<and> set (generated_files initial_globals) \<subseteq> set (generated_files generated_once)
     \<and> set (generated_files generated_once)
         \<subseteq> set (generated_files initial_globals) \<union> tree_paths (Program (new_program ''/a'') [])
     \<and> (\<exists>out. generate (toy_host (\<lambda>_. None)) [''ruby'', ''ruby:namespaced''] (Program (new_program ''/a'') []) generated_once
          = (Inr (), generated_once\<lparr>printed := printed generated_once @ out\<rparr>))"
proof (rule generated_at_most_once)
  show "generate (toy_host (\<lambda>_. None)) [''ruby''] (Program (new_program ''/a'') []) initial_globals
      = (Inr (), generated_once)"
    unfolding generated_once_def
    by (subst (1 2) generate.simps)
       (simp add: initial_globals_def generate_one_def toy_defs pverbose_def catch_and_print_def sbind_def)
qed

section \<open>The command line\<close>

text \<open>
  The options take arguments off the front and never past the end: each leaves a suffix of the
  arguments it was given, and a non-empty one.
\<close>

definition leaves_suffix :: "string list \<Rightarrow> (options \<times> string list) comp \<Rightarrow> bool" where
  "leaves_suffix args m \<longleftrightarrow> (\<forall>g o' a t. m g = (Inr (o', a), t) \<longrightarrow> suffix a args \<and> a \<noteq> [])"

lemma leaves_ret: "args \<noteq> [] \<Longrightarrow> leaves_suffix args (sret (opts, args))"
  by (simp add: leaves_suffix_def)

lemma leaves_bind: "(\<And>x. leaves_suffix args (f x)) \<Longrightarrow> leaves_suffix args (sbind m f)"
  unfolding leaves_suffix_def sbind_eq_Inr by blast

lemma leaves_if: "leaves_suffix args m \<Longrightarrow> leaves_suffix args n \<Longrightarrow> leaves_suffix args (if c then m else n)"
  by simp

lemma leaves_never: "(\<And>g. \<exists>e. fst (m g) = Inl e) \<Longrightarrow> leaves_suffix args m"
  unfolding leaves_suffix_def by (metis Inl_Inr_False fst_conv)

lemma exits: "\<exists>e. fst (usage g) = Inl e" "\<exists>e. fst (print_help h g) = Inl e" "\<exists>e. fst (failure msg g) = Inl e"
  "\<exists>e. fst (sraise x g) = Inl e"
proof -
  show "\<exists>e. fst (usage g) = Inl e" "\<exists>e. fst (failure msg g) = Inl e" "\<exists>e. fst (sraise x g) = Inl e"
    by (simp_all add: usage_def failure_def)
  show "\<exists>e. fst (print_help h g) = Inl e"
    unfolding print_help_def by (auto simp: sbind_def split: prod.split sum.split)
qed

lemmas leaves_exit = exits [THEN leaves_never]

lemma next_arg_result:
  assumes "next_arg missing args g = (Inr (arg, rest), t)"
  shows "suffix rest args \<and> rest \<noteq> []"
proof (cases "tl args")
  case Nil
  obtain e where "fst (usage (g\<lparr>printed := printed g @ [(Stderr, missing @ nl)]\<rparr>)) = (Inl e :: cxx_error + string \<times> string list)"
    using exits(1) by blast
  then show ?thesis using assms Nil by (simp add: next_arg_def)
next
  case (Cons x xs)
  then have "rest = tl args" using assms by (auto simp: next_arg_def)
  then show ?thesis using Cons by (metis list.distinct(1) suffix_tl)
qed

lemma leaves_next_arg:
  assumes "\<And>arg rest. suffix rest args \<Longrightarrow> rest \<noteq> [] \<Longrightarrow> leaves_suffix rest (f (arg, rest))"
  shows "leaves_suffix args (sbind (next_arg missing args) f)"
  unfolding leaves_suffix_def
proof (intro allI impI)
  fix g o' a t
  assume "sbind (next_arg missing args) f g = (Inr (o', a), t)"
  then obtain arg rest u where n: "next_arg missing args g = (Inr (arg, rest), u)"
    and f: "f (arg, rest) u = (Inr (o', a), t)"
    by (auto simp: sbind_eq_Inr)
  have rest: "suffix rest args" "rest \<noteq> []" using next_arg_result [OF n] by auto
  then have "suffix a rest \<and> a \<noteq> []"
    using assms [OF rest, of arg] f unfolding leaves_suffix_def by blast
  then show "suffix a args \<and> a \<noteq> []" using rest suffix_order.trans by blast
qed

lemma do_option_leaves: "args \<noteq> [] \<Longrightarrow> leaves_suffix args (do_option h tok (opts, args))"
  unfolding do_option_def Let_def prod.case
  by (intro leaves_if leaves_bind leaves_exit leaves_ret leaves_next_arg)
     (auto intro!: leaves_bind leaves_ret leaves_if leaves_exit leaves_next_arg split: option.split)

lemma options_leave: "args \<noteq> [] \<Longrightarrow> leaves_suffix args (sfold (do_option h) toks (opts, args))"
proof (induction toks arbitrary: opts args)
  case Nil
  then show ?case using leaves_ret by (simp del: sret_apply)
next
  case (Cons tok toks)
  show ?case
    unfolding leaves_suffix_def
  proof (intro allI impI)
    fix g o' a t
    assume "sfold (do_option h) (tok # toks) (opts, args) g = (Inr (o', a), t)"
    then obtain opts' args' u where one: "do_option h tok (opts, args) g = (Inr (opts', args'), u)"
      and rest: "sfold (do_option h) toks (opts', args') u = (Inr (o', a), t)"
      by (auto simp: sbind_eq_Inr)
    have args': "suffix args' args" "args' \<noteq> []"
      using do_option_leaves [OF Cons.prems] one unfolding leaves_suffix_def by blast+
    have "suffix a args' \<and> a \<noteq> []"
      using Cons.IH [OF args'(2)] rest unfolding leaves_suffix_def by blast
    then show "suffix a args \<and> a \<noteq> []" using args' suffix_order.trans by blast
  qed
qed

lemma option_loop_leaves:
  "length args \<le> n \<Longrightarrow> option_loop n h (opts, args) g = (Inr (opts', args'), t) \<Longrightarrow>
     suffix args' args \<and> length args' \<le> 1"
proof (induction n arbitrary: opts args g)
  case 0
  then show ?case by simp
next
  case (Suc n)
  show ?case
  proof (cases "length args \<le> 1")
    case True
    then show ?thesis using Suc.prems by simp
  next
    case False
    then obtain o2 a2 u where one: "sfold (do_option h) (tokens (hd args)) (opts, args) g = (Inr (o2, a2), u)"
      and rest: "option_loop n h (o2, tl a2) u = (Inr (opts', args'), t)"
      using Suc.prems(2) by (auto simp: sbind_eq_Inr)
    have "args \<noteq> []" using False by auto
    then have a2: "suffix a2 args" "a2 \<noteq> []"
      using options_leave one unfolding leaves_suffix_def by blast+
    then have "length (tl a2) \<le> n"
      using Suc.prems(1) suffix_length_le [OF a2(1)] by (cases a2) auto
    then have "suffix args' (tl a2) \<and> length args' \<le> 1" using Suc.IH rest by blast
    then show ?thesis using a2 suffix_order.trans suffix_tl by metis
  qed
qed

text \<open>The option loop reads all arguments but the last: when it returns, what is left for the input
file is the last argument, or nothing when an option has taken that as its own argument. The fuel,
the number of arguments, never ends the loop early.\<close>

lemma option_loop_leaves_last:
  assumes "option_loop (length argv) h (opts, argv) g = (Inr (opts', args), t)" "argv \<noteq> []"
  shows "args = [] \<or> args = [last argv]"
proof -
  have "suffix args argv" "length args \<le> 1"
    using option_loop_leaves [OF _ assms(1)] by auto
  then show ?thesis using assms(2) by (cases args) (auto simp: suffix_def)
qed

end
