(* ===== verification/RubyStream.thy ===== *)
theory RubyStream
  imports GenBase Doubles
begin

unbundle bit_operations_syntax

text \<open>
  The output stream of the Ruby generator, \<^verbatim>\<open>t_ruby_ofstream\<close>: a file that keeps its own
  level of indentation. A function that writes to a stream is a computation over it; an
  exception leaves what was written before. The formatting of doubles is that of
  \<^verbatim>\<open>ostream\<close> with its default precision.
\<close>

section \<open>The indenting stream\<close>

text \<open>\<open>console\<close> is what \<^verbatim>\<open>printf\<close> prints while the stream is written.\<close>

record t_ruby_ofstream =
  contents :: string
  ofs_indent :: int
  console :: string

definition new_ofstream :: t_ruby_ofstream where
  "new_ofstream = \<lparr>contents = [], ofs_indent = 0, console = []\<rparr>"

type_synonym 'a emit = "(t_ruby_ofstream, cxx_error, 'a) sexn"

definition out_str :: "string \<Rightarrow> unit emit" where
  "out_str str = (\<lambda>out. (Inr (), out\<lparr>contents := contents out @ str\<rparr>))"

definition out_indent :: "unit emit" where
  "out_indent = (\<lambda>out. out_str (indentation (ofs_indent out)) out)"

definition out_indent_up :: "unit emit" where
  "out_indent_up = (\<lambda>out. (Inr (), out\<lparr>ofs_indent := ofs_indent out + 1\<rparr>))"

definition out_indent_down :: "unit emit" where
  "out_indent_down = (\<lambda>out. (Inr (), out\<lparr>ofs_indent := ofs_indent out - 1\<rparr>))"

definition out_printf :: "string \<Rightarrow> unit emit" where
  "out_printf str = (\<lambda>out. (Inr (), out\<lparr>console := console out @ str\<rparr>))"

text \<open>\<^verbatim>\<open>out.indent() << ...\<close>, without and with the end of the line.\<close>

definition put :: "string \<Rightarrow> unit emit" where
  "put str = sbind out_indent (\<lambda>_. out_str str)"

definition putl :: "string \<Rightarrow> unit emit" where
  "putl str = put (str @ nl)"

text \<open>A sequence of computations, as the statements of a block.\<close>

definition block :: "unit emit list \<Rightarrow> unit emit" where
  "block ms = sfor (\<lambda>m. m) ms"

section \<open>Doubles\<close>

text \<open>
  \<^verbatim>\<open>out << d\<close> is the conversion \<^verbatim>\<open>%g\<close> with six significant digits: the exact value
  \<open>n / d\<close> of the double is rounded to the nearest decimal, ties to even, and trailing zeros
  are dropped.
\<close>

text \<open>How often a value below one is multiplied by ten to reach one.\<close>

function scale_up :: "nat \<Rightarrow> nat \<Rightarrow> nat" where
  "scale_up n d = (if n = 0 \<or> d \<le> n then 0 else Suc (scale_up (10 * n) d))"
  by pat_completeness auto
termination
  by (relation "measure (\<lambda>(n, d). d - n)") auto

declare scale_up.simps [simp del]

definition decimal_exponent :: "nat \<Rightarrow> nat \<Rightarrow> int" where
  "decimal_exponent n d =
     (if d \<le> n then int (length (show_nat (n div d))) - 1 else - int (scale_up n d))"

definition strip_zeros :: "string \<Rightarrow> string" where
  "strip_zeros s = rev (dropWhile (\<lambda>c. c = CHR ''0'') (rev s))"

definition fraction :: "string \<Rightarrow> string" where
  "fraction s = (if strip_zeros s = [] then [] else CHR ''.'' # strip_zeros s)"

definition show_decimal :: "nat \<Rightarrow> nat \<Rightarrow> string" where
  "show_decimal n d =
     (let x0 = decimal_exponent n d;
          r0 = round_half_even (n * 10 ^ nat (5 - x0)) (d * 10 ^ nat (x0 - 5));
          (r, x) = (if r0 = 10 ^ 6 then (10 ^ 5, x0 + 1) else (r0, x0));
          digits = show_nat r in
      if x < -4 \<or> 6 \<le> x then
        take 1 digits @ fraction (drop 1 digits) @ ''e'' @ (if x < 0 then ''-'' else ''+'')
        @ (if \<bar>x\<bar> < 10 then ''0'' else []) @ show_nat (nat \<bar>x\<bar>)
      else if 0 \<le> x then take (nat x + 1) digits @ fraction (drop (nat x + 1) digits)
      else ''0.'' @ replicate (nat (- x - 1)) (CHR ''0'') @ strip_zeros digits)"

definition show_double :: "64 word \<Rightarrow> string" where
  "show_double w =
     (if bit w 63 then ''-'' else []) @
     (let e = unat (drop_bit 52 w AND 0x7FF); f = unat (w AND mask 52) in
      if e = 0x7FF then (if f = 0 then ''inf'' else ''nan'')
      else if e = 0 \<and> f = 0 then ''0''
      else (case double_value w of (n, d) \<Rightarrow> show_decimal n d))"

end
