(* ===== verification/RubyGen.thy ===== *)
theory RubyGen
  imports RubyStream
begin

text \<open>
  The Ruby generator (\<^verbatim>\<open>generate/t_ruby_generator.cc\<close>): the two files of a program with
  their names and directories, and the text of modules, enums, constants and structs. The
  accessors, readers and writers that the class still has but does not call are in
  \<open>RubyGenRW\<close>.
\<close>

section \<open>The environment\<close>

text \<open>
  What the pointers of the parse tree lead to: the programs under their paths, whose scopes
  complete forward typedefs, and the fuel for the recursion on types; and the version, a macro
  of the build.
\<close>

record gen_env =
  env_programs :: programs
  env_fuel :: nat
  env_version :: string

definition env_scopes :: "gen_env \<Rightarrow> type_scopes" where
  "env_scopes env path name =
     (case env_programs env path of
        None \<Rightarrow> None
      | Some p \<Rightarrow> (case omap_find (sc_types (prog_scope p)) name of Some (Some t) \<Rightarrow> Some t | _ \<Rightarrow> None))"

definition true_type :: "gen_env \<Rightarrow> t_type \<Rightarrow> cxx_error + t_type" where
  "true_type env ty = get_true_type (env_fuel env) (env_scopes env) ty"

definition type_namespace :: "gen_env \<Rightarrow> t_type \<Rightarrow> cxx_error + string" where
  "type_namespace env ty =
     (case Option.bind (get_program ty) (env_programs env) of
        None \<Rightarrow> Inl Undefined | Some p \<Rightarrow> Inr (get_namespace p ''rb''))"

section \<open>Namespaces and names\<close>

text \<open>\<^verbatim>\<open>ruby_modules\<close>, given the namespace; the loop runs on after a last dot.\<close>

function module_names :: "string \<Rightarrow> string list" where
  "module_names ns =
     (case str_find CHR ''.'' ns of
        None \<Rightarrow> [capitalize ns]
      | Some j \<Rightarrow> capitalize (take j ns) # module_names (drop (Suc j) ns))"
  by pat_completeness auto
termination
  by (relation "measure length") (auto dest: str_find_Some)

declare module_names.simps [simp del]

definition ruby_modules :: "string \<Rightarrow> string list" where
  "ruby_modules ns = (if ns = [] then [] else module_names ns)"

function rb_namespace_to_path_prefix :: "string \<Rightarrow> string" where
  "rb_namespace_to_path_prefix namespaces_left =
     (case str_find CHR ''.'' namespaces_left of
        Some loc \<Rightarrow> underscore (substr namespaces_left 0 (Some loc)) @ ''/''
          @ rb_namespace_to_path_prefix (substr namespaces_left (Suc loc) None)
      | None \<Rightarrow> if namespaces_left = [] then [] else underscore namespaces_left @ ''/'')"
  by pat_completeness auto
termination
  by (relation "measure length") (auto dest: str_find_Some simp: substr_def)

declare rb_namespace_to_path_prefix.simps [simp del]

definition type_name :: "t_type \<Rightarrow> string" where
  "type_name ty =
     (if is_struct ty \<or> is_xception ty \<or> is_enum ty then capitalize (get_name ty) else get_name ty)"

definition full_type_name :: "gen_env \<Rightarrow> t_type \<Rightarrow> cxx_error + string" where
  "full_type_name env ty =
     rbind (type_namespace env ty) (\<lambda>ns.
     Inr (''::'' @ concat (map (\<lambda>m. m @ ''::'') (ruby_modules ns)) @ type_name ty))"

fun base_to_enum :: "t_base \<Rightarrow> cxx_error + string" where
  "base_to_enum TYPE_VOID = Inl (ThrowCString ''NO T_VOID CONSTRUCT'')"
| "base_to_enum TYPE_STRING = Inr ''::Sparsam::Types::STRING''"
| "base_to_enum TYPE_BOOL = Inr ''::Sparsam::Types::BOOL''"
| "base_to_enum TYPE_BYTE = Inr ''::Sparsam::Types::BYTE''"
| "base_to_enum TYPE_I16 = Inr ''::Sparsam::Types::I16''"
| "base_to_enum TYPE_I32 = Inr ''::Sparsam::Types::I32''"
| "base_to_enum TYPE_I64 = Inr ''::Sparsam::Types::I64''"
| "base_to_enum TYPE_DOUBLE = Inr ''::Sparsam::Types::DOUBLE''"

definition type_to_enum :: "gen_env \<Rightarrow> t_type \<Rightarrow> cxx_error + string" where
  "type_to_enum env ty =
     rbind (true_type env ty) (\<lambda>ty.
     case ty of
       t_base_type n b bin sl \<Rightarrow> base_to_enum b
     | t_enum_type e \<Rightarrow> Inr ''::Sparsam::Types::I32''
     | t_struct_type s \<Rightarrow> Inr ''::Sparsam::Types::STRUCT''
     | t_map k v \<Rightarrow> Inr ''::Sparsam::Types::MAP''
     | t_set e \<Rightarrow> Inr ''::Sparsam::Types::SET''
     | t_list e \<Rightarrow> Inr ''::Sparsam::Types::LIST''
     | _ \<Rightarrow> Inl (Throw (''INVALID TYPE IN type_to_enum: '' @ get_name ty)))"

section \<open>Constant values\<close>

text \<open>The integer that a value stands for, then its text.\<close>

definition out_integer :: "(int \<Rightarrow> string) \<Rightarrow> t_const_value \<Rightarrow> unit emit" where
  "out_integer show_it value = sbind (slift (get_integer value)) (\<lambda>i. out_str (show_it i))"

definition render_base :: "t_base \<Rightarrow> t_const_value \<Rightarrow> unit emit" where
  "render_base tbase value =
     (case tbase of
        TYPE_STRING \<Rightarrow> out_str (''%q'' @ dq @ get_escaped_string value @ dq)
      | TYPE_BOOL \<Rightarrow> out_integer (\<lambda>i. if i > 0 then ''true'' else ''false'') value
      | TYPE_DOUBLE \<Rightarrow>
          if cv_type value = CVT_INTEGER then out_integer show_int value
          else sbind (slift (get_double value)) (\<lambda>d. out_str (show_double d))
      | TYPE_VOID \<Rightarrow> sraise (Throw (''compiler error: no const of base type '' @ t_base_name tbase))
      | _ \<Rightarrow> out_integer show_int value)"

text \<open>The loop over the fields has no break: the last field of the name counts.\<close>

definition last_field_type :: "t_struct \<Rightarrow> string \<Rightarrow> t_type option" where
  "last_field_type tstruct name =
     map_option field_type (find (\<lambda>f. field_name f = name) (rev (members tstruct)))"

text \<open>
  The values are rendered through functions that are given their types; the lines between the
  brackets are indented one level more than the closing one.
\<close>

definition bracketed :: "string \<Rightarrow> unit emit \<Rightarrow> string \<Rightarrow> unit emit" where
  "bracketed opening body closing =
     block [out_str (opening @ nl), out_indent_up, body, out_indent_down, put closing]"

definition entry_line :: "unit emit list \<Rightarrow> unit emit" where
  "entry_line ms = block ([out_indent] @ ms @ [out_str ('','' @ nl)])"

function render_const_value :: "gen_env \<Rightarrow> t_type \<Rightarrow> t_const_value \<Rightarrow> unit emit" where
  "render_const_value env ttype value =
     sbind (slift (true_type env ttype)) (\<lambda>ty.
     case ty of
       t_base_type n tbase bin sl \<Rightarrow> render_base tbase value
     | t_enum_type e \<Rightarrow> sbind out_indent (\<lambda>_. out_integer show_int value)
     | t_struct_type tstruct \<Rightarrow>
         sbind (slift (full_type_name env ty)) (\<lambda>full.
         bracketed (full @ ''.new({'')
           (sfor (\<lambda>(k, v).
              case last_field_type tstruct (get_string k) of
                None \<Rightarrow> sraise (Throw (''type error: '' @ struct_name tstruct @ '' has no field ''
                          @ get_string k))
              | Some field_ty \<Rightarrow>
                  entry_line [render_const_value env g_type_string k, out_str '' => '',
                    render_const_value env field_ty v]) (get_map value))
           ''})'')
     | t_map ktype vtype \<Rightarrow>
         bracketed ''{''
           (sfor (\<lambda>(k, v). entry_line [render_const_value env ktype k, out_str '' => '',
              render_const_value env vtype v]) (get_map value))
           ''}''
     | t_list etype \<Rightarrow>
         bracketed ''['' (sfor (\<lambda>v. entry_line [render_const_value env etype v]) (get_list value)) '']''
     | t_set etype \<Rightarrow>
         bracketed ''Set.new(['' (sfor (\<lambda>v. entry_line [render_const_value env etype v]) (get_list value))
           ''])''
     | _ \<Rightarrow> sraise (Throw (''CANNOT GENERATE CONSTANT FOR TYPE: '' @ get_name ty)))"
  by pat_completeness auto
termination
  by (relation "measure (\<lambda>(env, ty, cv). size cv)") (auto intro: get_map_smaller get_list_smaller)

declare render_const_value.simps [simp del]

section \<open>Structs\<close>

text \<open>
  The doc comment of a definition is printed through the base class, so only its first line is
  indented by the stream.
\<close>

definition generate_rdoc :: "'a t_generator_scheme \<Rightarrow> string option \<Rightarrow> unit emit" where
  "generate_rdoc this doc =
     (case doc of
        None \<Rightarrow> sret ()
      | Some d \<Rightarrow> sbind out_indent (\<lambda>_. out_str (generate_docstring_comment this [] ''# '' d [])))"

definition out_annotations :: "annotations \<Rightarrow> unit emit" where
  "out_annotations anns =
     sfor (\<lambda>(k, v). putl (sq @ k @ sq @ '' => '' @ sq @ v @ sq @ '','')) anns"

definition generate_schema_annotations :: "t_struct \<Rightarrow> unit emit" where
  "generate_schema_annotations tstruct =
     block [putl ''ANNOTATIONS = {'', out_indent_up, out_annotations (struct_annotations tstruct),
       out_indent_down, putl (''}'' @ nl)]"

text \<open>
  The table of one field or element. Only a field has annotations; elements have no name and
  no default. The fuel is for the types of elements, which typedefs can make endless.
\<close>

fun generate_field_data ::
  "nat \<Rightarrow> gen_env \<Rightarrow> t_type \<Rightarrow> string \<Rightarrow> t_const_value option \<Rightarrow> bool \<Rightarrow> annotations option \<Rightarrow> unit emit" where
  "generate_field_data 0 env ftype fname fvalue optional anns = sraise Endless"
| "generate_field_data (Suc fuel) env ftype fname fvalue optional anns =
     sbind (slift (true_type env ftype)) (\<lambda>ty.
     let element = (\<lambda>key ety. block [out_str key, generate_field_data fuel env ety [] None False None,
                      out_str ('','' @ nl)]) in
     block
       [out_str (''{'' @ nl), out_indent_up,
        sbind (slift (type_to_enum env ty)) (\<lambda>te. putl ('':type => '' @ te @ '','')),
        (if fname \<noteq> [] then putl ('':name => '' @ sq @ fname @ sq @ '','') else sret ()),
        (case fvalue of
           None \<Rightarrow> sret ()
         | Some v \<Rightarrow> block [put '':default => '', render_const_value env ty v, out_str ('','' @ nl)]),
        (case ty of
           t_base_type n b bin sl \<Rightarrow> if is_binary ty then out_str ('':binary => true,'' @ nl) else sret ()
         | t_struct_type s \<Rightarrow>
             sbind (slift (full_type_name env ty)) (\<lambda>full. putl ('':class => '' @ full @ '',''))
         | t_list e \<Rightarrow> element '':element => '' e
         | t_map k v \<Rightarrow> block [element '':key => '' k, element '':value => '' v]
         | t_set e \<Rightarrow> element '':element => '' e
         | _ \<Rightarrow> sret ()),
        (if optional then putl '':optional => true,'' else sret ()),
        (if is_enum ty then
           sbind (slift (full_type_name env ty)) (\<lambda>full.
           block [put ('':enum_class => '' @ full), putl '','']) else sret ()),
        (case anns of
           None \<Rightarrow> sret ()
         | Some a \<Rightarrow> block [putl '':annotations => {'', out_indent_up, out_annotations a, out_indent_down,
                       putl ''},'']),
        out_indent_down, put ''}''])"

definition generate_field_entry :: "gen_env \<Rightarrow> 'a t_generator_scheme \<Rightarrow> t_field \<Rightarrow> unit emit" where
  "generate_field_entry env this f =
     block [generate_rdoc this (field_doc f), put (show_int (field_key f) @ '' => ''),
       generate_field_data (env_fuel env) env (field_type f) (field_name f) (field_default f)
         (field_req f = T_OPTIONAL) (Some (field_annotations f))]"

text \<open>A comma goes before every field but the first.\<close>

fun separated :: "unit emit \<Rightarrow> unit emit list \<Rightarrow> unit emit" where
  "separated sep [] = sret ()"
| "separated sep (m # ms) = sbind m (\<lambda>_. sfor (\<lambda>m. sbind sep (\<lambda>_. m)) ms)"

definition generate_field_defns :: "gen_env \<Rightarrow> 'a t_generator_scheme \<Rightarrow> t_struct \<Rightarrow> unit emit" where
  "generate_field_defns env this tstruct =
     block [putl ''FIELDS = {'', out_indent_up,
       separated (out_str ('','' @ nl)) (map (generate_field_entry env this) (members tstruct)),
       out_indent_down, out_str nl, putl (''}'' @ nl)]"

definition struct_base_class :: "t_struct \<Rightarrow> string" where
  "struct_base_class tstruct =
     (if is_union tstruct then ''::Sparsam::Union''
      else if is_xception_flag tstruct then ''::Sparsam::ApplicationException''
      else ''::Sparsam::Struct'')"

definition generate_rb_struct :: "gen_env \<Rightarrow> 'a t_generator_scheme \<Rightarrow> t_struct \<Rightarrow> unit emit" where
  "generate_rb_struct env this tstruct =
     block [generate_rdoc this (struct_doc tstruct),
       putl (''class '' @ type_name (t_struct_type tstruct) @ '' < '' @ struct_base_class tstruct),
       out_indent_up,
       generate_field_defns env this tstruct,
       generate_schema_annotations tstruct,
       putl ''init_thrift_struct(self)'',
       out_indent_down,
       putl (''end'' @ nl)]"

section \<open>Enums\<close>

definition comma_separated :: "string list \<Rightarrow> string" where
  "comma_separated items =
     (case items of [] \<Rightarrow> [] | i # is \<Rightarrow> i @ concat (map (\<lambda>x. '', '' @ x) is))"

definition rb_generate_enum :: "'a t_generator_scheme \<Rightarrow> t_enum \<Rightarrow> unit emit" where
  "rb_generate_enum this tenum =
     (let constants = enum_constants tenum; name = (\<lambda>c. capitalize (ev_name c)) in
      block [putl (''module '' @ capitalize (enum_name tenum)), out_indent_up,
        sfor (\<lambda>c. block [generate_rdoc this (ev_doc c),
                    putl (name c @ '' = '' @ show_int (ev_value c))]) constants,
        put ''VALUE_MAP = {'',
        out_str (comma_separated
          (map (\<lambda>c. show_int (ev_value c) @ '' => '' @ dq @ name c @ dq) constants)),
        out_str (''}'' @ nl),
        put ''INVERTED_VALUE_MAP = {'',
        out_str (comma_separated
          (map (\<lambda>c. dq @ name c @ dq @ '' => '' @ show_int (ev_value c)) constants)),
        out_str (''}'' @ nl),
        put ''VALID_VALUES = Set.new(['',
        out_str (comma_separated (map name constants)),
        out_str ('']).freeze'' @ nl),
        out_indent_down,
        putl (''end'' @ nl)])"

definition rb_generate_const :: "gen_env \<Rightarrow> t_const \<Rightarrow> unit emit" where
  "rb_generate_const env tconst =
     block [put (capitalize (const_name tconst) @ '' = ''),
       render_const_value env (const_type tconst) (const_value tconst), out_str (nl @ nl)]"

section \<open>Modules\<close>

definition begin_namespace :: "string list \<Rightarrow> unit emit" where
  "begin_namespace modules = sfor (\<lambda>m. block [putl (''module '' @ m), out_indent_up]) modules"

definition end_namespace :: "string list \<Rightarrow> unit emit" where
  "end_namespace modules = sfor (\<lambda>m. block [out_indent_down, putl ''end'']) (rev modules)"

definition rb_autogen_comment :: "string \<Rightarrow> string" where
  "rb_autogen_comment version =
     ''#'' @ nl @ ''# Autogenerated by Thrift Compiler ('' @ version @ '')'' @ nl
     @ ''#'' @ nl @ ''# DO NOT EDIT UNLESS YOU ARE SURE THAT YOU KNOW WHAT YOU ARE DOING'' @ nl @ ''#'' @ nl"

section \<open>The generator\<close>

text \<open>
  The files are named when they are opened; \<open>made_dirs\<close> lists the directories made. Opening a
  file and making a directory are taken to succeed, as the code does not look.
\<close>

record t_ruby_generator = t_generator +
  f_types :: t_ruby_ofstream
  f_consts :: t_ruby_ofstream
  f_types_name :: "string option"
  f_consts_name :: "string option"
  namespace_dir :: string
  require_prefix :: string
  namespaced :: bool
  made_dirs :: "string list"

type_synonym 'a rb = "(t_ruby_generator, cxx_error, 'a) sexn"

definition new_ruby_generator :: "program \<Rightarrow> (string \<times> string) list \<Rightarrow> t_ruby_generator" where
  "new_ruby_generator p parsed_options =
     t_generator.extend ((new_generator p)\<lparr>gn_out_dir_base := ''gen-ruby''\<rparr>)
       (t_ruby_generator.fields new_ofstream new_ofstream None None [] []
         (omap_find parsed_options ''namespaced'' \<noteq> None) [])"

definition on_types :: "(t_ruby_generator \<Rightarrow> 'a emit) \<Rightarrow> 'a rb" where
  "on_types m = (\<lambda>s. case m s (f_types s) of (r, out) \<Rightarrow> (r, s\<lparr>f_types := out\<rparr>))"

definition on_consts :: "(t_ruby_generator \<Rightarrow> 'a emit) \<Rightarrow> 'a rb" where
  "on_consts m = (\<lambda>s. case m s (f_consts s) of (r, out) \<Rightarrow> (r, s\<lparr>f_consts := out\<rparr>))"

definition own_namespace :: "'a t_generator_scheme \<Rightarrow> string" where
  "own_namespace s = get_namespace (the_program (gn_program s)) ''rb''"

definition render_includes :: "t_ruby_generator \<Rightarrow> string" where
  "render_includes s =
     (let includes = map the_program (get_includes (gn_program s)) in
      concat (map (\<lambda>inc. ''require '' @ sq
        @ (if namespaced s then rb_namespace_to_path_prefix (get_namespace inc ''rb'') else [])
        @ underscore (prog_name inc) @ ''_types'' @ sq @ nl) includes)
      @ (if includes \<noteq> [] then nl else []))"

text \<open>The loop that makes the directories of the namespace, and the last of them.\<close>

function make_dirs :: "string \<Rightarrow> string \<Rightarrow> string list \<Rightarrow> string \<times> string list" where
  "make_dirs subdir dir made =
     (case str_find CHR ''/'' dir of
        None \<Rightarrow> (subdir, made)
      | Some loc \<Rightarrow>
          (let subdir = subdir @ substr dir 0 (Some loc) @ ''/'' in
           make_dirs subdir (substr dir (Suc loc) None) (made @ [subdir])))"
  by pat_completeness auto
termination
  by (relation "measure (\<lambda>(subdir, dir, made). length dir)") (auto dest: str_find_Some simp: substr_def)

declare make_dirs.simps [simp del]

definition open_files :: "unit rb" where
  "open_files = sbind sget (\<lambda>s.
     let prefix = (if namespaced s then rb_namespace_to_path_prefix (own_namespace s) else require_prefix s);
         (subdir, made) =
           (if namespaced s then make_dirs (get_out_dir s) prefix [get_out_dir s]
            else (get_out_dir s, [get_out_dir s]));
         base = subdir @ underscore (gn_program_name s) in
     sput (s\<lparr>require_prefix := prefix, made_dirs := made_dirs s @ made, namespace_dir := subdir,
       f_types_name := Some (base @ ''_types.rb''), f_consts_name := Some (base @ ''_constants.rb'')\<rparr>))"

definition rb_init_generator :: "gen_env \<Rightarrow> unit rb" where
  "rb_init_generator env =
     sbind open_files (\<lambda>_.
     sbind (on_types (\<lambda>s. block
       [out_str (rb_autogen_comment (env_version env) @ nl @ ''require '' @ sq @ ''sparsam'' @ sq @ nl
          @ render_includes s @ nl),
        begin_namespace (ruby_modules (own_namespace s))])) (\<lambda>_.
     on_consts (\<lambda>s. block
       [out_str (rb_autogen_comment (env_version env) @ nl @ ''require '' @ sq @ ''sparsam'' @ sq @ nl
          @ ''require '' @ sq @ require_prefix s @ underscore (gn_program_name s) @ ''_types'' @ sq
          @ nl @ nl),
        begin_namespace (ruby_modules (own_namespace s))])))"

definition rb_close_generator :: "unit rb" where
  "rb_close_generator =
     sbind (on_types (\<lambda>s. end_namespace (ruby_modules (own_namespace s)))) (\<lambda>_.
     on_consts (\<lambda>s. end_namespace (ruby_modules (own_namespace s))))"

text \<open>The overridden methods; typedefs, forward declarations and services give nothing.\<close>

definition ruby_methods :: "gen_env \<Rightarrow> t_ruby_generator virtual_methods" where
  "ruby_methods env =
     \<lparr>init_generator = rb_init_generator env,
      generate_enum = (\<lambda>e. on_types (\<lambda>s. rb_generate_enum s e)),
      generate_typedef = (\<lambda>td. sret ()),
      generate_forward_declaration = (\<lambda>ob. sret ()),
      generate_xception = (\<lambda>x. on_types (\<lambda>s. generate_rb_struct env s x)),
      generate_struct = (\<lambda>x. on_types (\<lambda>s. generate_rb_struct env s x)),
      generate_const = (\<lambda>c. on_consts (\<lambda>s. rb_generate_const env c)),
      generate_service = (\<lambda>sv. sret ()),
      close_generator = rb_close_generator\<rparr>"

text \<open>
  The registered factory. Making a generator and running it is one step here: the outcome and
  the files, which are closed with what was written when an exception leaves the generator.
\<close>

definition written_files :: "t_ruby_generator \<Rightarrow> (string \<times> string) list" where
  "written_files s =
     (case (f_types_name s, f_consts_name s) of
        (Some t, Some c) \<Rightarrow> [(t, contents (f_types s)), (c, contents (f_consts s))]
      | _ \<Rightarrow> [])"

definition run_ruby ::
  "gen_env \<Rightarrow> program \<Rightarrow> (string \<times> string) list \<Rightarrow> (cxx_error + unit) \<times> (string \<times> string) list" where
  "run_ruby env p parsed_options =
     (case generate_program (ruby_methods env) (new_ruby_generator p parsed_options) of
        (r, s) \<Rightarrow> (r, written_files s))"

definition ruby_factory ::
  "gen_env \<Rightarrow> ((cxx_error + unit) \<times> (string \<times> string) list) t_generator_factory" where
  "ruby_factory env =
     \<lparr>short_name = ''ruby'', long_name = ''Ruby Sparsam bindings'',
      documentation = ''    namespaced:      Generate files in idiomatic namespaced directories.'' @ nl,
      make_generator = (\<lambda>p parsed options. run_ruby env p parsed),
      accepts_namespace = is_valid_namespace\<rparr>"

end
