(* ===== verification/Emitters.thy ===== *)
theory Emitters
  imports RubyGen
begin

text \<open>
  The calculus of emitters: what a function of the generator writes depends on the stream only
  through its indentation, is appended to it, and changes the indentation by a fixed amount.
  The collection \<open>emits_intros\<close> derives this for every function of the Ruby generator.
\<close>

section \<open>Emitters\<close>

text \<open>
  \<open>emits k m\<close>: \<open>m\<close> only appends to the stream, what it appends does not depend on what is
  there, and when it returns the indentation has changed by \<open>k\<close>.
\<close>

definition prepended :: "string \<times> string \<Rightarrow> t_ruby_ofstream \<Rightarrow> t_ruby_ofstream" where
  "prepended pre out = out\<lparr>contents := fst pre @ contents out, console := snd pre @ console out\<rparr>"

definition emits :: "int \<Rightarrow> unit emit \<Rightarrow> bool" where
  "emits k m \<longleftrightarrow> (\<forall>out. case m out of (r, out') \<Rightarrow>
     (\<forall>pre. m (prepended pre out) = (r, prepended pre out')) \<and>
     (is_ok r \<longrightarrow> ofs_indent out' = ofs_indent out + k))"

named_theorems emits_intros

lemma emitsD:
  assumes "emits k m" and "m out = (r, t)"
  shows "m (prepended pre out) = (r, prepended pre t)" and "r = Inr x \<Longrightarrow> ofs_indent t = ofs_indent out + k"
  using assms by (cases pre; auto simp: emits_def split: prod.splits)+

lemma emitsI:
  assumes "\<And>out r t pre. m out = (r, t) \<Longrightarrow> m (prepended pre out) = (r, prepended pre t)"
    and "\<And>out x t. m out = (Inr x, t) \<Longrightarrow> ofs_indent t = ofs_indent out + k"
  shows "emits k m"
  using assms unfolding emits_def is_ok_iff by (auto split: prod.splits)

lemma emits_bind:
  assumes m: "emits a m" and f: "emits b (f ())"
  shows "emits (a + b) (sbind m f)"
proof (rule emitsI)
  fix out r u pre
  assume run: "sbind m f out = (r, u)"
  obtain q t where mt: "m out = (q, t)" by (cases "m out")
  note m_pre = emitsD(1) [OF m mt]
  show "sbind m f (prepended pre out) = (r, prepended pre u)"
  proof (cases q)
    case (Inl e)
    then have "r = Inl e" "u = t" using run sbind_raises [of m out e t f] mt by simp_all
    moreover have "sbind m f (prepended pre out) = (Inl e, prepended pre t)"
      using m_pre [of pre] Inl by (intro sbind_raises) simp
    ultimately show ?thesis by simp
  next
    case (Inr x)
    then have "f () t = (r, u)" using run mt by (simp add: sbind_returns)
    then show ?thesis using emitsD(1) [OF f] Inr m_pre [of pre] by (simp add: sbind_returns)
  qed
next
  fix out x u
  assume "sbind m f out = (Inr x, u)"
  then obtain t where "m out = (Inr (), t)" "f () t = (Inr x, u)"
    by (auto simp: sbind_eq_Inr)
  then show "ofs_indent u = ofs_indent out + (a + b)"
    using emitsD(2) [OF m] emitsD(2) [OF f] by fastforce
qed

lemma emits_ret [emits_intros]: "emits 0 (sret ())"
  by (simp add: emits_def)

lemma emits_raise [emits_intros]: "emits 0 (sraise e)"
  by (simp add: emits_def)

lemma emits_lift [emits_intros]:
  "(\<And>x. emits k (f x)) \<Longrightarrow> emits k (sbind (slift r) f)"
  by (cases r) (auto simp: emits_def)

lemma emits_out_str [emits_intros]: "emits 0 (out_str str)"
  by (simp add: emits_def out_str_def prepended_def)

lemma emits_out_indent [emits_intros]: "emits 0 out_indent"
  by (simp add: emits_def out_indent_def out_str_def prepended_def)

lemma emits_out_indent_up [emits_intros]: "emits 1 out_indent_up"
  by (simp add: emits_def out_indent_up_def prepended_def)

lemma emits_out_indent_down [emits_intros]: "emits (-1) out_indent_down"
  by (simp add: emits_def out_indent_down_def prepended_def)

lemma emits_printf [emits_intros]: "emits 0 (out_printf str)"
  by (simp add: emits_def out_printf_def prepended_def)

lemma emits_put [emits_intros]: "emits 0 (put str)"
  unfolding put_def using emits_bind [OF emits_out_indent, where f = "\<lambda>_. out_str str"] emits_out_str by simp

lemma emits_putl [emits_intros]: "emits 0 (putl str)"
  unfolding putl_def by (rule emits_put)

lemma emits_block_Nil [emits_intros]: "k = 0 \<Longrightarrow> emits k (block [])"
  unfolding block_def sfor.simps using emits_ret by (simp del: sret_apply)

lemma emits_block_Cons [emits_intros]: "emits a m \<Longrightarrow> emits (k - a) (block ms) \<Longrightarrow> emits k (block (m # ms))"
  using emits_bind [of a m "k - a" "\<lambda>_. block ms"] by (simp add: block_def)

lemma emits_sfor [emits_intros]: "(\<And>x. x \<in> set xs \<Longrightarrow> emits 0 (f x)) \<Longrightarrow> emits 0 (sfor f xs)"
proof (induction xs)
  case Nil
  show ?case unfolding sfor.simps by (rule emits_ret)
next
  case (Cons x xs)
  then show ?case using emits_bind [of 0 "f x" 0 "\<lambda>_. sfor f xs"] by simp
qed

lemma emits_if [emits_intros]: "emits k m \<Longrightarrow> emits k n \<Longrightarrow> emits k (if c then m else n)"
  by simp

lemma emits_option [emits_intros]:
  "emits k n \<Longrightarrow> (\<And>x. emits k (f x)) \<Longrightarrow> emits k (case v of None \<Rightarrow> n | Some x \<Rightarrow> f x)"
  by (cases v) simp_all

lemma emits_bind_0 [emits_intros]: "emits a m \<Longrightarrow> emits (k - a) (f ()) \<Longrightarrow> emits k (sbind m f)"
  using emits_bind [of a m "k - a" f] by simp

lemma emits_bracketed [emits_intros]: "emits 0 body \<Longrightarrow> emits 0 (bracketed opening body closing)"
  unfolding bracketed_def by (rule emits_intros | assumption | simp)+

lemma emits_entry_line:
  "(\<And>m. m \<in> set ms \<Longrightarrow> emits 0 m) \<Longrightarrow> emits 0 (entry_line ms)"
  unfolding entry_line_def block_def by (intro emits_sfor) (auto intro: emits_intros)

lemma emits_out_integer [emits_intros]: "emits 0 (out_integer show_it value)"
  unfolding out_integer_def by (intro emits_lift emits_out_str)

lemma emits_render_base: "emits 0 (render_base tbase value)"
  unfolding render_base_def
  by (cases tbase) (simp_all add: emits_out_str emits_out_integer emits_raise emits_lift)

lemma emits_render_const_value [emits_intros]: "emits 0 (render_const_value env ty cv)"
proof (induction "size cv" arbitrary: env ty cv rule: less_induct)
  case less
  have parts: "(k, v) \<in> set (get_map cv) \<Longrightarrow> emits 0 (render_const_value env ty k)"
    "(k, v) \<in> set (get_map cv) \<Longrightarrow> emits 0 (render_const_value env ty v)"
    "v \<in> set (get_list cv) \<Longrightarrow> emits 0 (render_const_value env ty v)" for k v env ty
    using less get_map_smaller get_list_smaller by blast+
  show ?case
    by (subst render_const_value.simps, rule emits_lift, rename_tac t, case_tac t)
       (auto intro!: emits_render_base emits_lift emits_bracketed emits_sfor emits_option emits_raise
          emits_bind_0 emits_out_indent emits_entry_line emits_out_integer emits_out_str
          intro: parts split: prod.split)
qed

lemma emits_generate_rdoc [emits_intros]: "emits 0 (generate_rdoc this doc)"
  unfolding generate_rdoc_def by (rule emits_option emits_ret emits_bind_0 emits_out_indent | simp add: emits_out_str)+

lemma emits_out_annotations [emits_intros]: "emits 0 (out_annotations anns)"
  unfolding out_annotations_def by (intro emits_sfor) (simp add: emits_putl split: prod.split)

lemma emits_schema_annotations [emits_intros]: "emits 0 (generate_schema_annotations tstruct)"
  unfolding generate_schema_annotations_def by (rule emits_intros | simp)+

lemma emits_field_data [emits_intros]:
  "emits 0 (generate_field_data fuel env ty fname fvalue optional anns)"
proof (induction fuel arbitrary: ty fname fvalue optional anns)
  case 0
  show ?case unfolding generate_field_data.simps by (rule emits_raise)
next
  case (Suc fuel)
  have element: "emits 0 (block [out_str key, generate_field_data fuel env ety [] None False None,
      out_str ('','' @ nl)])" for key ety
    by (rule emits_intros Suc.IH | simp)+
  show ?case
    unfolding generate_field_data.simps Let_def
    by (rule emits_lift, rename_tac t, case_tac t; simp only: t_type.case is_enum.simps if_False if_True;
        (rule emits_intros element | simp)+)
qed

lemma emits_separated [emits_intros]:
  assumes "emits 0 sep" and "\<And>m. m \<in> set ms \<Longrightarrow> emits 0 m"
  shows "emits 0 (separated sep ms)"
proof (cases ms)
  case Nil
  then show ?thesis by (simp add: emits_ret del: sret_apply)
next
  case (Cons m ms')
  have "emits 0 (sfor (\<lambda>m. sbind sep (\<lambda>_. m)) ms')"
    using assms Cons by (intro emits_sfor emits_bind_0 [of 0]) auto
  then show ?thesis using assms Cons emits_bind [of 0 m 0] by simp
qed

lemma emits_field_defns [emits_intros]: "emits 0 (generate_field_defns env this tstruct)"
  unfolding generate_field_defns_def
  by (rule emits_intros | auto simp: generate_field_entry_def intro: emits_intros)+

lemma emits_rb_struct [emits_intros]: "emits 0 (generate_rb_struct env this tstruct)"
  unfolding generate_rb_struct_def by (rule emits_intros | simp)+

lemma emits_rb_enum [emits_intros]: "emits 0 (rb_generate_enum this tenum)"
  unfolding rb_generate_enum_def Let_def by (rule emits_intros | simp)+

lemma emits_rb_const [emits_intros]: "emits 0 (rb_generate_const env tconst)"
  unfolding rb_generate_const_def by (rule emits_intros | simp)+

lemma emits_begin_namespace [emits_intros]: "emits (int (length modules)) (begin_namespace modules)"
proof (induction modules)
  case Nil
  show ?case unfolding begin_namespace_def sfor.simps using emits_ret by (simp del: sret_apply)
next
  case (Cons m ms)
  have "emits 1 (block [putl (''module '' @ m), out_indent_up])"
    by (rule emits_intros | simp)+
  from emits_bind [OF this, of _ "\<lambda>_. begin_namespace ms"] Cons show ?case
    by (simp add: begin_namespace_def)
qed

lemma emits_ends: "emits (- int (length modules)) (sfor (\<lambda>m. block [out_indent_down, putl ''end'']) modules)"
proof (induction modules)
  case Nil
  show ?case unfolding sfor.simps using emits_ret by (simp del: sret_apply)
next
  case (Cons m ms)
  have "emits (- 1) (block [out_indent_down, putl ''end''])"
    by (rule emits_intros | simp)+
  from emits_bind [OF this, of "- int (length ms)" "\<lambda>_. sfor (\<lambda>m. block [out_indent_down, putl ''end'']) ms"]
  show ?case using Cons by (simp add: algebra_simps)
qed

lemma emits_end_namespace [emits_intros]: "emits (- int (length modules)) (end_namespace modules)"
  unfolding end_namespace_def using emits_ends [of "rev modules"] by simp

section \<open>The text of an emitter\<close>

text \<open>What an emitter writes at a level of indentation.\<close>

definition stream_at :: "int \<Rightarrow> t_ruby_ofstream" where
  "stream_at n = \<lparr>contents = [], ofs_indent = n, console = []\<rparr>"

definition text_at :: "int \<Rightarrow> unit emit \<Rightarrow> string" where
  "text_at n m = contents (snd (m (stream_at n)))"

lemma emits_text:
  assumes "emits k m" "m out = (Inr x, t)"
  shows "contents t = contents out @ text_at (ofs_indent out) m" "ofs_indent t = ofs_indent out + k"
proof -
  obtain r u where run: "m (stream_at (ofs_indent out)) = (r, u)" by (cases "m (stream_at (ofs_indent out))")
  have "out = prepended (contents out, console out) (stream_at (ofs_indent out))"
    by (simp add: prepended_def stream_at_def)
  then have "m out = (r, prepended (contents out, console out) u)"
    using emitsD(1) [OF assms(1) run] by metis
  then show "contents t = contents out @ text_at (ofs_indent out) m"
    using assms(2) run by (simp add: text_at_def prepended_def)
  show "ofs_indent t = ofs_indent out + k"
    using emitsD(2) [OF assms] by simp
qed

end
