(* ===== verification/GenProps.thy ===== *)
theory GenProps
  imports RubyGen
begin

text \<open>
  Correctness of the generator's functions on strings: names, string literals, doc comments,
  option strings and the paths of the generated files.
\<close>

section \<open>Names\<close>

lemma is_upper_iff: "is_upper c \<longleftrightarrow> 65 \<le> (of_char c :: nat) \<and> (of_char c :: nat) \<le> 90"
  by (simp add: is_upper_def less_eq_char_def)

lemma is_lower_iff: "is_lower c \<longleftrightarrow> 97 \<le> (of_char c :: nat) \<and> (of_char c :: nat) \<le> 122"
  by (simp add: is_lower_def less_eq_char_def)

lemma of_char_to_lower: "is_upper c \<Longrightarrow> (of_char (to_lower c) :: nat) = of_char c + 32"
  by (simp add: to_lower_def is_upper_iff of_char_of)

lemma to_upper_to_lower: "is_upper c \<Longrightarrow> to_upper (to_lower c) = c"
  using of_char_to_lower [of c] by (simp add: to_upper_def is_lower_iff is_upper_iff)

lemma to_lower_not_underscore: "is_upper c \<Longrightarrow> to_lower c \<noteq> CHR ''_''"
  using of_char_to_lower [of c] by (auto simp: is_upper_iff dest!: arg_cong [where f = "of_char :: char \<Rightarrow> nat"])

lemma to_lower_id: "\<not> is_upper c \<Longrightarrow> to_lower c = c"
  by (simp add: to_lower_def)

lemma camelcase_underscore_rest:
  "CHR ''_'' \<notin> set s \<Longrightarrow> camelcase_from False (underscore_rest s) = s"
  by (induction s) (auto simp: to_lower_not_underscore to_upper_to_lower)

text \<open>Camel case undoes the underscores of a name that starts with no capital and has no underscores of
its own, so different programs with such names get different files.\<close>

lemma camelcase_underscore:
  assumes "CHR ''_'' \<notin> set s" "s \<noteq> [] \<longrightarrow> \<not> is_upper (hd s)"
  shows "camelcase (underscore s) = s"
  using assms
  by (cases s) (auto simp: camelcase_def to_lower_id camelcase_underscore_rest)

section \<open>String literals\<close>

text \<open>
  How Ruby reads the body of \<^verbatim>\<open>%q"..."\<close>: a backslash escapes the quote and itself, and
  stands for itself before any other character.
\<close>

fun ruby_q :: "string \<Rightarrow> (string \<times> string) option" where
  "ruby_q [] = None"
| "ruby_q [c] = (if c = CHR 0x22 then Some ([], []) else None)"
| "ruby_q (c # d # cs) =
     (if c = CHR 0x22 then Some ([], d # cs)
      else if c = CHR 0x5C \<and> (d = CHR 0x22 \<or> d = CHR 0x5C)
      then map_option (\<lambda>(s, rest). (d # s, rest)) (ruby_q cs)
      else map_option (\<lambda>(s, rest). (c # s, rest)) (ruby_q (d # cs)))"

text \<open>What is read back for a character: those without an escape in \<^verbatim>\<open>%q\<close> come back as two.\<close>

definition read_back :: "char \<Rightarrow> string" where
  "read_back c = (if c \<in> {CHR 0x0A, CHR 0x0D, CHR 0x09} then escape_char c else [c])"

lemma ruby_q_plain:
  "c \<noteq> CHR 0x22 \<Longrightarrow> c \<noteq> CHR 0x5C \<Longrightarrow> ruby_q (c # cs) = map_option (\<lambda>(s, rest). (c # s, rest)) (ruby_q cs)"
  by (cases cs) auto

lemma ruby_q_escaped:
  "ruby_q (escape_char c @ cs) = map_option (\<lambda>(s, rest). (read_back c @ s, rest)) (ruby_q cs)"
proof (cases "c \<in> {CHR 0x0A, CHR 0x0D, CHR 0x09}")
  case True
  then obtain d where d: "escape_char c = [CHR 0x5C, d]" "d \<noteq> CHR 0x22" "d \<noteq> CHR 0x5C"
    by (auto simp: escape_char_eq)
  then show ?thesis using True
    by (simp add: read_back_def ruby_q_plain option.map_comp comp_def split_def)
next
  case False
  then show ?thesis
    by (cases "c = CHR 0x22 \<or> c = CHR 0x5C") (auto simp: escape_char_eq read_back_def ruby_q_plain)
qed

lemma ruby_q_escape_string:
  "ruby_q (escape_string s @ CHR 0x22 # rest) = Some (concat (map read_back s), rest)"
proof (induction s)
  case Nil
  show ?case by (cases rest) (simp_all add: escape_string_def)
next
  case (Cons c s)
  then show ?case by (simp add: escape_string_def ruby_q_escaped)
qed

lemma read_back_length: "length (read_back c) \<ge> 1" "c \<in> {CHR 0x0A, CHR 0x0D, CHR 0x09} \<longleftrightarrow> length (read_back c) = 2"
  by (auto simp: read_back_def escape_char_eq)

lemma read_back_same:
  "concat (map read_back s) = s \<longleftrightarrow> set s \<inter> {CHR 0x0A, CHR 0x0D, CHR 0x09} = {}"
proof
  assume same: "concat (map read_back s) = s"
  have len: "length s \<le> length (concat (map read_back s))" for s
  proof (induction s)
    case (Cons c s)
    then show ?case using read_back_length(1) [of c] by simp
  qed simp
  have less: "c \<in> set s \<Longrightarrow> c \<in> {CHR 0x0A, CHR 0x0D, CHR 0x09} \<Longrightarrow>
      length s < length (concat (map read_back s))" for c s
  proof (induction s)
    case (Cons x s)
    show ?case
    proof (cases "c = x")
      case True
      then have "length (read_back x) = 2" using Cons.prems(2) read_back_length(2) by simp
      then show ?thesis using len [of s] by simp
    next
      case False
      then have "length s < length (concat (map read_back s))" using Cons by simp
      then show ?thesis using read_back_length(1) [of x] by simp
    qed
  qed simp
  show "set s \<inter> {CHR 0x0A, CHR 0x0D, CHR 0x09} = {}"
  proof (rule ccontr)
    assume "set s \<inter> {CHR 0x0A, CHR 0x0D, CHR 0x09} \<noteq> {}"
    then obtain c where "c \<in> set s" "c \<in> {CHR 0x0A, CHR 0x0D, CHR 0x09}" by blast
    from less [OF this] same show False by simp
  qed
next
  assume "set s \<inter> {CHR 0x0A, CHR 0x0D, CHR 0x09} = {}"
  then show "concat (map read_back s) = s"
    by (induction s) (auto simp: read_back_def)
qed

text \<open>C12: The literal of a string constant is closed by its own quote whatever the string holds, and
Ruby reads the string back exactly when it has no line breaks, carriage returns or tabs: the escapes
that are printed for those mean nothing in the form of literal that is used.\<close>

theorem string_constant_read_back:
  "\<exists>lit. render_base TYPE_STRING (CV_STRING s) out = (Inr (), out\<lparr>contents := contents out @ ''%q'' @ dq @ lit\<rparr>)
     \<and> (\<exists>t. ruby_q (lit @ rest) = Some (t, rest)
          \<and> (t = s \<longleftrightarrow> set s \<inter> {CHR 0x0A, CHR 0x0D, CHR 0x09} = {}))"
  by (intro exI [of _ "escape_string s @ dq"] exI [of _ "concat (map read_back s)"])
     (simp add: render_base_def get_escaped_string_def out_str_def ruby_q_escape_string read_back_same)

section \<open>Option strings\<close>

lemma parse_options_pieces:
  "parse_options rest m =
     foldl (\<lambda>m p. omap_insert (fst p) (snd p) m) m
       (map parse_option (if last (split_on CHR '','' rest) = [] then butlast (split_on CHR '','' rest)
          else split_on CHR '','' rest))"
proof (induction rest m rule: parse_options.induct)
  case (1 rest m)
  show ?case
  proof (cases "rest = []")
    case True
    then show ?thesis by (subst parse_options.simps) simp
  next
    case False
    obtain k v where kv: "parse_option (substr rest 0 (str_find CHR '','' rest)) = (k, v)"
      by (cases "parse_option (substr rest 0 (str_find CHR '','' rest))")
    have step: "parse_options rest m =
        parse_options (case str_find CHR '','' rest of None \<Rightarrow> [] | Some j \<Rightarrow> drop (Suc j) rest) (omap_insert k v m)"
      using False kv by (subst parse_options.simps) (simp add: Let_def)
    show ?thesis
    proof (cases "str_find CHR '','' rest")
      case None
      then have "split_on CHR '','' rest = [rest]" by (simp add: split_on_find)
      then show ?thesis
        using step None False kv by (simp add: substr_def parse_options.simps [of "[]"])
    next
      case (Some j)
      have split: "split_on CHR '','' rest = take j rest # split_on CHR '','' (drop (Suc j) rest)"
        using Some by (subst split_on_find) simp
      have "parse_options (drop (Suc j) rest) (omap_insert k v m) =
          foldl (\<lambda>m p. omap_insert (fst p) (snd p) m) (omap_insert k v m)
            (map parse_option (if last (split_on CHR '','' (drop (Suc j) rest)) = []
               then butlast (split_on CHR '','' (drop (Suc j) rest))
               else split_on CHR '','' (drop (Suc j) rest)))"
        using "1.IH" [OF False refl kv [symmetric] refl] Some by simp
      then show ?thesis
        using step Some kv split by (simp add: substr_def)
    qed
  qed
qed

text \<open>The options after the colon are the pieces between commas, each a key with the value after
its equals sign, the last one of a key counting; the generator puts the files into the directories of
their namespace exactly when one of the keys is \<open>namespaced\<close>, with whatever value.\<close>

lemma option_namespaced_iff:
  "registry_get_generator [(''ruby'', ruby_factory env)] p (''ruby:'' @ opts)
     = Some (run_ruby env p (parse_options opts []))
   \<and> (namespaced (new_ruby_generator p (parse_options opts []))
       \<longleftrightarrow> ''namespaced'' \<in> (fst \<circ> parse_option) ` set (split_on CHR '','' opts))"
proof
  show "registry_get_generator [(''ruby'', ruby_factory env)] p (''ruby:'' @ opts)
     = Some (run_ruby env p (parse_options opts []))"
    using str_find_split [of "CHR '':''" "''ruby''" opts]
    by (simp add: registry_get_generator_def ruby_factory_def substr_def)
  let ?pieces = "split_on CHR '','' opts"
  have none: "fst (parse_option []) = []"
    by (simp add: parse_option_def str_find_def)
  have ends: "?pieces = butlast ?pieces @ [last ?pieces]" by simp
  have keys: "fst ` set (foldl (\<lambda>m p. omap_insert (fst p) (snd p) m) m ps) = fst ` set m \<union> fst ` set ps"
    for m ps :: "(string \<times> string) list"
    by (induction ps arbitrary: m) (auto simp: omap_insert_keys)
  have found: "omap_find m k \<noteq> None \<longleftrightarrow> k \<in> fst ` set m" for m :: "(string \<times> string) list" and k
    by (simp add: omap_find_def map_of_eq_None_iff)
  have "namespaced (new_ruby_generator p (parse_options opts []))
      \<longleftrightarrow> ''namespaced'' \<in> fst ` set (parse_options opts [])"
    by (simp add: new_ruby_generator_def t_generator.defs t_ruby_generator.defs new_generator_def found [symmetric])
  also have "\<dots> \<longleftrightarrow> ''namespaced'' \<in> (fst \<circ> parse_option) ` set ?pieces"
  proof (cases "last ?pieces = []")
    case True
    then have "set ?pieces = insert [] (set (butlast ?pieces))"
      using ends by (metis Un_insert_right list.simps(15) set_append sup_bot.right_neutral list.set(1))
    then show ?thesis
      using True none by (simp add: parse_options_pieces keys image_comp)
  qed (simp add: parse_options_pieces keys image_comp)
  finally show "namespaced (new_ruby_generator p (parse_options opts []))
       \<longleftrightarrow> ''namespaced'' \<in> (fst \<circ> parse_option) ` set ?pieces" .
qed

section \<open>Doc comments\<close>

lemma getline_1024_line:
  "CHR 0x0A \<notin> set l \<Longrightarrow> length l \<le> 1023 \<Longrightarrow> getline_1024 (l @ CHR 0x0A # rest) = (l, rest, False, False)"
  by (simp add: getline_1024_def str_find_split)

lemma getline_1024_last:
  "CHR 0x0A \<notin> set l \<Longrightarrow> length l \<le> 1023 \<Longrightarrow> getline_1024 l = (l, [], True, l = [])"
proof -
  assume "CHR 0x0A \<notin> set l" "length l \<le> 1023"
  moreover from this have "str_find (CHR 0x0A) l = None" by (simp add: str_find_None)
  ultimately show ?thesis by (simp add: getline_1024_def)
qed

lemma c_string_id: "CHR 0x00 \<notin> set l \<Longrightarrow> c_string l = l"
  unfolding c_string_def by (induction l) auto

text \<open>A line that the buffer holds and that is printed as it is.\<close>

definition doc_line :: "string \<Rightarrow> bool" where
  "doc_line l \<longleftrightarrow> CHR 0x0A \<notin> set l \<and> CHR 0x00 \<notin> set l \<and> length l \<le> 1023"

lemma docstring_lines_end:
  "doc_line l \<Longrightarrow> docstring_lines ind pre l = (if l = [] then [] else ind @ pre @ l @ nl)"
  by (subst docstring_lines.simps)
     (simp add: doc_line_def getline_1024_last c_string_id docstring_line_def)

lemma docstring_lines_step:
  "doc_line l \<Longrightarrow> pre \<noteq> [] \<Longrightarrow>
     docstring_lines ind pre (l @ CHR 0x0A # rest) = (ind @ pre @ l @ nl) @ docstring_lines ind pre rest"
  by (subst docstring_lines.simps)
     (simp add: doc_line_def getline_1024_line c_string_id docstring_line_def)

text \<open>A doc comment whose lines fit the buffer is printed line by line behind the prefix, empty lines
included, and an empty last line left out; only the first line is indented as deep as the definition
it belongs to, as the others are indented by the base class, whose level stays zero.\<close>

lemma rdoc_lines:
  assumes "\<And>l. l \<in> set ls \<Longrightarrow> doc_line l" "doc_line z" "gn_indent this = 0"
  shows "generate_rdoc this (Some (concat (map (\<lambda>l. l @ nl) ls) @ z)) out =
    (Inr (), out\<lparr>contents := contents out @ indentation (ofs_indent out)
       @ concat (map (\<lambda>l. ''# '' @ l @ nl) ls) @ (if z = [] then [] else ''# '' @ z @ nl)\<rparr>)"
proof -
  have "docstring_lines [] ''# '' (concat (map (\<lambda>l. l @ nl) ls) @ z)
      = concat (map (\<lambda>l. ''# '' @ l @ nl) ls) @ (if z = [] then [] else ''# '' @ z @ nl)"
    using assms(1,2) by (induction ls) (simp_all add: docstring_lines_end docstring_lines_step)
  then have "generate_docstring_comment this [] ''# '' (concat (map (\<lambda>l. l @ nl) ls) @ z) []
      = concat (map (\<lambda>l. ''# '' @ l @ nl) ls) @ (if z = [] then [] else ''# '' @ z @ nl)"
    using assms(3) by (simp add: generate_docstring_comment_def indent_def indentation_def)
  then show ?thesis
    by (simp add: generate_rdoc_def out_indent_def out_str_def sbind_returns)
qed

text \<open>A longer line ends the comment: what is left of it and the lines after it are lost.\<close>

lemma long_line_ends:
  assumes "CHR 0x0A \<notin> set l" "CHR 0x00 \<notin> set l" "1023 < length l"
  shows "docstring_lines ind pre (l @ CHR 0x0A # rest) = ind @ pre @ take 1023 l @ nl"
proof -
  have "CHR 0x00 \<notin> set (take 1023 l)" using assms(2) in_set_takeD by metis
  then show ?thesis
    using assms by (subst docstring_lines.simps)
      (auto simp: getline_1024_def str_find_split c_string_id docstring_line_def)
qed

section \<open>Paths of the generated files\<close>

lemma module_names_split: "module_names ns = map capitalize (split_on CHR ''.'' ns)"
proof (induction ns rule: module_names.induct)
  case (1 ns)
  then show ?case
    by (subst module_names.simps, subst split_on_find) (simp split: option.split)
qed

lemma path_prefix_split:
  "rb_namespace_to_path_prefix ns =
     concat (map (\<lambda>n. underscore n @ ''/'')
       (if last (split_on CHR ''.'' ns) = [] then butlast (split_on CHR ''.'' ns) else split_on CHR ''.'' ns))"
proof (induction ns rule: rb_namespace_to_path_prefix.induct)
  case (1 ns)
  show ?case
  proof (cases "str_find CHR ''.'' ns")
    case None
    then have "split_on CHR ''.'' ns = [ns]" by (simp add: split_on_find)
    then show ?thesis using None by (subst rb_namespace_to_path_prefix.simps) simp
  next
    case (Some j)
    then have "split_on CHR ''.'' ns = take j ns # split_on CHR ''.'' (drop (Suc j) ns)"
      by (subst split_on_find) simp
    then show ?thesis
      using Some "1.IH" by (subst rb_namespace_to_path_prefix.simps) (simp add: substr_def)
  qed
qed

lemma of_char_char_47: "(of_char (CHR ''/'') :: nat) = 47"
  by simp

lemma to_lower_slash: "CHR ''/'' = to_lower c \<longleftrightarrow> CHR ''/'' = c"
proof (cases "is_upper c")
  case True
  then have "(of_char c :: nat) \<noteq> 47" "(of_char (to_lower c) :: nat) \<noteq> 47"
    by (auto simp: is_upper_iff of_char_to_lower)
  then show ?thesis by (metis of_char_char_47)
qed (simp add: to_lower_id)

lemma underscore_rest_slash: "CHR ''/'' \<notin> set s \<Longrightarrow> CHR ''/'' \<notin> set (underscore_rest s)"
  by (induction s) (simp_all add: to_lower_slash)

lemma underscore_slash: "CHR ''/'' \<notin> set s \<Longrightarrow> CHR ''/'' \<notin> set (underscore s)"
  by (cases s) (simp_all add: underscore_rest_slash to_lower_slash)

lemma make_dirs_split:
  "(\<And>d. d \<in> set ds \<Longrightarrow> CHR ''/'' \<notin> set d) \<Longrightarrow>
     make_dirs subdir (concat (map (\<lambda>d. d @ ''/'') ds)) made =
       (subdir @ concat (map (\<lambda>d. d @ ''/'') ds),
        made @ map (\<lambda>k. subdir @ concat (map (\<lambda>d. d @ ''/'') (take k ds))) [1..<Suc (length ds)])"
proof (induction ds arbitrary: subdir made)
  case Nil
  have "str_find CHR ''/'' [] = None" by (simp add: str_find_None)
  then show ?case by (subst make_dirs.simps) simp
next
  case (Cons d ds)
  have rest: "[1..<Suc (length (d # ds))] = 1 # map Suc [1..<Suc (length ds)]"
    by (simp add: map_Suc_upt upt_conv_Cons del: upt_Suc)
  have "str_find CHR ''/'' (concat (map (\<lambda>d. d @ ''/'') (d # ds))) = Some (length d)"
    using Cons.prems by (simp add: str_find_split)
  then have "make_dirs subdir (concat (map (\<lambda>d. d @ ''/'') (d # ds))) made =
      make_dirs (subdir @ d @ ''/'') (concat (map (\<lambda>d. d @ ''/'') ds)) (made @ [subdir @ d @ ''/''])"
    by (subst make_dirs.simps) (simp add: substr_def Let_def)
  then show ?case
    unfolding rest using Cons by (simp add: comp_def del: upt_Suc)
qed

lemma split_on_subset: "seg \<in> set (split_on c s) \<Longrightarrow> set seg \<subseteq> set s"
proof (induction s arbitrary: seg)
  case (Cons x xs)
  obtain t ts where "split_on c xs = t # ts" by (cases "split_on c xs") auto
  moreover have "set t \<subseteq> set xs" "\<And>seg. seg \<in> set ts \<Longrightarrow> set seg \<subseteq> set xs"
    using Cons.IH calculation by simp_all
  ultimately show ?case using Cons.prems by (fastforce split: if_splits)
qed simp


definition toy_ruby :: "string \<Rightarrow> string \<Rightarrow> t_ruby_generator" where
  "toy_ruby path ns =
     new_ruby_generator (Program ((new_program path)\<lparr>namespaces := [(''rb'', ns)]\<rparr>) [])
       (parse_options ''namespaced'' [])"


end
