(* ===== verification/GenFiles.thy ===== *)
theory GenFiles
  imports Emitters GenProps
begin

text \<open>
  The files that a run of the generator writes: the contract of a generator that puts the
  definitions of a program into one file and its constants into another, what the dispatch of
  the base class makes of it, and the Ruby generator as an instance.
\<close>

section \<open>Generators of two files\<close>

lemma sfor_track:
  assumes step: "\<And>x a s t. x \<in> set xs \<Longrightarrow> P a s \<Longrightarrow> f x s = (Inr (), t) \<Longrightarrow> P (a @ g x) t"
  shows "P a s \<Longrightarrow> sfor f xs s = (Inr (), t) \<Longrightarrow> P (a @ concat (map g xs)) t"
  using step
proof (induction xs arbitrary: a s)
  case Nil
  then show ?case by simp
next
  case (Cons x xs)
  obtain u where u: "f x s = (Inr (), u)" "sfor f xs u = (Inr (), t)"
    using Cons.prems(2) by (auto simp: sbind_eq_Inr)
  have "P (a @ g x) u" using Cons.prems(1,3) u(1) by auto
  from Cons.IH [OF this u(2)] Cons.prems(3) show ?case by auto
qed

lemma sfor_keeps:
  assumes "\<And>x s t. x \<in> set xs \<Longrightarrow> Q s \<Longrightarrow> f x s = (Inr (), t) \<Longrightarrow> Q t"
    and "Q s" "sfor f xs s = (Inr (), t)"
  shows "Q t"
  by (rule sfor_track [where P = "\<lambda>_. Q" and g = "\<lambda>_. []", OF _ assms(2,3)]) (rule assms(1))

text \<open>
  \<open>opened a b s\<close> says that the generator \<open>s\<close> has written \<open>a\<close> to its first and \<open>b\<close> to its
  second file after what it starts them with, \<open>closed\<close> the same for files that are complete.
\<close>

locale two_file_generator =
  fixes vm :: "'a t_generator_scheme virtual_methods"
    and fresh :: "'a t_generator_scheme \<Rightarrow> bool"
    and opened closed :: "string \<Rightarrow> string \<Rightarrow> 'a t_generator_scheme \<Rightarrow> bool"
    and enum_text :: "t_enum \<Rightarrow> string"
    and object_text :: "t_struct \<Rightarrow> string"
    and const_text :: "t_const \<Rightarrow> string"
  assumes on_init: "fresh s \<Longrightarrow> init_generator vm s = (Inr (), t) \<Longrightarrow> opened [] [] t"
    and on_enum: "opened a b s \<Longrightarrow> generate_enum vm e s = (Inr (), t) \<Longrightarrow> opened (a @ enum_text e) b t"
    and on_typedef: "opened a b s \<Longrightarrow> generate_typedef vm td s = (Inr (), t) \<Longrightarrow> opened a b t"
    and on_forward: "opened a b s \<Longrightarrow> generate_forward_declaration vm ob s = (Inr (), t) \<Longrightarrow> opened a b t"
    and on_xception: "opened a b s \<Longrightarrow> generate_xception vm ob s = (Inr (), t) \<Longrightarrow> opened (a @ object_text ob) b t"
    and on_struct: "opened a b s \<Longrightarrow> generate_struct vm ob s = (Inr (), t) \<Longrightarrow> opened (a @ object_text ob) b t"
    and on_const: "opened a b s \<Longrightarrow> generate_const vm c s = (Inr (), t) \<Longrightarrow> opened a (b @ const_text c) t"
    and on_service: "opened a b s \<Longrightarrow> generate_service vm sv s = (Inr (), t) \<Longrightarrow> opened a b t"
    and on_service_name: "opened a b s \<Longrightarrow> opened a b (s\<lparr>gn_service_name := n\<rparr>)"
    and on_close: "opened a b s \<Longrightarrow> close_generator vm s = (Inr (), t) \<Longrightarrow> closed a b t"
begin

text \<open>Whatever the generator, the dispatch writes enums before structs, both in their order.\<close>

lemma program_files:
  assumes "fresh s" "generate_program vm s = (Inr (), t)"
  defines "p \<equiv> the_program (gn_program s)"
  shows "closed (concat (map enum_text (enums p)) @ concat (map object_text (objects p)))
    (concat (map const_text (prog_consts p))) t"
proof -
  obtain s1 s2 s3 s4 s5 s6 s7 where run:
    "init_generator vm s = (Inr (), s1)"
    "sfor (generate_enum vm) (enums p) s1 = (Inr (), s2)"
    "sfor (generate_typedef vm) (typedefs p) s2 = (Inr (), s3)"
    "sfor (generate_forward_declaration vm) (objects p) s3 = (Inr (), s4)"
    "sfor (\<lambda>ob. if is_xception_flag ob then generate_xception vm ob else generate_struct vm ob)
       (objects p) s4 = (Inr (), s5)"
    "sfor (generate_const vm) (prog_consts p) s5 = (Inr (), s6)"
    "sfor (\<lambda>sv. sbind (set_service_name (svc_name sv)) (\<lambda>_. generate_service vm sv)) (services p) s6
       = (Inr (), s7)"
    "close_generator vm s7 = (Inr (), t)"
    using assms(2) unfolding generate_program_def sbind_sget Let_def p_def [symmetric] generate_consts_def
    by (auto simp only: sbind_unit_eq_Inr)
  let ?a = "concat (map enum_text (enums p))"
  let ?ab = "?a @ concat (map object_text (objects p))"
  have 1: "opened [] [] s1" using assms(1) run(1) by (rule on_init)
  have 2: "opened ?a [] s2"
    using sfor_track [where P = "\<lambda>a. opened a []" and a = "[]", OF on_enum 1 run(2)] by simp
  have 3: "opened ?a [] s3"
    by (rule sfor_keeps [where Q = "opened ?a []", OF _ 2 run(3)]) (rule on_typedef)
  have 4: "opened ?a [] s4"
    by (rule sfor_keeps [where Q = "opened ?a []", OF _ 3 run(4)]) (rule on_forward)
  have 5: "opened ?ab [] s5"
    by (rule sfor_track [where P = "\<lambda>a. opened a []", OF _ 4 run(5)])
       (auto split: if_splits intro: on_xception on_struct)
  have 6: "opened ?ab (concat (map const_text (prog_consts p))) s6"
    using sfor_track [where P = "opened ?ab" and a = "[]", OF on_const 5 run(6)] by simp
  have 7: "opened ?ab (concat (map const_text (prog_consts p))) s7"
    by (rule sfor_keeps [where Q = "opened ?ab (concat (map const_text (prog_consts p)))", OF _ 6 run(7)])
       (auto simp: sbind_unit_eq_Inr set_service_name_def intro: on_service on_service_name)
  show ?thesis using 7 run(8) by (rule on_close)
qed

end

section \<open>The Ruby generator\<close>

text \<open>The doc comments depend on the generator only through its own level.\<close>

lemma generate_rdoc_cong: "gn_indent s = gn_indent s' \<Longrightarrow> generate_rdoc s doc = generate_rdoc s' doc"
  by (cases doc) (simp_all add: generate_rdoc_def generate_docstring_comment_def indent_def)

lemma generate_enum_cong: "gn_indent s = gn_indent s' \<Longrightarrow> rb_generate_enum s e = rb_generate_enum s' e"
  by (simp add: rb_generate_enum_def generate_rdoc_cong [of s s'])

lemma generate_struct_cong:
  assumes "gn_indent s = gn_indent s'"
  shows "generate_rb_struct env s ob = generate_rb_struct env s' ob"
proof -
  have "generate_field_entry env s = generate_field_entry env s'"
    by (intro ext) (simp add: generate_field_entry_def generate_rdoc_cong [OF assms])
  then show ?thesis
    by (simp add: generate_rb_struct_def generate_field_defns_def generate_rdoc_cong [OF assms])
qed

definition types_head :: "gen_env \<Rightarrow> t_ruby_generator \<Rightarrow> string" where
  "types_head env s =
     rb_autogen_comment (env_version env) @ nl @ ''require '' @ sq @ ''sparsam'' @ sq @ nl
     @ render_includes s @ nl"

definition program_modules :: "program \<Rightarrow> string list" where
  "program_modules p = ruby_modules (get_namespace (the_program p) ''rb'')"

definition depth :: "program \<Rightarrow> int" where
  "depth p = int (length (program_modules p))"

definition module_lines :: "program \<Rightarrow> string" where
  "module_lines p = text_at 0 (begin_namespace (program_modules p))"

definition end_lines :: "program \<Rightarrow> string" where
  "end_lines p = text_at (depth p) (end_namespace (program_modules p))"

text \<open>
  The state between two definitions: both streams one level in for each module, with the head,
  the module lines and then \<open>a\<close> and \<open>b\<close> in them.
\<close>

definition consts_head :: "gen_env \<Rightarrow> t_ruby_generator \<Rightarrow> string" where
  "consts_head env s =
     rb_autogen_comment (env_version env) @ nl @ ''require '' @ sq @ ''sparsam'' @ sq @ nl
     @ ''require '' @ sq @ require_prefix s @ underscore (gn_program_name s) @ ''_types'' @ sq @ nl @ nl"

definition ruby_fresh :: "program \<Rightarrow> t_ruby_generator \<Rightarrow> bool" where
  "ruby_fresh p s \<longleftrightarrow> gn_program s = p \<and> gn_indent s = 0 \<and> f_types s = new_ofstream \<and> f_consts s = new_ofstream"

definition ruby_opened :: "gen_env \<Rightarrow> program \<Rightarrow> string \<Rightarrow> string \<Rightarrow> t_ruby_generator \<Rightarrow> bool" where
  "ruby_opened env p a b s \<longleftrightarrow> gn_program s = p \<and> gn_indent s = 0
     \<and> ofs_indent (f_types s) = depth p \<and> ofs_indent (f_consts s) = depth p
     \<and> contents (f_types s) = types_head env s @ module_lines p @ a
     \<and> contents (f_consts s) = consts_head env s @ module_lines p @ b"

definition ruby_closed :: "gen_env \<Rightarrow> program \<Rightarrow> string \<Rightarrow> string \<Rightarrow> t_ruby_generator \<Rightarrow> bool" where
  "ruby_closed env p a b s \<longleftrightarrow>
     ofs_indent (f_types s) = 0 \<and> ofs_indent (f_consts s) = 0
     \<and> contents (f_types s) = types_head env s @ module_lines p @ a @ end_lines p
     \<and> contents (f_consts s) = consts_head env s @ module_lines p @ b @ end_lines p"

lemma on_types_returns:
  assumes "on_types m s = (Inr x, t)" "emits k (m s)"
  shows "t = s\<lparr>f_types := f_types t\<rparr>" "ofs_indent (f_types t) = ofs_indent (f_types s) + k"
    "contents (f_types t) = contents (f_types s) @ text_at (ofs_indent (f_types s)) (m s)"
proof -
  obtain out where out: "m s (f_types s) = (Inr x, out)" "t = s\<lparr>f_types := out\<rparr>"
    using assms(1) by (auto simp: on_types_def split: prod.splits)
  then show "t = s\<lparr>f_types := f_types t\<rparr>" "ofs_indent (f_types t) = ofs_indent (f_types s) + k"
    "contents (f_types t) = contents (f_types s) @ text_at (ofs_indent (f_types s)) (m s)"
    using emits_text [OF assms(2) out(1)] by simp_all
qed

lemma on_consts_returns:
  assumes "on_consts m s = (Inr x, t)" "emits k (m s)"
  shows "t = s\<lparr>f_consts := f_consts t\<rparr>" "ofs_indent (f_consts t) = ofs_indent (f_consts s) + k"
    "contents (f_consts t) = contents (f_consts s) @ text_at (ofs_indent (f_consts s)) (m s)"
proof -
  obtain out where out: "m s (f_consts s) = (Inr x, out)" "t = s\<lparr>f_consts := out\<rparr>"
    using assms(1) by (auto simp: on_consts_def split: prod.splits)
  then show "t = s\<lparr>f_consts := f_consts t\<rparr>" "ofs_indent (f_consts t) = ofs_indent (f_consts s) + k"
    "contents (f_consts t) = contents (f_consts s) @ text_at (ofs_indent (f_consts s)) (m s)"
    using emits_text [OF assms(2) out(1)] by simp_all
qed

lemma text_at_after_str:
  assumes "emits k m"
  shows "text_at n (block [out_str a, m]) = a @ text_at n m"
proof -
  obtain r u where run: "m (stream_at n) = (r, u)" by (cases "m (stream_at n)")
  have "m (prepended (a, []) (stream_at n)) = (r, prepended (a, []) u)"
    using emitsD(1) [OF assms run] .
  moreover have "out_str a (stream_at n) = (Inr (), prepended (a, []) (stream_at n))"
    by (simp add: out_str_def prepended_def stream_at_def)
  ultimately show ?thesis
    using run by (cases r) (simp_all add: text_at_def block_def sbind_def prepended_def)
qed

lemma heads_cong [simp]:
  "types_head env (s\<lparr>f_types := out\<rparr>) = types_head env s" "types_head env (s\<lparr>f_consts := out\<rparr>) = types_head env s"
  "consts_head env (s\<lparr>f_types := out\<rparr>) = consts_head env s" "consts_head env (s\<lparr>f_consts := out\<rparr>) = consts_head env s"
  "types_head env (s\<lparr>gn_service_name := n\<rparr>) = types_head env s"
  "consts_head env (s\<lparr>gn_service_name := n\<rparr>) = consts_head env s"
  by (simp_all add: types_head_def consts_head_def render_includes_def)

lemma open_files_keeps:
  "open_files s = (Inr (), t) \<Longrightarrow> gn_program t = gn_program s \<and> gn_indent t = gn_indent s
     \<and> f_types t = f_types s \<and> f_consts t = f_consts s"
  by (auto simp: open_files_def Let_def split: if_splits prod.splits)

lemma own_modules: "gn_program s = p \<Longrightarrow> ruby_modules (own_namespace s) = program_modules p"
  by (simp add: own_namespace_def program_modules_def)

lemma emits_opening: "emits (depth p) (block [out_str a, begin_namespace (program_modules p)])"
  unfolding depth_def by (rule emits_intros | simp)+

lemma ruby_init_opens:
  assumes fresh: "ruby_fresh p s" and run: "rb_init_generator env s = (Inr (), t)"
  shows "ruby_opened env p [] [] t"
proof -
  obtain s1 s2 where s1: "open_files s = (Inr (), s1)"
    and s2: "on_types (\<lambda>s. block [out_str (types_head env s), begin_namespace (ruby_modules (own_namespace s))]) s1
      = (Inr (), s2)"
    and t: "on_consts (\<lambda>s. block [out_str (consts_head env s), begin_namespace (ruby_modules (own_namespace s))]) s2
      = (Inr (), t)"
    using run unfolding rb_init_generator_def types_head_def consts_head_def
    by (auto simp only: sbind_unit_eq_Inr)
  have k1: "gn_program s1 = p" "gn_indent s1 = 0" "f_types s1 = new_ofstream" "f_consts s1 = new_ofstream"
    using open_files_keeps [OF s1] fresh by (simp_all add: ruby_fresh_def)
  note head_emits = emits_opening [of p]
  note in_types = on_types_returns [OF s2, unfolded own_modules [OF k1(1)], OF head_emits]
  have "gn_program s2 = p" by (subst in_types(1)) (simp add: k1)
  note in_consts = on_consts_returns [OF t, unfolded own_modules [OF this], OF head_emits]
  have ns: "emits (depth p) (begin_namespace (program_modules p))"
    unfolding depth_def by (rule emits_begin_namespace)
  have f_types: "f_types t = f_types s2" and f_consts: "f_consts s2 = f_consts s1"
    by (subst in_consts(1), simp) (subst in_types(1), simp)
  have heads: "types_head env t = types_head env s1" "consts_head env t = consts_head env s2"
    by (subst in_consts(1), subst in_types(1), simp) (subst in_consts(1), simp)
  have same: "gn_program t = p" "gn_indent t = 0"
    by (subst in_consts(1), subst in_types(1), simp add: k1)+
  show ?thesis
    using in_types(2,3) in_consts(2,3) same
    by (simp add: ruby_opened_def f_types f_consts heads k1 new_ofstream_def text_at_after_str [OF ns] module_lines_def)
qed

lemma ruby_closes:
  assumes opened: "ruby_opened env p a b s" and run: "rb_close_generator s = (Inr (), t)"
  shows "ruby_closed env p a b t"
proof -
  obtain s1 where s1: "on_types (\<lambda>s. end_namespace (ruby_modules (own_namespace s))) s = (Inr (), s1)"
    and t: "on_consts (\<lambda>s. end_namespace (ruby_modules (own_namespace s))) s1 = (Inr (), t)"
    using run unfolding rb_close_generator_def by (auto simp only: sbind_unit_eq_Inr)
  have p: "gn_program s = p" using opened by (simp add: ruby_opened_def)
  have ends: "emits (- depth p) (end_namespace (program_modules p))"
    unfolding depth_def by (rule emits_end_namespace)
  note in_types = on_types_returns [OF s1, unfolded own_modules [OF p], OF ends]
  have "gn_program s1 = p" by (subst in_types(1)) (simp add: p)
  note in_consts = on_consts_returns [OF t, unfolded own_modules [OF this], OF ends]
  have f: "f_types t = f_types s1" "f_consts s1 = f_consts s"
    "types_head env t = types_head env s" "consts_head env t = consts_head env s"
    by (subst in_consts(1), simp) (subst in_types(1), simp, (subst in_consts(1), subst in_types(1), simp)+)
  show ?thesis
    using in_types(2,3) in_consts(2,3) opened
    by (simp add: ruby_closed_def ruby_opened_def f end_lines_def)
qed

definition enum_def_text :: "program \<Rightarrow> t_enum \<Rightarrow> string" where
  "enum_def_text p e = text_at (depth p) (rb_generate_enum (new_generator p) e)"

definition struct_def_text :: "gen_env \<Rightarrow> program \<Rightarrow> t_struct \<Rightarrow> string" where
  "struct_def_text env p ob = text_at (depth p) (generate_rb_struct env (new_generator p) ob)"

definition const_def_text :: "gen_env \<Rightarrow> program \<Rightarrow> t_const \<Rightarrow> string" where
  "const_def_text env p c = text_at (depth p) (rb_generate_const env c)"

lemma ruby_opened_types:
  assumes "ruby_opened env p a b s" "on_types m s = (Inr (), t)" "emits 0 (m s)"
  shows "ruby_opened env p (a @ text_at (depth p) (m s)) b t"
proof -
  note in_types = on_types_returns [OF assms(2,3)]
  have f: "gn_program t = gn_program s" "gn_indent t = gn_indent s" "f_consts t = f_consts s"
    "types_head env t = types_head env s" "consts_head env t = consts_head env s"
    by (subst in_types(1), simp)+
  show ?thesis using assms(1) in_types(2,3) by (simp add: ruby_opened_def f)
qed

lemma ruby_opened_consts:
  assumes "ruby_opened env p a b s" "on_consts m s = (Inr (), t)" "emits 0 (m s)"
  shows "ruby_opened env p a (b @ text_at (depth p) (m s)) t"
proof -
  note in_consts = on_consts_returns [OF assms(2,3)]
  have f: "gn_program t = gn_program s" "gn_indent t = gn_indent s" "f_types t = f_types s"
    "types_head env t = types_head env s" "consts_head env t = consts_head env s"
    by (subst in_consts(1), simp)+
  show ?thesis using assms(1) in_consts(2,3) by (simp add: ruby_opened_def f)
qed

lemma ruby_opened_level: "ruby_opened env p a b s \<Longrightarrow> gn_indent s = gn_indent (new_generator p)"
  by (simp add: ruby_opened_def new_generator_def)

interpretation ruby: two_file_generator "ruby_methods env" "ruby_fresh p" "ruby_opened env p" "ruby_closed env p"
  "enum_def_text p" "struct_def_text env p" "const_def_text env p" for env p
proof (unfold_locales, unfold ruby_methods_def virtual_methods.simps)
  show "ruby_fresh p s \<Longrightarrow> rb_init_generator env s = (Inr (), t) \<Longrightarrow> ruby_opened env p [] [] t" for s t
    by (rule ruby_init_opens)
  show "ruby_opened env p a b s \<Longrightarrow> on_types (\<lambda>s. rb_generate_enum s e) s = (Inr (), t) \<Longrightarrow>
      ruby_opened env p (a @ enum_def_text p e) b t" for a b s e t
    using ruby_opened_types [OF _ _ emits_rb_enum] generate_enum_cong [OF ruby_opened_level]
    by (fastforce simp: enum_def_text_def)
  have object: "ruby_opened env p a b s \<Longrightarrow> on_types (\<lambda>s. generate_rb_struct env s ob) s = (Inr (), t) \<Longrightarrow>
      ruby_opened env p (a @ struct_def_text env p ob) b t" for a b s ob t
    using ruby_opened_types [OF _ _ emits_rb_struct] generate_struct_cong [OF ruby_opened_level]
    by (fastforce simp: struct_def_text_def)
  show "ruby_opened env p a b s \<Longrightarrow> on_types (\<lambda>s. generate_rb_struct env s ob) s = (Inr (), t) \<Longrightarrow>
      ruby_opened env p (a @ struct_def_text env p ob) b t" for a b s ob t
    by (rule object)
  show "ruby_opened env p a b s \<Longrightarrow> on_types (\<lambda>s. generate_rb_struct env s ob) s = (Inr (), t) \<Longrightarrow>
      ruby_opened env p (a @ struct_def_text env p ob) b t" for a b s ob t
    by (rule object)
  show "ruby_opened env p a b s \<Longrightarrow> on_consts (\<lambda>s. rb_generate_const env c) s = (Inr (), t) \<Longrightarrow>
      ruby_opened env p a (b @ const_def_text env p c) t" for a b s c t
    using ruby_opened_consts [OF _ _ emits_rb_const] by (fastforce simp: const_def_text_def)
  show "ruby_opened env p a b s \<Longrightarrow> ruby_opened env p a b (s\<lparr>gn_service_name := n\<rparr>)" for a b s n
    by (simp add: ruby_opened_def)
  show "ruby_opened env p a b s \<Longrightarrow> rb_close_generator s = (Inr (), t) \<Longrightarrow> ruby_closed env p a b t" for a b s t
    by (rule ruby_closes)
qed simp_all

lemma fresh_ruby_generator:
  "ruby_fresh p (new_ruby_generator p opts)" "gn_program (new_ruby_generator p opts) = p"
  by (simp_all add: ruby_fresh_def new_ruby_generator_def t_generator.defs t_ruby_generator.defs new_generator_def)

text \<open>C8: When the generator returns, the types file is its head, the opening lines of the modules, the
enums and then the structs and exceptions, each group in the order of declaration, and the closing
lines; the constants are in the other file. What is written for a definition depends on nothing but
the definition and the number of modules around it, and both files end at the indentation they
started with.\<close>

theorem generated_text:
  assumes "generate_program (ruby_methods env) (new_ruby_generator p opts) = (Inr (), t)"
  shows "contents (f_types t) = types_head env t @ module_lines p
      @ concat (map (enum_def_text p) (enums (the_program p)))
      @ concat (map (struct_def_text env p) (objects (the_program p))) @ end_lines p
    \<and> contents (f_consts t) = consts_head env t @ module_lines p
      @ concat (map (const_def_text env p) (prog_consts (the_program p))) @ end_lines p
    \<and> ofs_indent (f_types t) = 0 \<and> ofs_indent (f_consts t) = 0"
  using ruby.program_files [OF fresh_ruby_generator(1) assms]
  by (simp_all add: ruby_closed_def fresh_ruby_generator(2))

definition toy_env :: gen_env where
  "toy_env = \<lparr>env_programs = (\<lambda>path. None), env_fuel = 5, env_version = ''1.0''\<rparr>"

definition toy_program :: program where
  "toy_program = Program ((new_program ''a.thrift'')\<lparr>namespaces := [(''rb'', ''x'')],
     prog_consts := [\<lparr>const_type = t_list (t_base_type ''i32'' TYPE_I32 False False), const_name = ''ks'',
       const_value = CV_LIST [CV_INTEGER 7], const_doc = None\<rparr>]\<rparr>) []"

lemma toy_program_parts:
  "enums (the_program toy_program) = []" "typedefs (the_program toy_program) = []"
  "objects (the_program toy_program) = []" "services (the_program toy_program) = []"
  by (simp_all add: toy_program_def new_program_def)

lemma true_type_direct: "0 < env_fuel env \<Longrightarrow> \<not> is_typedef ty \<Longrightarrow> true_type env ty = Inr ty"
  unfolding true_type_def by (metis get_true_type_direct gr0_implies_Suc)

lemma render_i32: "0 < env_fuel env \<Longrightarrow>
    render_const_value env (t_base_type n TYPE_I32 bin sl) (CV_INTEGER i) out = out_str (show_int i) out"
  by (subst render_const_value.simps) (simp add: true_type_direct render_base_def out_integer_def)

lemma toy_const: "fst (rb_generate_const toy_env (hd (prog_consts (the_program toy_program))) out) = Inr ()"
proof -
  have "0 < env_fuel toy_env" by (simp add: toy_env_def)
  note types = true_type_direct [OF this] render_i32 [OF this]
  have "fst (render_const_value toy_env (t_list (t_base_type ''i32'' TYPE_I32 False False)) (CV_LIST [CV_INTEGER 7]) out)
      = Inr ()" for out
    by (subst render_const_value.simps)
       (simp add: types bracketed_def entry_line_def block_def put_def out_indent_def out_indent_up_def
          out_indent_down_def out_str_def sbind_def)
  then show ?thesis
    by (simp add: rb_generate_const_def toy_program_def block_def put_def out_indent_def out_str_def
        sbind_def split: prod.split sum.split) (metis Inl_Inr_False fst_conv)
qed

lemma ends_return: "fst (sfor (\<lambda>m. block [out_indent_down, putl ''end'']) ms out) = Inr ()"
proof (induction ms arbitrary: out)
  case (Cons m ms)
  have "\<exists>t. block [out_indent_down, putl ''end''] out = (Inr (), t)"
    by (simp add: block_def putl_def put_def out_indent_def out_indent_down_def out_str_def sbind_def)
  then obtain t where "block [out_indent_down, putl ''end''] out = (Inr (), t)" by blast
  then show ?case using Cons.IH [of t] by (simp add: sbind_returns)
qed simp

lemma on_file_result:
  "fst (on_types m s) = fst (m s (f_types s))" "fst (on_consts m s) = fst (m s (f_consts s))"
  by (simp_all add: on_types_def on_consts_def split: prod.split)

lemma close_returns: "fst (rb_close_generator s) = Inr ()"
proof -
  let ?closing = "\<lambda>s. end_namespace (ruby_modules (own_namespace s))"
  have "fst (on_types ?closing s) = Inr ()" "fst (on_consts ?closing t) = Inr ()" for s t
    by (simp_all add: on_file_result end_namespace_def ends_return)
  moreover obtain t where "on_types ?closing s = (Inr (), t)"
    using calculation(1) [of s] by (cases "on_types ?closing s") simp
  ultimately show ?thesis by (simp add: rb_close_generator_def sbind_returns)
qed

lemma toy_run: "fst (generate_program (ruby_methods toy_env) (new_ruby_generator toy_program [])) = Inr ()"
proof -
  let ?c = "hd (prog_consts (the_program toy_program))"
  have "fst (rb_init_generator toy_env (new_ruby_generator toy_program [])) = Inr ()" by code_simp
  then obtain s1 where s1: "rb_init_generator toy_env (new_ruby_generator toy_program []) = (Inr (), s1)"
    by (metis prod.collapse)
  obtain s2 where s2: "on_consts (\<lambda>s. rb_generate_const toy_env ?c) s1 = (Inr (), s2)"
    using toy_const [of "f_consts s1"] by (cases "rb_generate_const toy_env ?c (f_consts s1)") (simp add: on_consts_def)
  have "prog_consts (the_program toy_program) = [?c]" by (simp add: toy_program_def)
  then have one: "sfor f (prog_consts (the_program toy_program)) = sbind (f ?c) (\<lambda>_. sret ())"
    for f :: "t_const \<Rightarrow> unit rb"
    by (metis sfor.simps)
  show ?thesis
    using close_returns [of s2]
    by (simp add: generate_program_def ruby_methods_def generate_consts_def fresh_ruby_generator(2)
        toy_program_parts one sbind_returns s1 s2)
qed

theorem generated_text_witness:
  "\<exists>t. generate_program (ruby_methods toy_env) (new_ruby_generator toy_program []) = (Inr (), t)
    \<and> contents (f_types t) = types_head toy_env t @ module_lines toy_program
        @ end_lines toy_program
    \<and> contents (f_consts t) = consts_head toy_env t @ ''module X'' @ nl
        @ ''  Ks = ['' @ nl @ ''    7,'' @ nl @ ''  ]'' @ nl @ nl @ ''end'' @ nl"
proof -
  let ?run = "generate_program (ruby_methods toy_env) (new_ruby_generator toy_program [])"
  obtain t where t: "?run = (Inr (), t)" using toy_run by (cases ?run) simp
  have parts: "module_lines toy_program
      @ concat (map (const_def_text toy_env toy_program) (prog_consts (the_program toy_program))) @ end_lines toy_program
      = ''module X'' @ nl @ ''  Ks = ['' @ nl @ ''    7,'' @ nl @ ''  ]'' @ nl @ nl @ ''end'' @ nl"
    by code_simp
  show ?thesis
    using t generated_text [OF t] parts by (simp add: toy_program_parts)
qed

end
