(* ===== verification/Compiler.thy ===== *)
theory Compiler
  imports DriverProps GenFiles
begin

text \<open>
  The compiler put together: the driver of \<^verbatim>\<open>main.cc\<close> with the Ruby generator in its
  registry.
\<close>

section \<open>The registered generator\<close>

text \<open>The pointers of the types of a program lead into its tree of includes.\<close>

definition tree_env :: "nat \<Rightarrow> string \<Rightarrow> program \<Rightarrow> gen_env" where
  "tree_env fuel ver p =
     \<lparr>env_programs = (\<lambda>path. find (\<lambda>q. prog_path q = path) (program_tree p)),
      env_fuel = fuel, env_version = ver\<rparr>"

definition ruby_registry ::
  "nat \<Rightarrow> string \<Rightarrow> program \<Rightarrow> ((cxx_error + unit) \<times> (string \<times> string) list) gen_registry" where
  "ruby_registry fuel ver p =
     (case register_generator (ruby_factory (tree_env fuel ver p)) [] of Inl e \<Rightarrow> [] | Inr m \<Rightarrow> m)"

definition with_ruby :: "nat \<Rightarrow> host \<Rightarrow> host" where
  "with_ruby fuel h = h\<lparr>
     get_generator := (\<lambda>p gen. Inr (registry_get_generator (ruby_registry fuel (THRIFT_VERSION h) p) p gen)),
     generator_docs := map (\<lambda>(name, fac). (name, long_name fac, documentation fac))
       (ruby_registry fuel (THRIFT_VERSION h) (Program (new_program []) []))\<rparr>"

lemma ruby_registry_eq: "ruby_registry fuel ver p = [(''ruby'', ruby_factory (tree_env fuel ver p))]"
  by (simp add: ruby_registry_def register_generator_def ruby_factory_def)

lemma get_ruby:
  "get_generator (with_ruby fuel h) p (''ruby:'' @ opts) =
     Inr (Some (run_ruby (tree_env fuel (THRIFT_VERSION h) p) p (parse_options opts [])))"
  using str_find_split [of "CHR '':''" "''ruby''" opts]
  by (simp add: with_ruby_def ruby_registry_eq registry_get_generator_def ruby_factory_def substr_def)

section \<open>Running it\<close>

lemma pverbose_prints: "\<exists>out. pverbose msg g = (Inr (), g\<lparr>printed := printed g @ out\<rparr>)"
  using messages_only_print(3) unfolding only_prints_def by blast

definition error_line :: "cxx_error + unit \<Rightarrow> (stream \<times> string) list" where
  "error_line r =
     (case r of Inl (Throw m) \<Rightarrow> [(Stdout, ''Error: '' @ m @ nl)]
      | Inl (ThrowCString m) \<Rightarrow> [(Stdout, ''Error: '' @ m @ nl)] | _ \<Rightarrow> [])"

text \<open>An outcome that the handlers of \<^verbatim>\<open>generate\<close> turn into a message.\<close>

definition handled :: "cxx_error + unit \<Rightarrow> bool" where
  "handled r \<longleftrightarrow> (case r of Inr _ \<Rightarrow> True | Inl (Throw m) \<Rightarrow> True | Inl (ThrowCString m) \<Rightarrow> True | _ \<Rightarrow> False)"

lemma generate_one_ruby:
  assumes run: "run_ruby (tree_env fuel (THRIFT_VERSION h) p) p (parse_options opts []) = (r, files)"
  shows "\<exists>out. generate_one (with_ruby fuel h) p (''ruby:'' @ opts) g =
    (r, g\<lparr>printed := printed g @ out, written := written g @ files\<rparr>)"
proof -
  let ?gen = "''ruby:'' @ opts"
  let ?msg = "''Generating code with arg '' @ dq @ ?gen @ dq @ '' for '' @ prog_path (the_program p) @ nl"
  obtain out where out: "pverbose ?msg g = (Inr (), g\<lparr>printed := printed g @ out\<rparr>)"
    using pverbose_prints by blast
  show ?thesis
    unfolding generate_one_def get_ruby sbind_slift_Inr run option.case prod.case
    by (rule exI [of _ out], rule sbind_then, rule out) (simp add: sbind_returns)
qed


text \<open>A constant of type void: the parser lets it through, the generator throws.\<close>

definition void_program :: program where
  "void_program = Program ((new_program ''v.thrift'')\<lparr>prog_consts :=
     [\<lparr>const_type = t_base_type ''void'' TYPE_VOID False False, const_name = ''v'',
       const_value = CV_INTEGER 1, const_doc = None\<rparr>]\<rparr>) []"

lemma void_run:
  "\<exists>files. run_ruby (tree_env 5 ''1.0'' void_program) void_program []
     = (Inl (Throw ''compiler error: no const of base type void''), files)"
proof -
  let ?env = "tree_env 5 ''1.0'' void_program"
  let ?c = "hd (prog_consts (the_program void_program))"
  have "fst (rb_init_generator ?env (new_ruby_generator void_program [])) = Inr ()" by code_simp
  then obtain s1 where s1: "rb_init_generator ?env (new_ruby_generator void_program []) = (Inr (), s1)"
    by (metis prod.collapse)
  have "0 < env_fuel ?env" by (simp add: tree_env_def)
  note types = true_type_direct [OF this]
  have "fst (rb_generate_const ?env ?c out) = Inl (Throw ''compiler error: no const of base type void'')" for out
    by (subst void_program_def)
       (simp add: rb_generate_const_def block_def put_def out_indent_def out_str_def render_const_value.simps
          types render_base_def sbind_def)
  then obtain s2 where s2: "on_consts (\<lambda>s. rb_generate_const ?env ?c) s1
      = (Inl (Throw ''compiler error: no const of base type void''), s2)"
    using on_file_result(2) [of "\<lambda>s. rb_generate_const ?env ?c" s1] by (metis prod.collapse)
  have parts: "prog_consts (the_program void_program) = [?c]" "enums (the_program void_program) = []"
    "typedefs (the_program void_program) = []" "objects (the_program void_program) = []"
    by (simp_all add: void_program_def new_program_def)
  have one: "sfor f (prog_consts (the_program void_program)) = sbind (f ?c) (\<lambda>_. sret ())"
    for f :: "t_const \<Rightarrow> unit rb"
    using parts(1) by (metis sfor.simps)
  have "generate_program (ruby_methods ?env) (new_ruby_generator void_program [])
      = (Inl (Throw ''compiler error: no const of base type void''), s2)"
    by (simp add: generate_program_def ruby_methods_def generate_consts_def Let_def fresh_ruby_generator(2)
        parts(2-) one sbind_returns sbind_raises s1 s2)
  then show ?thesis by (simp add: run_ruby_def)
qed

definition bare_host :: host where
  "bare_host = toy_host (\<lambda>f. None)"


end
