(* ===== verification/RubyGenRW.thy ===== *)
theory RubyGenRW
  imports Emitters
begin

text \<open>
  The part of the Ruby generator that the class still has but no longer calls, as Ruby code
  does its work at load time (\<^verbatim>\<open>t_ruby_generator.cc\<close>): the initializer, accessors and
  constants of fields, and the readers and writers of structs.
\<close>

section \<open>Initializers, constants and accessors\<close>

definition generate_initialize :: "t_struct \<Rightarrow> unit emit" where
  "generate_initialize tstruct =
     block [putl ''def initialize(d=nil, &block)'', out_indent_up,
       putl (''@my_type = ::Sparsam::Native::'' @ (if is_union tstruct then ''UNION'' else ''STRUCT'')),
       putl ''@thrift_field_map = {}'', putl ''super'', out_indent_down, putl ''end'']"

definition generate_field_constants :: "t_struct \<Rightarrow> unit emit" where
  "generate_field_constants tstruct =
     block [sfor (\<lambda>f. putl (upcase_string (field_name f) @ '' = '' @ show_int (field_key f)))
              (members tstruct),
       out_str nl]"

text \<open>The two branches of an accessor of a union: the field is set, or it is not.\<close>

definition union_branches :: "string \<Rightarrow> unit emit \<Rightarrow> string \<Rightarrow> unit emit" where
  "union_branches condition body name =
     block [putl condition, out_indent_up, body, out_indent_down, putl ''else'', out_indent_up,
       putl (''Raise RuntimeError, '' @ dq @ name @ '' is not set in this union'' @ dq),
       out_indent_down, putl ''end'']"

definition generate_field_accessors :: "t_struct \<Rightarrow> unit emit" where
  "generate_field_accessors tstruct =
     sfor (\<lambda>f. let name = field_name f; up = upcase_string name in
       block [putl (''def '' @ name), out_indent_up,
         (if is_union tstruct
          then union_branches (''if :'' @ name @ '' == @setfield'') (putl (''@thrift_field_map['' @ up @ '']'')) name
          else putl (''thrift_field_map['' @ up @ '']'')),
         out_indent_down, putl ''end'',
         putl (''def '' @ name @ ''=(value)''), out_indent_up,
         (if is_union tstruct
          then union_branches (''if @setfield == nil || :'' @ name @ '' == @setfield'')
            (block [putl (''@setfield = :'' @ name), putl (''thrift_field_map['' @ up @ ''] = value'')]) name
          else putl (''thrift_field_map['' @ up @ ''] = value'')),
         out_indent_down, putl ''end'']) (members tstruct)"

section \<open>Readers\<close>

fun base_method :: "t_base \<Rightarrow> bool \<Rightarrow> string" where
  "base_method TYPE_STRING bin = (if bin then ''Binary'' else ''String'')"
| "base_method TYPE_BOOL bin = ''Bool''"
| "base_method TYPE_BYTE bin = ''Byte''"
| "base_method TYPE_I16 bin = ''I16''"
| "base_method TYPE_I32 bin = ''I32''"
| "base_method TYPE_I64 bin = ''I64''"
| "base_method TYPE_DOUBLE bin = ''Double''"
| "base_method TYPE_VOID bin = []"

text \<open>
  What goes around the elements of a container: the call that begins it, the empty container,
  and its kind.
\<close>

fun container_begin :: "t_type \<Rightarrow> unit emit" where
  "container_begin (t_map k v) =
     block [putl ''ktype, vtype, num = sparsam.read_MapBegin()'', putl ''container = {}'']"
| "container_begin (t_set e) =
     block [putl ''type, num = sparsam.read_SetBegin()'', putl ''container = Set.new'']"
| "container_begin (t_list e) =
     block [putl ''type, num = sparsam.read_ListBegin()'', putl ''container = []'']"
| "container_begin _ = sret ()"

fun container_kind :: "t_type \<Rightarrow> string" where
  "container_kind (t_map k v) = ''Map''"
| "container_kind (t_set e) = ''Set''"
| "container_kind (t_list e) = ''List''"
| "container_kind _ = []"

text \<open>
  \<^verbatim>\<open>generate_deserialize_field\<close> and \<^verbatim>\<open>generate_deserialize_container\<close>. An enum
  is taken for a base type and its memory read as one.
\<close>

fun generate_deserialize_field :: "nat \<Rightarrow> gen_env \<Rightarrow> string \<Rightarrow> t_type \<Rightarrow> unit emit" where
  "generate_deserialize_field 0 env to_field f_type = sraise Endless"
| "generate_deserialize_field (Suc fuel) env to_field f_type =
     sbind (slift (true_type env f_type)) (\<lambda>ty.
     let item = generate_deserialize_field fuel env;
         container = (\<lambda>body. block [container_begin ty, putl ''for i in (0..(num-1))'', out_indent_up, body,
           out_indent_down, putl ''end'', putl (''sparsam.read_'' @ container_kind ty @ ''End()''),
           put (to_field @ '' = container'')]) in
     sbind
       (case ty of
          t_struct_type s \<Rightarrow> put (to_field @ '' = '' @ get_name f_type @ ''.read(sparsam)'')
        | t_map k v \<Rightarrow> container (block [item ''k'' k, item ''v'' v, putl ''container[k] = v''])
        | t_set e \<Rightarrow> container (block [item ''item'' e, putl ''container.add(item)''])
        | t_list e \<Rightarrow> container (block [item ''item'' e, putl ''container.push(item)''])
        | t_base_type n b bin sl \<Rightarrow>
            if b = TYPE_VOID then sraise (ThrowCString ''compiler error: cannot serialize void field in a struct'')
            else put (to_field @ '' = sparsam.read_'' @ base_method b (is_binary ty) @ ''()'')
        | t_enum_type e \<Rightarrow> sraise Undefined
        | _ \<Rightarrow> out_printf (''DO NOT KNOW HOW TO DESERIALIZE FIELD of TYPE '' @ sq @ type_name ty @ sq @ nl))
       (\<lambda>_. out_str nl))"

definition generate_reader :: "gen_env \<Rightarrow> t_struct \<Rightarrow> unit emit" where
  "generate_reader env tstruct =
     block [putl ''def self.read(sparsam)'', out_indent_up,
       putl (''obj = '' @ struct_name tstruct @ ''.new''),
       putl ''sparsam.read_StructBegin()'', putl ''field_storage = [0,0]'',
       putl ''while true do'', out_indent_up,
       putl ''field_storage = sparsam.read_FieldBegin(field_storage)'',
       putl ''if field_storage[0] == ::Sparsam::Types::STOP then'', out_indent_up,
       putl ''break'', out_indent_down, putl ''end'',
       putl ''case field_storage[1]'',
       sfor (\<lambda>f. let up = upcase_string (field_name f) in
         block [putl (''when '' @ up), out_indent_up,
           (if is_union tstruct then putl (''obj.setfield = :'' @ field_name f) else sret ()),
           generate_deserialize_field (env_fuel env) env (''obj.thrift_field_map['' @ up @ '']'') (field_type f),
           out_indent_down]) (members tstruct),
       putl ''end'', putl ''sparsam.read_FieldEnd()'',
       out_indent_down, putl ''end'',
       putl ''sparsam.read_StructEnd()'', putl ''return obj'', out_indent_down, putl (''end'' @ nl)]"

section \<open>Writers\<close>

definition generate_serialize_struct :: "string \<Rightarrow> unit emit" where
  "generate_serialize_struct name = putl (name @ ''.write(sparsam)'')"

text \<open>
  \<^verbatim>\<open>_generate_serialize_field\<close> with the functions for containers and map elements. Only
  the type of a field goes through \<^verbatim>\<open>get_true_type\<close>, the types of elements do not.
\<close>

fun serialize_value :: "gen_env \<Rightarrow> t_type \<Rightarrow> string \<Rightarrow> unit emit" where
  "serialize_value env (t_struct_type s) name = generate_serialize_struct name"
| "serialize_value env (t_map k v) name =
     sbind (slift (type_to_enum env k)) (\<lambda>kt.
     sbind (slift (type_to_enum env v)) (\<lambda>vt.
     block [putl (''sparsam.write_MapBegin('' @ kt @ '', '' @ vt @ '', '' @ name @ ''.length)''),
       putl (name @ ''.each { |key, value|''), out_indent_up,
       serialize_value env k ''key'', serialize_value env v ''value'',
       out_indent_down, putl ''}'', putl ''sparsam.write_MapEnd()'']))"
| "serialize_value env (t_set e) name =
     sbind (slift (type_to_enum env e)) (\<lambda>et.
     block [putl (''sparsam.write_SetBegin('' @ et @ '', '' @ name @ ''.length)''),
       putl (name @ ''.each { |item|''), out_indent_up, serialize_value env e ''item'',
       out_indent_down, putl ''}'', putl ''sparsam.write_SetEnd()''])"
| "serialize_value env (t_list e) name =
     sbind (slift (type_to_enum env e)) (\<lambda>et.
     block [putl (''sparsam.write_ListBegin('' @ et @ '', '' @ name @ ''.length)''),
       putl (name @ ''.each { |item|''), out_indent_up, serialize_value env e ''item'',
       out_indent_down, putl ''}'', putl ''sparsam.write_ListEnd()''])"
| "serialize_value env (t_base_type n b bin sl) name =
     (if b = TYPE_VOID then sraise (Throw (''CANNOT GENERATE SERIALIZE CODE FOR void TYPE: '' @ name))
      else putl (''sparsam.write_'' @ base_method b (b = TYPE_STRING \<and> bin) @ ''('' @ name @ '')''))"
| "serialize_value env (t_enum_type e) name = putl (''sparsam.write_I32('' @ name @ '')'')"
| "serialize_value env (t_typedef p n t) name =
     out_printf (''DO NOT KNOW HOW TO SERIALIZE FIELD '' @ sq @ name @ sq @ '' TYPE '' @ sq
       @ type_name (t_typedef p n t) @ sq @ nl)"

definition generate_serialize_field :: "gen_env \<Rightarrow> t_field \<Rightarrow> unit emit" where
  "generate_serialize_field env f =
     sbind (slift (true_type env (field_type f))) (\<lambda>ty.
     sbind (slift (type_to_enum env ty)) (\<lambda>te.
     block [putl (''sparsam.write_FieldBegin('' @ te @ '', '' @ show_int (field_key f) @ '')''),
       serialize_value env ty (''@thrift_field_map['' @ upcase_string (field_name f) @ '']''),
       putl ''sparsam.write_FieldEnd()'']))"

definition generate_writer :: "gen_env \<Rightarrow> t_struct \<Rightarrow> unit emit" where
  "generate_writer env tstruct =
     block [putl ''def write(sparsam)'', out_indent_up, putl ''sparsam.write_StructBegin()'',
       sfor (\<lambda>f. block [putl (''if @thrift_field_map.has_key?('' @ upcase_string (field_name f) @ '') then''),
           out_indent_up, generate_serialize_field env f, out_indent_down, putl ''end'']) (members tstruct),
       putl ''sparsam.write_FieldStop()'', putl ''sparsam.write_StructEnd()'',
       out_indent_down, putl (''end'' @ nl)]"

section \<open>They are emitters, too\<close>

lemma emits_initialize: "emits 0 (generate_initialize tstruct)"
  unfolding generate_initialize_def by (rule emits_intros | simp)+

lemma emits_field_constants: "emits 0 (generate_field_constants tstruct)"
  unfolding generate_field_constants_def by (rule emits_intros | simp)+

lemma emits_union_branches [emits_intros]: "emits 0 body \<Longrightarrow> emits 0 (union_branches condition body name)"
  unfolding union_branches_def by (rule emits_intros | assumption | simp)+

lemma emits_field_accessors: "emits 0 (generate_field_accessors tstruct)"
  unfolding generate_field_accessors_def Let_def by (rule emits_intros | simp)+

lemma emits_container_begin [emits_intros]: "emits 0 (container_begin ty)"
  by (cases ty) ((simp only: container_begin.simps; (rule emits_intros | simp)+)+)

lemma emits_deserialize_field [emits_intros]: "emits 0 (generate_deserialize_field fuel env to_field ty)"
proof (induction fuel arbitrary: to_field ty)
  case 0
  show ?case unfolding generate_deserialize_field.simps by (rule emits_raise)
next
  case (Suc fuel)
  show ?case
    unfolding generate_deserialize_field.simps Let_def
    by (rule emits_lift, rename_tac t, case_tac t; simp only: t_type.case;
        (rule emits_intros Suc.IH | simp)+)
qed

lemma emits_reader: "emits 0 (generate_reader env tstruct)"
  unfolding generate_reader_def Let_def by (rule emits_intros | simp)+

lemma emits_serialize_value [emits_intros]: "emits 0 (serialize_value env ty name)"
proof (induction env ty name rule: serialize_value.induct)
  case (1 env s name)
  show ?case unfolding serialize_value.simps generate_serialize_struct_def by (rule emits_putl)
next
  case (2 env k v name)
  show ?case unfolding serialize_value.simps by (rule emits_intros 2 | simp)+
next
  case (3 env e name)
  show ?case unfolding serialize_value.simps by (rule emits_intros 3 | simp)+
next
  case (4 env e name)
  show ?case unfolding serialize_value.simps by (rule emits_intros 4 | simp)+
qed (unfold serialize_value.simps, (rule emits_intros)+)

lemma emits_serialize_field [emits_intros]: "emits 0 (generate_serialize_field env f)"
  unfolding generate_serialize_field_def by (rule emits_intros | simp)+

lemma emits_writer: "emits 0 (generate_writer env tstruct)"
  unfolding generate_writer_def by (rule emits_intros | simp)+

text \<open>
  Two faults of this code: the reader of an enum field reads the enum object as a base type,
  and the writer of a container whose elements have a typedef'd type writes no element.
\<close>

lemma enum_field_undefined:
  assumes "true_type env ty = Inr (t_enum_type e)"
  shows "generate_deserialize_field (Suc fuel) env to_field ty out = (Inl Undefined, out)"
  using assms by (simp add: sbind_def)

lemma typedef_element_not_written:
  "contents (snd (serialize_value env (t_typedef p n t) name out)) = contents out"
  by (simp add: out_printf_def)

end
