(* ===== verification/Md5.thy ===== *)
theory Md5
  imports Prelude
begin

unbundle bit_operations_syntax

text \<open>
  The MD5 digest (\<^verbatim>\<open>md5.c\<close>): the compression of a block of 64 bytes over 32-bit words that
  wrap around, and the streaming interface, which buffers what does not fill a block. The
  words of a block are read as the portable branch of the code reads them, which is what the
  little-endian branch sees in memory.
\<close>

section \<open>The compression function\<close>

type_synonym md5_word = "32 word"
type_synonym md5_byte = "8 word"
type_synonym abcd = "md5_word \<times> md5_word \<times> md5_word \<times> md5_word"

definition T_MASK :: md5_word where
  "T_MASK = NOT 0"

definition ROTATE_LEFT :: "md5_word \<Rightarrow> nat \<Rightarrow> md5_word" where
  "ROTATE_LEFT x n = push_bit n x OR drop_bit (32 - n) x"

definition md5_F :: "md5_word \<Rightarrow> md5_word \<Rightarrow> md5_word \<Rightarrow> md5_word" where
  "md5_F x y z = ((x AND y) OR (NOT x AND z))"

definition md5_G :: "md5_word \<Rightarrow> md5_word \<Rightarrow> md5_word \<Rightarrow> md5_word" where
  "md5_G x y z = ((x AND z) OR (y AND NOT z))"

definition md5_H :: "md5_word \<Rightarrow> md5_word \<Rightarrow> md5_word \<Rightarrow> md5_word" where
  "md5_H x y z = (x XOR y XOR z)"

definition md5_I :: "md5_word \<Rightarrow> md5_word \<Rightarrow> md5_word \<Rightarrow> md5_word" where
  "md5_I x y z = (y XOR (x OR NOT z))"

text \<open>The operations of each round: the word of the block, the rotation and the constant.\<close>

definition md5_round1 :: "(nat \<times> nat \<times> md5_word) list" where
  "md5_round1 =
    [(0, 7, T_MASK XOR 0x28955b87), (1, 12, T_MASK XOR 0x173848a9),
     (2, 17, 0x242070db), (3, 22, T_MASK XOR 0x3e423111),
     (4, 7, T_MASK XOR 0x0a83f050), (5, 12, 0x4787c62a),
     (6, 17, T_MASK XOR 0x57cfb9ec), (7, 22, T_MASK XOR 0x02b96afe),
     (8, 7, 0x698098d8), (9, 12, T_MASK XOR 0x74bb0850),
     (10, 17, T_MASK XOR 0x0000a44e), (11, 22, T_MASK XOR 0x76a32841),
     (12, 7, 0x6b901122), (13, 12, T_MASK XOR 0x02678e6c),
     (14, 17, T_MASK XOR 0x5986bc71), (15, 22, 0x49b40821)]"

definition md5_round2 :: "(nat \<times> nat \<times> md5_word) list" where
  "md5_round2 =
    [(1, 5, T_MASK XOR 0x09e1da9d), (6, 9, T_MASK XOR 0x3fbf4cbf),
     (11, 14, 0x265e5a51), (0, 20, T_MASK XOR 0x16493855),
     (5, 5, T_MASK XOR 0x29d0efa2), (10, 9, 0x02441453),
     (15, 14, T_MASK XOR 0x275e197e), (4, 20, T_MASK XOR 0x182c0437),
     (9, 5, 0x21e1cde6), (14, 9, T_MASK XOR 0x3cc8f829),
     (3, 14, T_MASK XOR 0x0b2af278), (8, 20, 0x455a14ed),
     (13, 5, T_MASK XOR 0x561c16fa), (2, 9, T_MASK XOR 0x03105c07),
     (7, 14, 0x676f02d9), (12, 20, T_MASK XOR 0x72d5b375)]"

definition md5_round3 :: "(nat \<times> nat \<times> md5_word) list" where
  "md5_round3 =
    [(5, 4, T_MASK XOR 0x0005c6bd), (8, 11, T_MASK XOR 0x788e097e),
     (11, 16, 0x6d9d6122), (14, 23, T_MASK XOR 0x021ac7f3),
     (1, 4, T_MASK XOR 0x5b4115bb), (4, 11, 0x4bdecfa9),
     (7, 16, T_MASK XOR 0x0944b49f), (10, 23, T_MASK XOR 0x4140438f),
     (13, 4, 0x289b7ec6), (0, 11, T_MASK XOR 0x155ed805),
     (3, 16, T_MASK XOR 0x2b10cf7a), (6, 23, 0x04881d05),
     (9, 4, T_MASK XOR 0x262b2fc6), (12, 11, T_MASK XOR 0x1924661a),
     (15, 16, 0x1fa27cf8), (2, 23, T_MASK XOR 0x3b53a99a)]"

definition md5_round4 :: "(nat \<times> nat \<times> md5_word) list" where
  "md5_round4 =
    [(0, 6, T_MASK XOR 0x0bd6ddbb), (7, 10, 0x432aff97),
     (14, 15, T_MASK XOR 0x546bdc58), (5, 21, T_MASK XOR 0x036c5fc6),
     (12, 6, 0x655b59c3), (3, 10, T_MASK XOR 0x70f3336d),
     (10, 15, T_MASK XOR 0x00100b82), (1, 21, T_MASK XOR 0x7a7ba22e),
     (8, 6, 0x6fa87e4f), (15, 10, T_MASK XOR 0x01d3191f),
     (6, 15, T_MASK XOR 0x5cfebceb), (13, 21, 0x4e0811a1),
     (4, 6, T_MASK XOR 0x08ac817d), (11, 10, T_MASK XOR 0x42c50dca),
     (2, 15, 0x2ad7d2bb), (9, 21, T_MASK XOR 0x14792c6e)]"

text \<open>
  \<^verbatim>\<open>SET(a, b, c, d, k, s, Ti)\<close>. The next operation is on the registers \<^verbatim>\<open>d, a, b, c\<close>, so
  the tuple is turned; after every fourth operation it is in order again.
\<close>

definition md5_set ::
  "(md5_word \<Rightarrow> md5_word \<Rightarrow> md5_word \<Rightarrow> md5_word) \<Rightarrow> (nat \<Rightarrow> md5_word) \<Rightarrow> abcd \<Rightarrow> nat \<times> nat \<times> md5_word \<Rightarrow> abcd" where
  "md5_set f X = (\<lambda>(a, b, c, d) (k, s, Ti).
     let t = a + f b c d + X k + Ti in (d, ROTATE_LEFT t s + b, b, c))"

definition md5_X :: "md5_byte list \<Rightarrow> nat \<Rightarrow> md5_word" where
  "md5_X data i =
     (let xp = drop (4 * i) data in
      ucast (xp ! 0) + push_bit 8 (ucast (xp ! 1)) + push_bit 16 (ucast (xp ! 2)) + push_bit 24 (ucast (xp ! 3)))"

definition md5_process :: "abcd \<Rightarrow> md5_byte list \<Rightarrow> abcd" where
  "md5_process abcd data =
     (let X = md5_X data;
          r1 = foldl (md5_set md5_F X) abcd md5_round1;
          r2 = foldl (md5_set md5_G X) r1 md5_round2;
          r3 = foldl (md5_set md5_H X) r2 md5_round3;
          (a, b, c, d) = foldl (md5_set md5_I X) r3 md5_round4;
          (a0, b0, c0, d0) = abcd in
      (a0 + a, b0 + b, c0 + c, d0 + d))"

section \<open>Streaming\<close>

record md5_state =
  count0 :: md5_word
  count1 :: md5_word
  abcd :: abcd
  buf :: "md5_byte list"

text \<open>The contents of the buffer before its first use do not matter; here they are zero.\<close>

definition md5_init_abcd :: abcd where
  "md5_init_abcd = (0x67452301, T_MASK XOR 0x10325476, T_MASK XOR 0x67452301, 0x10325476)"

definition md5_init :: md5_state where
  "md5_init = \<lparr>count0 = 0, count1 = 0, abcd = md5_init_abcd, buf = replicate 64 0\<rparr>"

text \<open>\<^verbatim>\<open>memcpy\<close> into the buffer.\<close>

definition buf_write :: "md5_byte list \<Rightarrow> nat \<Rightarrow> md5_byte list \<Rightarrow> md5_byte list" where
  "buf_write b offset p = take offset b @ p @ drop (offset + length p) b"

text \<open>The loop over the full blocks, and what is left.\<close>

function md5_blocks :: "abcd \<Rightarrow> md5_byte list \<Rightarrow> abcd \<times> md5_byte list" where
  "md5_blocks h p = (if length p < 64 then (h, p) else md5_blocks (md5_process h (take 64 p)) (drop 64 p))"
  by pat_completeness auto
termination
  by (relation "measure (\<lambda>(h, p). length p)") auto

declare md5_blocks.simps [simp del]

definition append_rest :: "md5_state \<Rightarrow> md5_byte list \<Rightarrow> md5_state" where
  "append_rest st p =
     (case md5_blocks (abcd st) p of (h, left) \<Rightarrow> st\<lparr>abcd := h, buf := buf_write (buf st) 0 left\<rparr>)"

text \<open>
  \<^verbatim>\<open>nbytes << 3\<close> is on a signed 32-bit integer: from \<^verbatim>\<open>2 ^ 28\<close> bytes on it overflows,
  which C leaves undefined; it is taken to wrap around.
\<close>

definition md5_append :: "md5_state \<Rightarrow> md5_byte list \<Rightarrow> md5_state" where
  "md5_append st data =
     (let nbytes = length data;
          offset = unat (drop_bit 3 (count0 st) AND 63);
          nbits = word_of_nat (8 * nbytes) in
      if nbytes = 0 then st
      else
        (let c1 = count1 st + word_of_nat (drop_bit 29 nbytes);
             c0 = count0 st + nbits;
             c1 = (if c0 < nbits then c1 + 1 else c1);
             st = st\<lparr>count0 := c0, count1 := c1\<rparr> in
         if offset \<noteq> 0 then
           (let copy = (if 64 < offset + nbytes then 64 - offset else nbytes);
                st = st\<lparr>buf := buf_write (buf st) offset (take copy data)\<rparr> in
            if offset + copy < 64 then st
            else append_rest (st\<lparr>abcd := md5_process (abcd st) (buf st)\<rparr>) (drop copy data))
         else append_rest st data))"

text \<open>The bytes of a word, the least significant first.\<close>

definition word_bytes :: "md5_word \<Rightarrow> md5_byte list" where
  "word_bytes w = map (\<lambda>i. ucast (drop_bit (8 * i) w)) [0..<4]"

definition md5_pad :: "md5_byte list" where
  "md5_pad = 0x80 # replicate 63 0"

definition digest_of :: "abcd \<Rightarrow> md5_byte list" where
  "digest_of = (\<lambda>(a, b, c, d). word_bytes a @ word_bytes b @ word_bytes c @ word_bytes d)"

definition md5_finish :: "md5_state \<Rightarrow> md5_byte list" where
  "md5_finish st =
     (let data = word_bytes (count0 st) @ word_bytes (count1 st);
          padding = take (unat ((55 - drop_bit 3 (count0 st)) AND 63) + 1) md5_pad in
      digest_of (abcd (md5_append (md5_append st padding) data)))"

end
