(* ===== verification/Md5Props.thy ===== *)
theory Md5Props
  imports Md5
begin

unbundle bit_operations_syntax

text \<open>
  Correctness of the streaming interface of the digest: however a message is cut into pieces,
  the result is the compression folded over the blocks of the padded message.
\<close>

section \<open>Streamed digests\<close>

text \<open>
  The contract of a digest that is fed in pieces: a relation between its state and the message
  so far, which appending keeps for the pieces it accepts.
\<close>

locale streamed_digest =
  fixes start :: 's
    and feed :: "'s \<Rightarrow> 'b list \<Rightarrow> 's"
    and result :: "'s \<Rightarrow> 'd"
    and consumed :: "'s \<Rightarrow> 'b list \<Rightarrow> bool"
    and accepted :: "'b list \<Rightarrow> bool"
    and digest :: "'b list \<Rightarrow> 'd"
  assumes start: "consumed start []"
    and feed: "consumed s m \<Longrightarrow> accepted p \<Longrightarrow> consumed (feed s p) (m @ p)"
    and result: "consumed s m \<Longrightarrow> result s = digest m"
begin

lemma consumed_pieces: "consumed s m \<Longrightarrow> \<forall>p \<in> set ps. accepted p \<Longrightarrow> consumed (foldl feed s ps) (m @ concat ps)"
proof (induction ps arbitrary: s m)
  case (Cons p ps)
  from Cons.IH [OF feed [OF Cons.prems(1)], of p] Cons.prems(2) show ?case by simp
qed simp

lemma result_pieces: "\<forall>p \<in> set ps. accepted p \<Longrightarrow> result (foldl feed start ps) = digest (concat ps)"
  using result [OF consumed_pieces [OF start]] by simp

end

section \<open>Blocks\<close>

lemma md5_blocks_short: "length p < 64 \<Longrightarrow> md5_blocks h p = (h, p)"
  by (subst md5_blocks.simps) simp

lemma md5_blocks_full: "length b = 64 \<Longrightarrow> md5_blocks h (b @ p) = md5_blocks (md5_process h b) p"
  by (subst md5_blocks.simps) simp

lemma md5_blocks_append:
  "md5_blocks h (xs @ ys) = (case md5_blocks h xs of (h', left) \<Rightarrow> md5_blocks h' (left @ ys))"
proof (induction h xs rule: md5_blocks.induct)
  case (1 h xs)
  show ?case
  proof (cases "length xs < 64")
    case True
    then show ?thesis by (simp add: md5_blocks_short)
  next
    case False
    then have "length (take 64 xs) = 64" by simp
    from md5_blocks_full [OF this, of h "drop 64 xs @ ys"]
    have "md5_blocks h (xs @ ys) = md5_blocks (md5_process h (take 64 xs)) (drop 64 xs @ ys)"
      by (metis append_assoc append_take_drop_id)
    moreover have "md5_blocks h xs = md5_blocks (md5_process h (take 64 xs)) (drop 64 xs)"
      using False by (subst md5_blocks.simps) simp
    ultimately show ?thesis using 1 False by simp
  qed
qed

lemma md5_blocks_left: "length (snd (md5_blocks h p)) = length p mod 64"
proof (induction h p rule: md5_blocks.induct)
  case (1 h p)
  show ?case
  proof (cases "length p < 64")
    case True
    then show ?thesis by (simp add: md5_blocks_short)
  next
    case False
    then have "md5_blocks h p = md5_blocks (md5_process h (take 64 p)) (drop 64 p)"
      by (subst md5_blocks.simps) simp
    then show ?thesis using 1 False by (simp add: le_mod_geq)
  qed
qed

section \<open>The state after a message\<close>

text \<open>
  The bit count is kept modulo \<open>2 ^ 64\<close> in two words, the registers are those after the full
  blocks, and the buffer starts with the rest of the message.
\<close>

definition md5_consumed :: "md5_state \<Rightarrow> md5_byte list \<Rightarrow> bool" where
  "md5_consumed st msg \<longleftrightarrow>
     count0 st = word_of_nat (8 * length msg) \<and>
     count1 st = word_of_nat (drop_bit 32 (8 * length msg)) \<and>
     length (buf st) = 64 \<and>
     md5_blocks md5_init_abcd msg = (abcd st, take (length msg mod 64) (buf st))"

definition md5_piece :: "md5_byte list \<Rightarrow> bool" where
  "md5_piece p \<longleftrightarrow> length p < 2 ^ 28"

definition md5_digest :: "md5_byte list \<Rightarrow> md5_byte list" where
  "md5_digest msg =
     (let padded = msg @ [0x80] @ replicate (nat ((55 - int (length msg)) mod 64)) 0
            @ map (\<lambda>i. word_of_nat (drop_bit (8 * i) (8 * length msg))) [0..<8] in
      digest_of (fst (md5_blocks md5_init_abcd padded)))"

lemma md5_init_consumed: "md5_consumed md5_init []"
  by (simp add: md5_consumed_def md5_init_def md5_blocks_short)

lemma offset_bits: "unat (drop_bit 3 (word_of_nat k :: md5_word) AND 63) = take_bit 6 (drop_bit 3 (take_bit 32 k))"
proof -
  have "drop_bit 3 (word_of_nat k :: md5_word) AND 63 = take_bit 6 (drop_bit 3 (word_of_nat k))"
    by (simp add: take_bit_eq_mask mask_eq_exp_minus_1)
  then show ?thesis
    by (simp add: unsigned_take_bit_eq unsigned_drop_bit_eq unsigned_of_nat)
qed

lemma offset_eq: "unat (drop_bit 3 (word_of_nat (8 * n) :: md5_word) AND 63) = n mod 64"
proof -
  have "(8 * n mod 2 ^ 32) div 8 = n mod 2 ^ 29"
    by (simp add: mod_mult_mult1 [of 8 n "2 ^ 29", simplified])
  moreover have "n mod 2 ^ 29 mod 64 = n mod 64"
    by (simp add: mod_mod_cancel)
  ultimately show ?thesis
    unfolding offset_bits by (simp add: take_bit_eq_mod drop_bit_eq_div)
qed

text \<open>The carry into the upper word, for a piece that does not overflow the shift.\<close>

lemma count_carry:
  assumes "m < 2 ^ 32"
  shows "word_of_nat (drop_bit 32 (n + m)) =
    (if word_of_nat n + word_of_nat m < (word_of_nat m :: md5_word)
     then word_of_nat (drop_bit 32 n) + 1 else (word_of_nat (drop_bit 32 n) :: md5_word))"
proof -
  define lo where "lo = n mod 2 ^ 32"
  have lo: "lo < 2 ^ 32" and n: "n = 2 ^ 32 * (n div 2 ^ 32) + lo"
    by (simp_all add: lo_def)
  have "unat (word_of_nat n + word_of_nat m :: md5_word) = (lo + m) mod 2 ^ 32"
    by (simp add: unat_word_ariths unat_of_nat lo_def mod_simps)
  moreover have "unat (word_of_nat m :: md5_word) = m"
    using assms by (simp add: unat_of_nat)
  ultimately have carry: "word_of_nat n + word_of_nat m < (word_of_nat m :: md5_word) \<longleftrightarrow> (lo + m) mod 2 ^ 32 < m"
    by (simp add: word_less_nat_alt)
  have upper: "(n + m) div 2 ^ 32 = n div 2 ^ 32 + (lo + m) div 2 ^ 32"
  proof -
    have "n + m = (lo + m) + (n div 2 ^ 32) * 2 ^ 32" 
      using mod_div_mult_eq [of n "2 ^ 32"] unfolding lo_def by (metis add.commute add.left_commute)
    then show ?thesis by (simp only: div_mult_self1) simp
  qed
  show ?thesis
  proof (cases "lo + m < 2 ^ 32")
    case True
    then show ?thesis using carry upper by (simp add: drop_bit_eq_div)
  next
    case False
    then have "(lo + m) div 2 ^ 32 = 1" "(lo + m) mod 2 ^ 32 = lo + m - 2 ^ 32"
      using lo assms by (simp_all add: div_eq_dividend_iff mod_if div_if)
    then show ?thesis using carry upper lo False by (simp add: drop_bit_eq_div)
  qed
qed

section \<open>Appending and finishing\<close>

lemma take_buf_write: "offset + length p \<le> length b \<Longrightarrow> take (offset + length p) (buf_write b offset p) = take offset b @ p"
  by (simp add: buf_write_def)

lemma length_buf_write: "offset + length p \<le> length b \<Longrightarrow> length (buf_write b offset p) = length b"
  by (simp add: buf_write_def)

text \<open>Everything but the counts: the registers and the rest in the buffer.\<close>

definition md5_buffered :: "md5_state \<Rightarrow> md5_byte list \<Rightarrow> bool" where
  "md5_buffered st msg \<longleftrightarrow> length (buf st) = 64 \<and>
     md5_blocks md5_init_abcd msg = (abcd st, take (length msg mod 64) (buf st))"

lemma append_rest_buffered:
  assumes "length (buf st) = 64" "md5_blocks md5_init_abcd msg = md5_blocks (abcd st) p"
  shows "md5_buffered (append_rest st p) msg"
proof -
  obtain h left where run: "md5_blocks (abcd st) p = (h, left)" by (cases "md5_blocks (abcd st) p")
  have left: "length left = length msg mod 64"
    using md5_blocks_left [of md5_init_abcd msg] assms(2) run by simp
  then have "length left \<le> 64" by (simp add: less_imp_le)
  then show ?thesis
    using assms run left take_buf_write [of 0 left "buf st"] length_buf_write [of 0 left "buf st"]
    by (simp add: append_rest_def md5_buffered_def)
qed

lemma append_rest_counts [simp]:
  "count0 (append_rest st p) = count0 st" "count1 (append_rest st p) = count1 st"
  by (simp_all add: append_rest_def split: prod.split)

lemma md5_append_buffered:
  assumes "md5_consumed st msg"
  shows "md5_buffered (md5_append st p) (msg @ p)"
proof -
  let ?o = "length msg mod 64"
  have buf: "length (buf st) = 64" and msg: "md5_blocks md5_init_abcd msg = (abcd st, take ?o (buf st))"
    and count: "count0 st = word_of_nat (8 * length msg)"
    using assms unfolding md5_consumed_def by blast+
  have off: "unat (drop_bit 3 (count0 st) AND 63) = ?o"
    unfolding count by (rule offset_eq)
  have all: "md5_blocks md5_init_abcd (msg @ p) = md5_blocks (abcd st) (take ?o (buf st) @ p)"
    unfolding md5_blocks_append [of _ msg p] msg by simp
  have o: "?o < 64" by simp
  consider "p = []" | "p \<noteq> []" "?o = 0" | "p \<noteq> []" "?o \<noteq> 0" "?o + length p < 64"
    | "p \<noteq> []" "?o \<noteq> 0" "64 \<le> ?o + length p" by linarith
  then show ?thesis
  proof cases
    case 1
    then show ?thesis using buf msg by (simp add: md5_append_def md5_buffered_def)
  next
    case 2
    then show ?thesis
      using buf all off by (simp add: md5_append_def Let_def append_rest_buffered)
  next
    case 3
    have "md5_blocks md5_init_abcd (msg @ p) = (abcd st, take ?o (buf st) @ p)"
      unfolding all using 3 buf o by (intro md5_blocks_short) simp
    moreover have "length (msg @ p) mod 64 = ?o + length p"
      using 3 by (metis length_append mod_add_left_eq mod_less)
    ultimately show ?thesis
      using 3 buf off take_buf_write [of ?o p "buf st"] length_buf_write [of ?o p "buf st"]
      by (simp add: md5_append_def Let_def md5_buffered_def)
  next
    case 4
    let ?copy = "64 - ?o"
    have copy: "(if 64 < ?o + length p then 64 - ?o else length p) = ?copy"
      using 4(3) by auto
    have len: "length (take ?copy p) = ?copy" using 4(3) by simp
    have block: "buf_write (buf st) ?o (take ?copy p) = take ?o (buf st) @ take ?copy p"
      using len buf o by (simp add: buf_write_def)
    have full: "length (take ?o (buf st) @ take ?copy p) = 64"
      using len buf o by simp
    have "take ?o (buf st) @ p = (take ?o (buf st) @ take ?copy p) @ drop ?copy p" by simp
    then have "md5_blocks md5_init_abcd (msg @ p)
        = md5_blocks (md5_process (abcd st) (take ?o (buf st) @ take ?copy p)) (drop ?copy p)"
      unfolding all using md5_blocks_full [OF full] by metis
    then show ?thesis
      using 4 off full copy block
      by (simp add: md5_append_def Let_def append_rest_buffered)
  qed
qed

lemma md5_append_counts:
  assumes "md5_consumed st msg" "md5_piece p"
  shows "count0 (md5_append st p) = word_of_nat (8 * length (msg @ p))
    \<and> count1 (md5_append st p) = word_of_nat (drop_bit 32 (8 * length (msg @ p)))"
proof (cases "p = []")
  case True
  then show ?thesis using assms(1) by (simp add: md5_append_def md5_consumed_def)
next
  case False
  have small: "8 * length p < 2 ^ 32" "drop_bit 29 (length p) = 0"
    using assms(2) by (simp_all add: md5_piece_def drop_bit_eq_div)
  have c: "count0 st = word_of_nat (8 * length msg)" "count1 st = word_of_nat (drop_bit 32 (8 * length msg))"
    using assms(1) by (simp_all add: md5_consumed_def)
  have sum: "8 * length (msg @ p) = 8 * length msg + 8 * length p" by simp
  have "count0 (md5_append st p) = count0 st + word_of_nat (8 * length p)"
    "count1 (md5_append st p) =
       (if count0 st + word_of_nat (8 * length p) < word_of_nat (8 * length p) then count1 st + 1 else count1 st)"
    using False small(2) by (simp_all add: md5_append_def Let_def)
  then show ?thesis
    unfolding sum count_carry [OF small(1)] c by (simp only: of_nat_add)
qed

lemma md5_append_consumed:
  assumes "md5_consumed st msg" "md5_piece p"
  shows "md5_consumed (md5_append st p) (msg @ p)"
  using md5_append_counts [OF assms] md5_append_buffered [OF assms(1), of p]
  by (simp add: md5_consumed_def md5_buffered_def)

lemma and_63: "uint (w AND 63) = uint w mod 64" for w :: md5_word
proof -
  have "w AND 63 = take_bit 6 w" by (simp add: take_bit_eq_mask mask_eq_exp_minus_1)
  moreover have "uint (take_bit 6 w) = take_bit 6 (uint w)" by (rule unsigned_take_bit_eq)
  moreover have "take_bit 6 (uint w) = uint w mod 64" by (simp add: take_bit_eq_mod)
  ultimately show ?thesis by simp
qed

lemma pad_length:
  "unat ((55 - drop_bit 3 (word_of_nat (8 * n) :: md5_word)) AND 63) = nat ((55 - int n) mod 64)"
proof -
  let ?x = "drop_bit 3 (word_of_nat (8 * n) :: md5_word)"
  have "unat (drop_bit 3 (word_of_nat k :: md5_word)) = drop_bit 3 (take_bit 32 k)" for k
    by (simp add: unsigned_drop_bit_eq unsigned_of_nat)
  then have "unat ?x = drop_bit 3 (take_bit 32 (8 * n))" by blast
  also have "\<dots> = (8 * n mod 2 ^ 32) div 8" by (simp add: take_bit_eq_mod drop_bit_eq_div)
  also have "\<dots> = n mod 2 ^ 29"
    by (simp add: mod_mult_mult1 [of 8 n "2 ^ 29", simplified])
  finally have x: "uint ?x = int n mod 2 ^ 29"
    by (metis of_nat_mod of_nat_numeral of_nat_power uint_nat)
  have "uint ((55 - ?x) AND 63) = (55 - uint ?x) mod 2 ^ 32 mod 64"
    unfolding and_63 uint_word_ariths by simp
  also have "\<dots> = (55 - int n mod 2 ^ 29) mod 64"
    unfolding x by (simp add: mod_mod_cancel)
  also have "\<dots> = (55 - int n mod 2 ^ 29 mod 64) mod 64"
    by (simp only: mod_diff_right_eq)
  also have "\<dots> = (55 - int n) mod 64"
    by (simp add: mod_mod_cancel mod_diff_right_eq)
  finally show ?thesis by (metis nat_int uint_nat)
qed

lemma word_byte:
  "8 * i + 8 \<le> 32 \<Longrightarrow> ucast (drop_bit (8 * i) (word_of_nat k :: md5_word)) = (word_of_nat (drop_bit (8 * i) k) :: md5_byte)"
  by (rule bit_word_eqI) (simp add: bit_simps)

lemma length_bytes:
  "word_bytes (word_of_nat k) @ word_bytes (word_of_nat (drop_bit 32 k))
    = map (\<lambda>i. word_of_nat (drop_bit (8 * i) k)) [0..<8]"
proof -
  have 8: "[0..<8] = [0, 1, 2, 3, 4, 5, 6, 7 :: nat]" and 4: "[0..<4] = [0, 1, 2, 3 :: nat]"
    by (simp_all add: upt_conv_Cons)
  show ?thesis
    unfolding word_bytes_def 8 4
    using word_byte [of 0] word_byte [of 1] word_byte [of 2] word_byte [of 3] by (simp add: drop_bit_drop_bit)
qed

lemma md5_pad_take: "j < 64 \<Longrightarrow> take (j + 1) md5_pad = 0x80 # replicate j 0"
  by (simp add: md5_pad_def min_def)

lemma md5_finish_digest:
  assumes "md5_consumed st msg"
  shows "md5_finish st = md5_digest msg"
proof -
  let ?n = "length msg"
  let ?k = "nat ((55 - int ?n) mod 64)"
  let ?pad = "0x80 # replicate ?k (0 :: md5_byte)"
  let ?len = "map (\<lambda>i. word_of_nat (drop_bit (8 * i) (8 * ?n))) [0..<8] :: md5_byte list"
  have c: "count0 st = word_of_nat (8 * ?n)" "count1 st = word_of_nat (drop_bit 32 (8 * ?n))"
    using assms unfolding md5_consumed_def by blast+
  have "?k < 64" by (simp add: nat_less_iff)
  then have fin: "md5_finish st = digest_of (abcd (md5_append (md5_append st ?pad) ?len))"
    unfolding md5_finish_def Let_def c pad_length length_bytes by (simp only: md5_pad_take)
  have "md5_piece ?pad" "md5_piece ?len"
    using \<open>?k < 64\<close> by (simp_all add: md5_piece_def)
  then have "md5_consumed (md5_append (md5_append st ?pad) ?len) ((msg @ ?pad) @ ?len)"
    using assms by (intro md5_append_consumed)
  then have "fst (md5_blocks md5_init_abcd ((msg @ ?pad) @ ?len)) = abcd (md5_append (md5_append st ?pad) ?len)"
    unfolding md5_consumed_def by simp
  then show ?thesis
    unfolding fin md5_digest_def Let_def by simp
qed

interpretation md5: streamed_digest md5_init md5_append md5_finish md5_consumed md5_piece md5_digest
  by unfold_locales (simp_all add: md5_init_consumed md5_append_consumed md5_finish_digest)

text \<open>C36: However a message is cut into pieces of less than \<open>2 ^ 28\<close> bytes, the digest is the one of the
whole message: the compression folded over the blocks of the message padded with a one bit, zeros and
its length in bits modulo \<open>2 ^ 64\<close>.\<close>

theorem md5_streaming:
  assumes "\<forall>p \<in> set pieces. length p < 2 ^ 28"
  shows "md5_finish (foldl md5_append md5_init pieces) = md5_digest (concat pieces)"
  using assms by (intro md5.result_pieces) (simp add: md5_piece_def)

theorem md5_streaming_witness:
  "md5_finish (foldl md5_append md5_init [[97], replicate 100 98, []]) = md5_digest (97 # replicate 100 98)"
  using md5_streaming [of "[[97], replicate 100 98, []]"] by simp

end
