(* ===== verification/RubyData.thy ===== *)
theory RubyData
  imports FieldCache GenProps
begin

text \<open>
  How Ruby reads the tables that the compiler writes: the lexical structure and the grammar of the
  literals that a table of fields consists of (hashes, integers, symbols, strings in single quotes
  and in \<^verbatim>\<open>%q"..."\<close>, truth values and paths of constants), and the numbers of the types in
  \<^verbatim>\<open>lib/sparsam/types.rb\<close>. Line breaks are read where Ruby takes them and nowhere else. What
  a constant stands for is a parameter, as it depends on what has been loaded.
\<close>

section \<open>Tokens\<close>

datatype rb_token =
  RT_INT int | RT_SYM string | RT_STR string | RT_CONST string | RT_TRUE | RT_FALSE
| RT_ARROW | RT_COMMA | RT_LBRACE | RT_RBRACE | RT_ASSIGN | RT_NL

definition word_char :: "char \<Rightarrow> bool" where
  "word_char c \<longleftrightarrow> is_upper c \<or> is_lower c \<or> is_digit c \<or> c = CHR ''_''"

definition path_char :: "char \<Rightarrow> bool" where
  "path_char c \<longleftrightarrow> word_char c \<or> c = CHR '':''"

text \<open>
  A path is one or more capitalised names behind two colons each, of which the first may lack
  them.
\<close>

function const_path :: "string \<Rightarrow> bool" where
  "const_path s =
     (case s of
        c1 # c2 # c # cs \<Rightarrow>
          c1 = CHR '':'' \<and> c2 = CHR '':'' \<and> is_upper c
            \<and> (dropWhile word_char cs = [] \<or> const_path (dropWhile word_char cs))
      | _ \<Rightarrow> False)"
  by pat_completeness auto
termination
  by (relation "measure length") (auto intro: le_less_trans [OF length_dropWhile_le])

declare const_path.simps [simp del]

definition constant_name :: "string \<Rightarrow> bool" where
  "constant_name s \<longleftrightarrow> const_path s \<or> const_path (''::'' @ s)"

text \<open>
  The body of a string in single quotes: a backslash escapes the quote and itself, and stands
  for itself before any other character.
\<close>

fun ruby_sq :: "string \<Rightarrow> (string \<times> string) option" where
  "ruby_sq [] = None"
| "ruby_sq [c] = (if c = CHR 0x27 then Some ([], []) else None)"
| "ruby_sq (c # d # cs) =
     (if c = CHR 0x27 then Some ([], d # cs)
      else if c = CHR 0x5C \<and> (d = CHR 0x27 \<or> d = CHR 0x5C)
      then map_option (\<lambda>(s, rest). (d # s, rest)) (ruby_sq cs)
      else map_option (\<lambda>(s, rest). (c # s, rest)) (ruby_sq (d # cs)))"

text \<open>
  A decimal integer; a leading zero would make it octal, and a dot or a letter behind it
  another number.
\<close>

definition rb_integer :: "(nat \<Rightarrow> int) \<Rightarrow> string \<Rightarrow> (rb_token \<times> string) option" where
  "rb_integer sign s =
     (case split_digits s of (ds, rest) \<Rightarrow>
        if ds = [] \<or> (hd ds = CHR ''0'' \<and> ds \<noteq> ''0'')
           \<or> (case rest of [] \<Rightarrow> False | c # _ \<Rightarrow> word_char c \<or> c = CHR ''.'')
        then None else Some (RT_INT (sign (read_nat ds)), rest))"

definition rb_symbol :: "string \<Rightarrow> (rb_token \<times> string) option" where
  "rb_symbol s =
     (case takeWhile word_char s of
        [] \<Rightarrow> None
      | c # cs \<Rightarrow> if is_digit c then None else Some (RT_SYM (c # cs), dropWhile word_char s))"

definition rb_name :: "string \<Rightarrow> (rb_token \<times> string) option" where
  "rb_name s =
     (let name = takeWhile path_char s; rest = dropWhile path_char s in
      if constant_name name then Some (RT_CONST name, rest)
      else if name = ''true'' then Some (RT_TRUE, rest)
      else if name = ''false'' then Some (RT_FALSE, rest)
      else None)"

text \<open>The token that starts with the character \<open>c\<close>, which is no blank, and what follows it.\<close>

definition rb_token :: "char \<Rightarrow> string \<Rightarrow> (rb_token \<times> string) option" where
  "rb_token c cs =
     (if c = CHR 0x0A then Some (RT_NL, cs)
      else if c = CHR '','' then Some (RT_COMMA, cs)
      else if c = CHR ''{'' then Some (RT_LBRACE, cs)
      else if c = CHR ''}'' then Some (RT_RBRACE, cs)
      else if c = CHR ''='' then
        (case cs of
           [] \<Rightarrow> Some (RT_ASSIGN, [])
         | d # ds \<Rightarrow> if d = CHR ''>'' then Some (RT_ARROW, ds)
                    else if d = CHR ''='' \<or> d = CHR ''~'' then None else Some (RT_ASSIGN, cs))
      else if c = CHR 0x27 then map_option (\<lambda>(s, rest). (RT_STR s, rest)) (ruby_sq cs)
      else if c = CHR ''%'' then
        (if take 2 cs = CHR ''q'' # dq
         then map_option (\<lambda>(s, rest). (RT_STR s, rest)) (ruby_q (drop 2 cs)) else None)
      else if c = CHR ''-'' then rb_integer (\<lambda>n. - int n) cs
      else if is_digit c then rb_integer int (c # cs)
      else if c = CHR '':'' \<and> take 1 cs \<noteq> '':'' then rb_symbol cs
      else rb_name (c # cs))"

lemma ruby_sq_rest: "ruby_sq s = Some (t, rest) \<Longrightarrow> length rest < length s"
  by (induction s arbitrary: t rest rule: ruby_sq.induct) (fastforce split: if_splits)+

lemma ruby_q_rest: "ruby_q s = Some (t, rest) \<Longrightarrow> length rest < length s"
  by (induction s arbitrary: t rest rule: ruby_q.induct) (fastforce split: if_splits)+

lemma rb_integer_rest: "rb_integer sign s = Some (t, rest) \<Longrightarrow> length rest < length s"
proof -
  assume "rb_integer sign s = Some (t, rest)"
  then have "takeWhile is_digit s \<noteq> []" "rest = dropWhile is_digit s"
    by (auto simp: rb_integer_def split_digits_def split: if_splits)
  then show ?thesis
    by (metis length_greater_0_conv length_append less_add_same_cancel2 takeWhile_dropWhile_id)
qed

lemma rb_token_rest: "rb_token c cs = Some (t, rest) \<Longrightarrow> length rest \<le> length cs"
proof -
  assume tok: "rb_token c cs = Some (t, rest)"
  have name: "rb_name (c # cs) = Some (t, rest) \<Longrightarrow> length rest \<le> length cs"
    using length_dropWhile_le [of path_char cs]
    by (auto simp: rb_name_def Let_def constant_name_def const_path.simps split: if_splits)
  have sym: "rb_symbol cs = Some (t, rest) \<Longrightarrow> length rest \<le> length cs"
    using length_dropWhile_le [of word_char cs] by (auto simp: rb_symbol_def split: list.splits if_splits)
  show ?thesis
    using tok name sym
    by (fastforce simp: rb_token_def split: if_splits list.splits
        dest: ruby_sq_rest ruby_q_rest rb_integer_rest)
qed

text \<open>The tokens of a text; comments end before the line break.\<close>

function rb_tokens :: "string \<Rightarrow> rb_token list option" where
  "rb_tokens [] = Some []"
| "rb_tokens (c # cs) =
     (if c = CHR '' '' then rb_tokens cs
      else if c = CHR ''#'' then rb_tokens (dropWhile (\<lambda>c. c \<noteq> CHR 0x0A) cs)
      else (case rb_token c cs of
              None \<Rightarrow> None
            | Some (t, rest) \<Rightarrow> map_option ((#) t) (rb_tokens rest)))"
  by pat_completeness auto
termination
  by (relation "measure length")
     (auto simp: less_Suc_eq_le intro: length_dropWhile_le dest!: rb_token_rest)

declare rb_tokens.simps(2) [simp del]

section \<open>Values\<close>

text \<open>
  A hash literal sets its keys one after the other: a repeated key keeps its place and takes the
  last value. The keys of the tables are numbers, symbols and strings, whose \<^verbatim>\<open>eql?\<close> is
  equality.
\<close>

fun hash_put :: "rvalue \<Rightarrow> rvalue \<Rightarrow> (rvalue \<times> rvalue) list \<Rightarrow> (rvalue \<times> rvalue) list" where
  "hash_put k v [] = [(k, v)]"
| "hash_put k v ((k', v') # h) = (if k' = k then (k', v) # h else (k', v') # hash_put k v h)"

definition hash_of :: "(rvalue \<times> rvalue) list \<Rightarrow> (rvalue \<times> rvalue) list" where
  "hash_of kvs = foldl (\<lambda>h (k, v). hash_put k v h) [] kvs"

text \<open>
  Line breaks are skipped behind an opening brace, an arrow and a comma, and before a closing
  brace. A last comma is allowed. The fuel is for the nesting and the length.
\<close>

type_synonym constants = "string \<Rightarrow> rvalue option"

definition skip_nl :: "rb_token list \<Rightarrow> rb_token list" where
  "skip_nl ts = dropWhile (\<lambda>t. t = RT_NL) ts"

definition starts :: "rb_token \<Rightarrow> rb_token list \<Rightarrow> bool" where
  "starts t ts \<longleftrightarrow> take 1 ts = [t]"

fun rb_atom :: "constants \<Rightarrow> rb_token \<Rightarrow> rvalue option" where
  "rb_atom L (RT_INT i) = Some (RInt i)"
| "rb_atom L (RT_SYM s) = Some (RSym s)"
| "rb_atom L (RT_STR s) = Some (RStr UTF8 s)"
| "rb_atom L RT_TRUE = Some (RBool True)"
| "rb_atom L RT_FALSE = Some (RBool False)"
| "rb_atom L (RT_CONST p) = L p"
| "rb_atom L _ = None"

fun rb_value :: "constants \<Rightarrow> nat \<Rightarrow> rb_token list \<Rightarrow> (rvalue \<times> rb_token list) option"
  and rb_pairs :: "constants \<Rightarrow> nat \<Rightarrow> rb_token list \<Rightarrow> ((rvalue \<times> rvalue) list \<times> rb_token list) option" where
  "rb_value L 0 ts = None"
| "rb_value L (Suc n) ts =
     (if ts = [] then None
      else if starts RT_LBRACE ts
      then map_option (\<lambda>(kvs, rest). (RHash (hash_of kvs), rest)) (rb_pairs L n (skip_nl (tl ts)))
      else map_option (\<lambda>v. (v, tl ts)) (rb_atom L (hd ts)))"
| "rb_pairs L 0 ts = None"
| "rb_pairs L (Suc n) ts =
     (if starts RT_RBRACE ts then Some ([], tl ts)
      else case rb_value L n ts of
        None \<Rightarrow> None
      | Some (k, ts) \<Rightarrow>
          if \<not> starts RT_ARROW ts then None
          else (case rb_value L n (skip_nl (tl ts)) of
            None \<Rightarrow> None
          | Some (v, ts) \<Rightarrow>
              if starts RT_COMMA ts
              then map_option (\<lambda>(kvs, rest). ((k, v) # kvs, rest)) (rb_pairs L n (skip_nl (tl ts)))
              else if starts RT_RBRACE (skip_nl ts) then Some ([(k, v)], tl (skip_nl ts))
              else None))"

lemmas rb_value_step = rb_value.simps(2)
lemmas rb_pairs_step = rb_pairs.simps(2)

declare rb_value_step [simp del] rb_pairs_step [simp del]

text \<open>A text that is one assignment to a constant: the name and the value.\<close>

definition read_assignment :: "constants \<Rightarrow> string \<Rightarrow> (string \<times> rvalue) option" where
  "read_assignment L text =
     (case map_option skip_nl (rb_tokens text) of
        Some (RT_CONST name # RT_ASSIGN # rest) \<Rightarrow>
          (case rb_value L (2 * length rest) (skip_nl rest) of
             Some (v, rest) \<Rightarrow> if \<forall>t \<in> set rest. t = RT_NL then Some (name, v) else None
           | None \<Rightarrow> None)
      | _ \<Rightarrow> None)"

definition assigned :: "constants \<Rightarrow> string \<Rightarrow> string \<Rightarrow> rvalue option" where
  "assigned L text name =
     (case read_assignment L text of
        None \<Rightarrow> None
      | Some (n, v) \<Rightarrow> if n = name then Some v else None)"

section \<open>The constants of the library\<close>

text \<open>The module \<^verbatim>\<open>Sparsam::Types\<close>.\<close>

definition Types :: "(string \<times> int) list" where
  "Types =
     [(''STOP'', 0), (''VOID'', 1), (''BOOL'', 2), (''BYTE'', 3), (''DOUBLE'', 4), (''I16'', 6),
      (''I32'', 8), (''I64'', 10), (''STRING'', 11), (''STRUCT'', 12), (''MAP'', 13), (''SET'', 14),
      (''LIST'', 15)]"

definition types_loaded :: "constants \<Rightarrow> bool" where
  "types_loaded L \<longleftrightarrow> (\<forall>(n, i) \<in> set Types. L (''::Sparsam::Types::'' @ n) = Some (RInt i))"

end
