(* ===== verification/RubyText.thy ===== *)
theory RubyText
  imports RubyData Emitters
begin

text \<open>
  What an emitter writes, as Ruby reads it: a calculus that takes the functions of the generator to
  the tokens of their text (\<open>lexes\<close>, \<open>says\<close>), the tokens to the values that they denote
  (\<open>reads\<close>, \<open>entries\<close>), and both together to the lines of a table (\<open>valued\<close>, \<open>writes\<close>).
\<close>

named_theorems lexes_intros
named_theorems says_intros

section \<open>Texts and their tokens\<close>

definition prefixed :: "rb_token list \<Rightarrow> rb_token list option \<Rightarrow> rb_token list option" where
  "prefixed ts us = map_option ((@) ts) us"

lemma prefixed_simps [simp]:
  "prefixed [] us = us" "prefixed ts (prefixed ts' us) = prefixed (ts @ ts') us"
  "map_option ((#) t) us = prefixed [t] us" "prefixed ts (Some ts') = Some (ts @ ts')"
  by (cases us; simp add: prefixed_def)+

definition lexes :: "string \<Rightarrow> rb_token list \<Rightarrow> bool" where
  "lexes s ts \<longleftrightarrow> (\<forall>rest. rb_tokens (s @ rest) = prefixed ts (rb_tokens rest))"

lemma lexes_Nil [lexes_intros]: "lexes [] []"
  by (simp add: lexes_def)

lemma lexes_append: "lexes s ts \<Longrightarrow> lexes s' ts' \<Longrightarrow> lexes (s @ s') (ts @ ts')"
  by (simp add: lexes_def)

lemma lexes_blank [lexes_intros]: "lexes s ts \<Longrightarrow> lexes (CHR '' '' # s) ts"
  by (simp add: lexes_def rb_tokens.simps)

text \<open>A token, when its end is where the next one starts.\<close>

lemma lexes_then:
  assumes "c \<noteq> CHR '' ''" "c \<noteq> CHR ''#''" "\<And>rest. rb_token c (s @ s' @ rest) = Some (t, s' @ rest)"
    and "lexes s' ts"
  shows "lexes (c # s @ s') (t # ts)"
  using assms by (simp add: lexes_def rb_tokens.simps)

lemma lexes_mark [lexes_intros]:
  "lexes s ts \<Longrightarrow> lexes (CHR 0x0A # s) (RT_NL # ts)"
  "lexes s ts \<Longrightarrow> lexes (CHR '','' # s) (RT_COMMA # ts)"
  "lexes s ts \<Longrightarrow> lexes (CHR ''{'' # s) (RT_LBRACE # ts)"
  "lexes s ts \<Longrightarrow> lexes (CHR ''}'' # s) (RT_RBRACE # ts)"
  "lexes s ts \<Longrightarrow> lexes (CHR ''='' # CHR ''>'' # s) (RT_ARROW # ts)"
  "lexes s ts \<Longrightarrow> lexes (CHR ''='' # CHR '' '' # s) (RT_ASSIGN # ts)"
  by (simp_all add: lexes_def rb_tokens.simps rb_token_def)

lemma takeWhile_span: "\<forall>x \<in> set s. P x \<Longrightarrow> r = [] \<or> \<not> P (hd r) \<Longrightarrow> takeWhile P (s @ r) = s \<and> dropWhile P (s @ r) = r"
  by (cases r) (auto simp: takeWhile_tail dropWhile_append2)

lemma const_pathD:
  assumes "const_path s"
  obtains c cs where "s = CHR '':'' # CHR '':'' # c # cs" "is_upper c"
    "dropWhile word_char cs = [] \<or> const_path (dropWhile word_char cs)"
  using assms by (subst (asm) const_path.simps) (auto split: list.splits)

lemma const_path_chars: "const_path s \<Longrightarrow> \<forall>c \<in> set s. path_char c"
proof (induction "length s" arbitrary: s rule: less_induct)
  case less
  from less.prems obtain c cs where s: "s = CHR '':'' # CHR '':'' # c # cs" "is_upper c"
    and rest: "dropWhile word_char cs = [] \<or> const_path (dropWhile word_char cs)"
    by (rule const_pathD)
  have "length (dropWhile word_char cs) < length s"
    using length_dropWhile_le [of word_char cs] s(1) by simp
  then have "\<forall>c \<in> set (dropWhile word_char cs). path_char c"
    using less.hyps rest by fastforce
  moreover have "\<forall>c \<in> set (takeWhile word_char cs). path_char c"
    by (auto simp: path_char_def dest: set_takeWhileD)
  moreover have "set cs = set (takeWhile word_char cs) \<union> set (dropWhile word_char cs)"
    by (metis set_append takeWhile_dropWhile_id)
  ultimately show ?case using s by (simp add: path_char_def word_char_def ball_Un)
qed

lemma lexes_path:
  assumes "const_path p" "\<not> path_char c" "lexes (c # s) ts"
  shows "lexes (p @ c # s) (RT_CONST p # ts)"
proof -
  obtain cs where p: "p = CHR '':'' # CHR '':'' # cs" using const_pathD [OF assms(1)] by metis
  have "takeWhile path_char (p @ c # r) = p \<and> dropWhile path_char (p @ c # r) = c # r" for r
    by (intro takeWhile_span const_path_chars assms) (simp add: assms)
  then have "rb_name (p @ c # r) = Some (RT_CONST p, c # r)" for r
    by (simp add: rb_name_def constant_name_def assms(1))
  then have "rb_token CHR '':'' (CHR '':'' # cs @ c # r) = Some (RT_CONST p, c # r)" for r
    by (simp add: rb_token_def p is_digit_def char_between_def)
  then show ?thesis
    using lexes_then [of "CHR '':''" "CHR '':'' # cs" "c # s" "RT_CONST p" ts] assms(3) p by simp
qed

lemma split_show_nat: "\<forall>c \<in> set (show_nat n). is_digit c"
proof (induction n rule: show_nat.induct)
  case (1 n)
  have "d < 10 \<Longrightarrow> is_digit (digit_char d)" for d
    by (simp add: is_digit_def char_between_def digit_char_def of_char_of)
  then show ?case using 1 by (subst show_nat.simps) auto
qed

lemma lexes_symbol:
  assumes "\<not> is_digit c" "\<forall>x \<in> set (c # cs). word_char x" "\<not> word_char d" "lexes (d # s) ts"
  shows "lexes (CHR '':'' # c # cs @ d # s) (RT_SYM (c # cs) # ts)"
proof -
  have "takeWhile word_char ((c # cs) @ d # r) = c # cs \<and> dropWhile word_char ((c # cs) @ d # r) = d # r" for r
    by (intro takeWhile_span) (use assms in auto)
  then have "rb_symbol ((c # cs) @ d # r) = Some (RT_SYM (c # cs), d # r)" for r
    using assms(1) by (simp add: rb_symbol_def)
  moreover have "c \<noteq> CHR '':''" using assms(2) by (auto simp: word_char_def is_upper_def is_lower_def is_digit_def char_between_def)
  ultimately have "rb_token CHR '':'' ((c # cs) @ d # r) = Some (RT_SYM (c # cs), d # r)" for r
    by (simp add: rb_token_def is_digit_def char_between_def)
  then show ?thesis
    using lexes_then [of "CHR '':''" "c # cs" "d # s" "RT_SYM (c # cs)" ts] assms(4) by simp
qed

lemma show_nat_zero: "hd (show_nat n) = CHR ''0'' \<Longrightarrow> show_nat n = ''0''"
proof (induction n rule: show_nat.induct)
  case (1 n)
  show ?case
  proof (cases "n < 10")
    case True
    then have "digit_char n = CHR ''0''"
      using "1.prems" by (simp add: show_nat.simps)
    moreover have "digit_value CHR ''0'' = 0" by (simp add: digit_value_def)
    ultimately have "n = 0" using digit_value_char [OF True] by metis
    then show ?thesis using "1.prems" by (simp add: show_nat.simps)
  next
    case False
    obtain d where "show_nat (n div 10) \<noteq> []" using hd_show_nat by blast
    then have "hd (show_nat (n div 10)) = CHR ''0''"
      using "1.prems" False by (subst (asm) show_nat.simps) simp
    then have "read_nat (show_nat (n div 10)) = read_nat ''0''" using 1(1) False by metis
    moreover have "read_nat ''0'' = 0" by (simp add: read_nat_def digit_value_def)
    ultimately have "n div 10 = 0" by simp
    then show ?thesis using False by simp
  qed
qed

lemma rb_integer_show:
  assumes "\<not> word_char d" "d \<noteq> CHR ''.''"
  shows "rb_integer sign (show_nat n @ d # r) = Some (RT_INT (sign n), d # r)"
proof -
  have "takeWhile is_digit (show_nat n @ d # r) = show_nat n \<and> dropWhile is_digit (show_nat n @ d # r) = d # r"
    by (intro takeWhile_span split_show_nat) (use assms in \<open>auto simp: word_char_def\<close>)
  moreover have "show_nat n \<noteq> []" using hd_show_nat by blast
  ultimately show ?thesis
    using assms show_nat_zero by (auto simp: rb_integer_def split_digits_def)
qed

lemma digit_others:
  "is_digit c \<Longrightarrow> c \<notin> {CHR '' '', CHR ''#'', CHR 0x0A, CHR '','', CHR ''{'', CHR ''}'', CHR ''='', CHR 0x27,
     CHR ''%'', CHR ''-''}"
  by (rule notI) (simp, elim disjE; simp add: is_digit_def char_between_def)

lemma lexes_int:
  assumes d: "\<not> word_char d" "d \<noteq> CHR ''.''" and s: "lexes (d # s) ts"
  shows "lexes (show_int i @ d # s) (RT_INT i # ts)"
proof (cases "i < 0")
  case True
  have "rb_token CHR ''-'' (show_nat (nat (- i)) @ (d # s) @ r) = Some (RT_INT i, (d # s) @ r)" for r
    using True by (simp add: rb_token_def rb_integer_show [OF d])
  from lexes_then [OF _ _ this s] show ?thesis using True by (simp add: show_int_def)
next
  case False
  obtain c cs where c: "show_nat (nat i) = c # cs" using hd_show_nat [of "nat i"] by (cases "show_nat (nat i)") auto
  then have digit: "is_digit c" using split_show_nat [of "nat i"] by simp
  have "rb_token c (cs @ (d # s) @ r) = rb_integer int (show_nat (nat i) @ d # s @ r)" for r
    unfolding rb_token_def c using digit digit_others [OF digit] by simp
  then have "rb_token c (cs @ (d # s) @ r) = Some (RT_INT i, (d # s) @ r)" for r
    using False by (simp add: rb_integer_show [OF d])
  from lexes_then [OF _ _ this s] digit_others [OF digit] show ?thesis
    using False c by (simp add: show_int_def)
qed

text \<open>A string that single quotes keep as it is.\<close>

definition plain :: "string \<Rightarrow> bool" where
  "plain s \<longleftrightarrow> (\<forall>c \<in> set s. c \<noteq> CHR 0x27 \<and> c \<noteq> CHR 0x5C)"

lemma ruby_sq_plain: "plain s \<Longrightarrow> ruby_sq (s @ CHR 0x27 # r) = Some (s, r)"
proof (induction s)
  case Nil
  show ?case by (cases r) simp_all
next
  case (Cons c s)
  then show ?case by (cases s; cases r) (auto simp: plain_def)
qed

lemma lexes_sq [lexes_intros]: "plain str \<Longrightarrow> lexes s ts \<Longrightarrow> lexes (CHR 0x27 # str @ CHR 0x27 # s) (RT_STR str # ts)"
  using lexes_then [of "CHR 0x27" "str @ sq" s "RT_STR str" ts]
  by (simp add: rb_token_def ruby_sq_plain)

lemma lexes_q [lexes_intros]:
  "lexes s ts \<Longrightarrow> lexes (CHR ''%'' # CHR ''q'' # CHR 0x22 # escape_string str @ CHR 0x22 # s)
     (RT_STR (concat (map read_back str)) # ts)"
  using lexes_then [of "CHR ''%''" "''q'' @ dq @ escape_string str @ dq" s "RT_STR (concat (map read_back str))" ts]
  by (simp add: rb_token_def ruby_q_escape_string)

lemma lexes_comment [lexes_intros]:
  "CHR 0x0A \<notin> set l \<Longrightarrow> lexes s ts \<Longrightarrow> lexes (CHR ''#'' # l @ CHR 0x0A # s) (RT_NL # ts)"
proof -
  assume "CHR 0x0A \<notin> set l" "lexes s ts"
  moreover have "dropWhile (\<lambda>c. c \<noteq> CHR 0x0A) (l @ CHR 0x0A # r) = CHR 0x0A # r" for r
    using calculation(1) by (induction l) auto
  ultimately show ?thesis by (simp add: lexes_def rb_tokens.simps rb_token_def)
qed

lemma lexes_spaces: "set b \<subseteq> {CHR '' ''} \<Longrightarrow> lexes b []"
  by (induction b) (auto intro: lexes_intros)

lemma indentation_blank: "set (indentation n) \<subseteq> {CHR '' ''}"
  by (auto simp: indentation_def)

lemmas lexes_indentation = lexes_spaces [OF indentation_blank]

section \<open>Emitters and the tokens they write\<close>

text \<open>\<open>says k m ts\<close>: \<open>m\<close> returns, has changed the indentation by \<open>k\<close> and has written these tokens.\<close>

definition says :: "int \<Rightarrow> unit emit \<Rightarrow> rb_token list \<Rightarrow> bool" where
  "says k m ts \<longleftrightarrow> (\<forall>out. \<exists>txt. lexes txt ts
     \<and> m out = (Inr (), out\<lparr>contents := contents out @ txt, ofs_indent := ofs_indent out + k\<rparr>))"

lemma says_bind:
  assumes "says a m ts" "says b (f ()) us"
  shows "says (a + b) (sbind m f) (ts @ us)"
  unfolding says_def
proof
  fix out
  obtain t where t: "lexes t ts"
    "m out = (Inr (), out\<lparr>contents := contents out @ t, ofs_indent := ofs_indent out + a\<rparr>)"
    using assms(1) unfolding says_def by blast
  obtain u where u: "lexes u us" "f () (out\<lparr>contents := contents out @ t, ofs_indent := ofs_indent out + a\<rparr>)
      = (Inr (), out\<lparr>contents := contents out @ t @ u, ofs_indent := ofs_indent out + a + b\<rparr>)"
    using assms(2) [unfolded says_def, rule_format,
        of "out\<lparr>contents := contents out @ t, ofs_indent := ofs_indent out + a\<rparr>"] by auto
  show "\<exists>txt. lexes txt (ts @ us) \<and> sbind m f out =
      (Inr (), out\<lparr>contents := contents out @ txt, ofs_indent := ofs_indent out + (a + b)\<rparr>)"
    using t u by (intro exI [of _ "t @ u"]) (simp add: lexes_append sbind_returns add.assoc)
qed

lemma says_ret [says_intros]: "says 0 (sret ()) []"
  by (auto simp: says_def intro: lexes_intros)

lemma says_out_str [says_intros]: "lexes str ts \<Longrightarrow> says 0 (out_str str) ts"
  by (auto simp: says_def out_str_def)

lemma says_out_indent [says_intros]: "says 0 out_indent []"
  by (auto simp: says_def out_indent_def out_str_def intro: lexes_indentation)

lemma says_up [says_intros]: "says 1 out_indent_up []"
  by (auto simp: says_def out_indent_up_def intro!: exI [of _ "[]"] lexes_intros)

lemma says_down [says_intros]: "says (-1) out_indent_down []"
  by (auto simp: says_def out_indent_down_def intro!: exI [of _ "[]"] lexes_intros)

lemma says_put [says_intros]: "lexes str ts \<Longrightarrow> says 0 (put str) ts"
  unfolding put_def using says_bind [OF says_out_indent, where f = "\<lambda>_. out_str str"] says_out_str by fastforce

lemma says_putl [says_intros]: "lexes (str @ nl) ts \<Longrightarrow> says 0 (putl str) ts"
  unfolding putl_def by (rule says_put)

lemma says_lift: "r = Inr x \<Longrightarrow> says k (f x) ts \<Longrightarrow> says k (sbind (slift r) f) ts"
  by (simp add: sbind_unit_fun)

lemma says_block_Nil [says_intros]: "says 0 (block []) []"
  unfolding block_def sfor.simps by (rule says_ret)

lemma says_block_Cons: "says a m ts \<Longrightarrow> says b (block ms) us \<Longrightarrow> says (a + b) (block (m # ms)) (ts @ us)"
  using says_bind [of a m ts b "\<lambda>_. block ms" us] by (simp add: block_def)

lemma says_sfor: "(\<And>x. x \<in> set xs \<Longrightarrow> says 0 (f x) (g x)) \<Longrightarrow> says 0 (sfor f xs) (concat (map g xs))"
proof (induction xs)
  case Nil
  show ?case unfolding sfor.simps using says_ret by (simp del: sret_apply)
next
  case (Cons x xs)
  then show ?case using says_bind [of 0 "f x" "g x" 0 "\<lambda>_. sfor f xs"] by simp
qed

section \<open>Tokens and the values they denote\<close>

lemma starts_Cons [simp]: "\<not> starts t []" "starts t (u # us) \<longleftrightarrow> t = u"
  by (auto simp: starts_def)

lemma rb_fuel_Suc:
  "rb_value L n ts = Some x \<Longrightarrow> rb_value L (Suc n) ts = Some x"
  "rb_pairs L n ts = Some y \<Longrightarrow> rb_pairs L (Suc n) ts = Some y"
proof (induction n arbitrary: ts x y)
  case (Suc n)
  {
    case 1
    then show ?case
      using Suc(2) by (auto simp: rb_value_step [of L n ts] rb_value_step [of L "Suc n" ts] split: if_splits)
  next
    case 2
    note step = rb_pairs_step [of L n ts] rb_pairs_step [of L "Suc n" ts]
    show ?case
    proof (cases "starts RT_RBRACE ts")
      case True
      then show ?thesis using 2 by (simp add: step)
    next
      case False
      obtain k us where k: "rb_value L n ts = Some (k, us)" "starts RT_ARROW us"
        using 2 False by (auto simp: step split: option.splits if_splits)
      obtain v vs where v: "rb_value L n (skip_nl (tl us)) = Some (v, vs)"
        using 2 False k by (auto simp: step split: option.splits)
      show ?thesis
        using 2 False k v Suc(1) [OF k(1)] Suc(1) [OF v] Suc(2) by (auto simp: step split: if_splits)
    qed
  }
qed simp_all

lemma rb_fuel:
  "n \<le> m \<Longrightarrow> rb_value L n ts = Some x \<Longrightarrow> rb_value L m ts = Some x"
  "n \<le> m \<Longrightarrow> rb_pairs L n ts = Some y \<Longrightarrow> rb_pairs L m ts = Some y"
  by (induction rule: dec_induct) (blast intro: rb_fuel_Suc)+

text \<open>\<open>reads\<close>: the tokens are a value, whatever follows them.\<close>

definition reads :: "constants \<Rightarrow> rb_token list \<Rightarrow> rvalue \<Rightarrow> bool" where
  "reads L ts v \<longleftrightarrow> (\<forall>rest n. 2 * length ts \<le> Suc n \<longrightarrow> rb_value L n (ts @ rest) = Some (v, rest))"

lemma reads_atom:
  assumes "rb_atom L t = Some v"
  shows "reads L [t] v"
proof -
  have "t \<noteq> RT_LBRACE" using assms by auto
  then show ?thesis using assms by (auto simp: reads_def rb_value_step dest!: Suc_le_D)
qed

lemma reads_start:
  assumes "reads L ts v"
  shows "ts \<noteq> []" "\<not> starts RT_RBRACE (ts @ us)" "skip_nl (ts @ us) = ts @ us"
proof -
  have "rb_value L (2 * length ts) (ts @ []) = Some (v, [])"
    using assms unfolding reads_def by (metis le_SucI order_refl)
  then have "ts \<noteq> [] \<and> hd ts \<noteq> RT_RBRACE \<and> hd ts \<noteq> RT_NL"
    by (cases "2 * length ts"; cases ts) (auto simp: rb_value_step split: if_splits)
  then show "ts \<noteq> []" "\<not> starts RT_RBRACE (ts @ us)" "skip_nl (ts @ us) = ts @ us"
    by (cases ts; auto simp: skip_nl_def)+
qed

lemma readsD: "reads L ts v \<Longrightarrow> 2 * length ts \<le> Suc n \<Longrightarrow> rb_value L n (ts @ rest) = Some (v, rest)"
  by (simp add: reads_def)

text \<open>\<open>entries\<close>: the tokens are pairs of a hash, each with its comma.\<close>

definition entries :: "constants \<Rightarrow> rb_token list \<Rightarrow> (rvalue \<times> rvalue) list \<Rightarrow> bool" where
  "entries L ts kvs \<longleftrightarrow> (\<forall>n rest kvs' r. rb_pairs L n (skip_nl rest) = Some (kvs', r) \<longrightarrow>
     rb_pairs L (n + 2 * length ts) (skip_nl (ts @ rest)) = Some (kvs @ kvs', r))"

lemma entriesD:
  "entries L ts kvs \<Longrightarrow> rb_pairs L n (skip_nl rest) = Some (kvs', r) \<Longrightarrow> n + 2 * length ts \<le> m \<Longrightarrow>
     rb_pairs L m (skip_nl (ts @ rest)) = Some (kvs @ kvs', r)"
  unfolding entries_def by (blast intro: rb_fuel)

lemma entries_Nil: "entries L [] []"
  by (simp add: entries_def)

lemma entries_nl: "entries L [RT_NL] []"
  unfolding entries_def by (auto simp: skip_nl_def intro: rb_fuel(2) [rotated])

lemma entries_append:
  assumes "entries L ts a" "entries L us b"
  shows "entries L (ts @ us) (a @ b)"
  unfolding entries_def
proof (intro allI impI)
  fix n rest kvs r
  assume "rb_pairs L n (skip_nl rest) = Some (kvs, r)"
  from entriesD [OF assms(1) entriesD [OF assms(2) this order_refl]]
  show "rb_pairs L (n + 2 * length (ts @ us)) (skip_nl ((ts @ us) @ rest)) = Some ((a @ b) @ kvs, r)"
    by simp
qed

lemma entries_pair:
  assumes k: "reads L ks k" and v: "reads L vs v"
  shows "entries L (ks @ RT_ARROW # vs @ [RT_COMMA]) [(k, v)]"
  unfolding entries_def
proof (intro allI impI)
  fix n rest kvs r
  assume rest: "rb_pairs L n (skip_nl rest) = Some (kvs, r)"
  let ?ts = "ks @ RT_ARROW # vs @ [RT_COMMA]"
  obtain m where m: "n + 2 * length ?ts = Suc m" "n \<le> m" "2 * length ks \<le> Suc m" "2 * length vs \<le> Suc m"
    by (cases "n + 2 * length ?ts") auto
  show "rb_pairs L (n + 2 * length ?ts) (skip_nl (?ts @ rest)) = Some ([(k, v)] @ kvs, r)"
    unfolding m(1)
    using reads_start [OF k] reads_start [OF v] readsD [OF k m(3)] readsD [OF v m(4)] rb_fuel(2) [OF m(2) rest]
    by (simp add: rb_pairs_step)
qed

text \<open>The last pair of a hash needs no comma.\<close>

lemma last_pair:
  assumes k: "reads L ks k" and v: "reads L vs v"
  shows "rb_pairs L (2 * length (ks @ RT_ARROW # vs)) (skip_nl (ks @ RT_ARROW # vs @ RT_NL # RT_RBRACE # r))
    = Some ([(k, v)], r)"
proof -
  obtain m where m: "2 * length (ks @ RT_ARROW # vs) = Suc m" "2 * length ks \<le> Suc m" "2 * length vs \<le> Suc m"
    by (cases "2 * length (ks @ RT_ARROW # vs)") auto
  show ?thesis
    unfolding m(1)
    using reads_start [OF k] reads_start [OF v] readsD [OF k m(2)] readsD [OF v m(3)]
    by (simp add: rb_pairs_step skip_nl_def)
qed

lemma reads_braces:
  assumes "\<And>rest. rb_pairs L (2 * length ts + 1) (skip_nl (ts @ RT_RBRACE # rest)) = Some (kvs, rest)"
  shows "reads L (RT_LBRACE # ts @ [RT_RBRACE]) (RHash (hash_of kvs))"
  unfolding reads_def
proof (intro allI impI)
  fix rest n
  assume "2 * length (RT_LBRACE # ts @ [RT_RBRACE]) \<le> Suc n"
  then obtain m where "n = Suc m" "2 * length ts + 1 \<le> m" by (cases n) auto
  then show "rb_value L n ((RT_LBRACE # ts @ [RT_RBRACE]) @ rest) = Some (RHash (hash_of kvs), rest)"
    using rb_fuel(2) [OF _ assms] by (simp add: rb_value_step)
qed

lemma reads_hash: "entries L ts kvs \<Longrightarrow> reads L (RT_LBRACE # ts @ [RT_RBRACE]) (RHash (hash_of kvs))"
proof (rule reads_braces)
  fix rest
  assume "entries L ts kvs"
  moreover have "rb_pairs L 1 (skip_nl (RT_RBRACE # rest)) = Some ([], rest)"
    by (simp add: skip_nl_def rb_pairs_step)
  ultimately show "rb_pairs L (2 * length ts + 1) (skip_nl (ts @ RT_RBRACE # rest)) = Some (kvs, rest)"
    using entriesD by fastforce
qed

lemma hash_put_new: "k \<notin> fst ` set h \<Longrightarrow> hash_put k v h = h @ [(k, v)]"
  by (induction k v h rule: hash_put.induct) auto

lemma hash_of_distinct: "distinct (map fst kvs) \<Longrightarrow> hash_of kvs = kvs"
proof (induction kvs rule: rev_induct)
  case (snoc p kvs)
  then show ?case by (cases p) (simp add: hash_of_def hash_put_new)
qed (simp add: hash_of_def)

section \<open>Lines of a table\<close>

text \<open>
  \<open>ends\<close>: a text with these tokens, if a comma, a blank or a line break follows; \<open>valued\<close>: an
  emitter of such a text, whose tokens are a value; \<open>writes\<close>: an emitter of entries.
\<close>

definition delim :: "char \<Rightarrow> bool" where
  "delim d \<longleftrightarrow> d = CHR '','' \<or> d = CHR '' '' \<or> d = CHR 0x0A"

lemma delim_others: "delim d \<Longrightarrow> \<not> word_char d \<and> \<not> path_char d \<and> d \<noteq> CHR ''.''"
  unfolding delim_def
  by (elim disjE; simp add: path_char_def word_char_def is_upper_def is_lower_def is_digit_def char_between_def)

definition ends :: "string \<Rightarrow> rb_token list \<Rightarrow> bool" where
  "ends txt vs \<longleftrightarrow> (\<forall>d s us. delim d \<and> lexes (d # s) us \<longrightarrow> lexes (txt @ d # s) (vs @ us))"

definition valued :: "constants \<Rightarrow> unit emit \<Rightarrow> rvalue \<Rightarrow> bool" where
  "valued L m v \<longleftrightarrow> (\<exists>vs. reads L vs v \<and> (\<forall>out. \<exists>txt. ends txt vs
     \<and> m out = (Inr (), out\<lparr>contents := contents out @ txt\<rparr>)))"

definition writes :: "constants \<Rightarrow> unit emit \<Rightarrow> (rvalue \<times> rvalue) list \<Rightarrow> bool" where
  "writes L m kvs \<longleftrightarrow> (\<exists>ts. says 0 m ts \<and> entries L ts kvs)"

lemma ends_const: "const_path p \<Longrightarrow> ends p [RT_CONST p]"
  by (simp add: ends_def lexes_path delim_others)

lemma ends_int: "ends (show_int i) [RT_INT i]"
  by (simp add: ends_def lexes_int delim_others)

lemma ends_lexes: "lexes txt vs \<Longrightarrow> ends txt vs"
  by (simp add: ends_def lexes_append)

lemma ends_blank: "set b \<subseteq> {CHR '' ''} \<Longrightarrow> ends txt vs \<Longrightarrow> ends (b @ txt) vs"
  unfolding ends_def using lexes_append [OF lexes_spaces] by fastforce

lemma ends_sq: "plain str \<Longrightarrow> ends (sq @ str @ sq) [RT_STR str]"
  by (rule ends_lexes) (use lexes_sq [OF _ lexes_Nil] in simp)

lemma ends_true: "ends ''true'' [RT_TRUE]" and ends_false: "ends ''false'' [RT_FALSE]"
proof -
  have chars: "takeWhile path_char (x @ d # r) = x \<and> dropWhile path_char (x @ d # r) = d # r"
    if "delim d" "x \<in> {''true'', ''false''}" for x d r
    by (intro takeWhile_span)
       (use that delim_others [OF that(1)] in \<open>auto simp: path_char_def word_char_def is_lower_def\<close>)
  have names: "\<not> constant_name ''true''" "\<not> constant_name ''false''"
    by (simp_all add: constant_name_def const_path.simps is_upper_def)
  show "ends ''true'' [RT_TRUE]"
    unfolding ends_def
  proof (intro allI impI)
    fix d s us
    assume "delim d \<and> lexes (d # s) us"
    then show "lexes (''true'' @ d # s) ([RT_TRUE] @ us)"
      using lexes_then [of "CHR ''t''" "''rue''" "d # s" RT_TRUE us] chars [of d "''true''"] names
      by (simp add: rb_token_def is_digit_def char_between_def rb_name_def)
  qed
  show "ends ''false'' [RT_FALSE]"
    unfolding ends_def
  proof (intro allI impI)
    fix d s us
    assume "delim d \<and> lexes (d # s) us"
    then show "lexes (''false'' @ d # s) ([RT_FALSE] @ us)"
      using lexes_then [of "CHR ''f''" "''alse''" "d # s" RT_FALSE us] chars [of d "''false''"] names
      by (simp add: rb_token_def is_digit_def char_between_def rb_name_def)
  qed
qed

lemma valued_out_str: "ends txt vs \<Longrightarrow> reads L vs v \<Longrightarrow> valued L (out_str txt) v"
  by (auto simp: valued_def out_str_def)

lemma valued_put: "ends txt vs \<Longrightarrow> reads L vs v \<Longrightarrow> valued L (put txt) v"
  unfolding valued_def put_def
  by (intro exI [of _ vs] conjI allI, assumption, rule_tac x = "indentation (ofs_indent out) @ txt" in exI)
     (simp add: sbind_def out_indent_def out_str_def ends_blank indentation_blank)

lemma valued_says: "says 0 m vs \<Longrightarrow> reads L vs v \<Longrightarrow> valued L m v"
  unfolding valued_def says_def by (auto intro!: exI [of _ vs]) (metis ends_lexes)

lemma writes_Nil: "writes L (block []) []" "writes L (sret ()) []"
  using says_block_Nil says_ret entries_Nil unfolding writes_def by blast+

lemma writes_bind: "writes L m a \<Longrightarrow> writes L (f ()) b \<Longrightarrow> writes L (sbind m f) (a @ b)"
  unfolding writes_def using says_bind [of 0 m _ 0 f] entries_append by fastforce

lemma writes_Cons: "writes L m a \<Longrightarrow> writes L (block ms) b \<Longrightarrow> writes L (block (m # ms)) (a @ b)"
  unfolding writes_def using says_block_Cons [of 0 m _ 0 ms] entries_append by fastforce

definition sym_key :: "string \<Rightarrow> bool" where
  "sym_key k \<longleftrightarrow> k \<noteq> [] \<and> \<not> is_digit (hd k) \<and> (\<forall>c \<in> set k. word_char c)"

lemma keys:
  "sym_key ''type''" "sym_key ''name''" "sym_key ''default''" "sym_key ''binary''" "sym_key ''class''" "sym_key ''element''"
  "sym_key ''key''" "sym_key ''value''" "sym_key ''optional''" "sym_key ''enum_class''" "sym_key ''annotations''"
  by (simp_all add: sym_key_def word_char_def is_upper_def is_lower_def is_digit_def char_between_def)

lemma lexes_key: "sym_key k \<Longrightarrow> lexes s ts \<Longrightarrow> lexes (CHR '':'' # k @ '' => '' @ s) (RT_SYM k # RT_ARROW # ts)"
proof -
  assume k: "sym_key k" and s: "lexes s ts"
  obtain c cs where c: "k = c # cs" using k by (cases k) (auto simp: sym_key_def)
  have arrow: "lexes ('' => '' @ s) (RT_ARROW # ts)" using s by (simp add: lexes_intros)
  have "\<not> word_char CHR '' ''" using delim_others [of "CHR '' ''"] by (simp add: delim_def)
  from lexes_symbol [OF _ _ this, of c cs "tl ('' => '' @ s)" "RT_ARROW # ts"] show ?thesis
    using k arrow by (simp add: c sym_key_def)
qed

lemma line_end: "ends txt vs \<Longrightarrow> lexes (txt @ '','' @ nl) (vs @ [RT_COMMA, RT_NL])"
  unfolding ends_def by (simp add: delim_def lexes_intros)

lemma entries_line:
  assumes "reads L ks k" "reads L vs v"
  shows "entries L (ks @ RT_ARROW # vs @ [RT_COMMA, RT_NL]) [(k, v)]"
  using entries_append [OF entries_pair [OF assms] entries_nl] by simp

lemma entries_key: "reads L vs v \<Longrightarrow> entries L (RT_SYM k # RT_ARROW # vs @ [RT_COMMA, RT_NL]) [(RSym k, v)]"
  using entries_line [OF reads_atom, of L "RT_SYM k" "RSym k"] by simp

lemma writes_line:
  assumes "sym_key k" "ends txt vs" "reads L vs v"
  shows "writes L (putl (CHR '':'' # k @ '' => '' @ txt @ '',''))  [(RSym k, v)]"
    "writes L (out_str (CHR '':'' # k @ '' => '' @ txt @ '','' @ nl))  [(RSym k, v)]"
proof -
  have "lexes (CHR '':'' # k @ '' => '' @ txt @ '','' @ nl) (RT_SYM k # RT_ARROW # vs @ [RT_COMMA, RT_NL])"
    by (rule lexes_key [OF assms(1) line_end [OF assms(2)]])
  then show "writes L (putl (CHR '':'' # k @ '' => '' @ txt @ '',''))  [(RSym k, v)]"
    "writes L (out_str (CHR '':'' # k @ '' => '' @ txt @ '','' @ nl))  [(RSym k, v)]"
    unfolding writes_def using entries_key [OF assms(3), of k]
    by (auto intro!: exI says_putl says_out_str)
qed

lemma writes_value:
  assumes "sym_key k" "valued L m v" "p = put \<or> p = out_str"
  shows "writes L (block [p (CHR '':'' # k @ '' => ''), m, out_str ('','' @ nl)]) [(RSym k, v)]"
proof -
  obtain vs where vs: "reads L vs v" and m: "\<And>out. \<exists>txt. ends txt vs
     \<and> m out = (Inr (), out\<lparr>contents := contents out @ txt\<rparr>)"
    using assms(2) unfolding valued_def by blast
  have "says 0 (p (CHR '':'' # k @ '' => '')) [RT_SYM k, RT_ARROW]"
    using lexes_key [OF assms(1) lexes_Nil] assms(3) by (auto intro: says_put says_out_str)
  moreover have "says 0 (block [m, out_str ('','' @ nl)]) (vs @ [RT_COMMA, RT_NL])"
    unfolding says_def
  proof
    fix out
    obtain x where t: "ends x vs" "m out = (Inr (), out\<lparr>contents := contents out @ x\<rparr>)"
      using m by blast
    then show "\<exists>txt. lexes txt (vs @ [RT_COMMA, RT_NL]) \<and> block [m, out_str ('','' @ nl)] out
        = (Inr (), out\<lparr>contents := contents out @ txt, ofs_indent := ofs_indent out + 0\<rparr>)"
      using line_end [OF t(1)]
      by (intro exI [of _ "x @ '','' @ nl"]) (simp add: block_def sbind_def out_str_def)
  qed
  ultimately have "says 0 (block [p (CHR '':'' # k @ '' => ''), m, out_str ('','' @ nl)])
      (RT_SYM k # RT_ARROW # vs @ [RT_COMMA, RT_NL])"
    using says_block_Cons by fastforce
  then show ?thesis unfolding writes_def using entries_key [OF vs] by blast
qed

lemma writes_class:
  assumes "sym_key k" "ends txt vs" "reads L vs v"
  shows "writes L (block [put (CHR '':'' # k @ '' => '' @ txt), putl '','']) [(RSym k, v)]"
proof -
  let ?m = "block [put (CHR '':'' # k @ '' => '' @ txt), putl '','']"
  have "says 0 ?m (RT_SYM k # RT_ARROW # vs @ [RT_COMMA, RT_NL])"
    unfolding says_def
  proof
    fix out :: t_ruby_ofstream
    let ?ind = "indentation (ofs_indent out)"
    have comma: "lexes (?ind @ '','' @ nl) [RT_COMMA, RT_NL]"
      using lexes_append [OF lexes_indentation, of "'','' @ nl"] by (simp add: lexes_intros)
    obtain d s where d: "?ind @ '','' @ nl = d # s" "delim d"
    proof (cases ?ind)
      case Nil
      then show ?thesis using that by (simp add: delim_def)
    next
      case (Cons d s)
      then show ?thesis using that [of d "s @ '','' @ nl"] indentation_blank [of "ofs_indent out"]
        by (simp add: delim_def)
    qed
    have "lexes (txt @ d # s) (vs @ [RT_COMMA, RT_NL])"
      using assms(2) d comma unfolding ends_def by simp
    from lexes_append [OF lexes_indentation lexes_key [OF assms(1) this]]
    have lex: "lexes (?ind @ CHR '':'' # k @ '' => '' @ txt @ ?ind @ '','' @ nl)
        (RT_SYM k # RT_ARROW # vs @ [RT_COMMA, RT_NL])"
      unfolding d(1) by simp
    show "\<exists>txt'. lexes txt' (RT_SYM k # RT_ARROW # vs @ [RT_COMMA, RT_NL]) \<and> ?m out
        = (Inr (), out\<lparr>contents := contents out @ txt', ofs_indent := ofs_indent out + 0\<rparr>)"
      by (intro exI conjI, rule lex)
         (simp add: block_def put_def putl_def sbind_def out_indent_def out_str_def)
  qed
  then show ?thesis unfolding writes_def using entries_key [OF assms(3)] by blast
qed

definition plain_annotations :: "annotations \<Rightarrow> bool" where
  "plain_annotations anns \<longleftrightarrow> (\<forall>(k, v) \<in> set anns. plain k \<and> plain v)"

lemma out_annotations_writes:
  "plain_annotations anns \<Longrightarrow> writes L (out_annotations anns) (map (\<lambda>(k, v). (RStr UTF8 k, RStr UTF8 v)) anns)"
proof (induction anns)
  case Nil
  show ?case unfolding out_annotations_def sfor.simps by (simp add: writes_Nil del: sret_apply)
next
  case (Cons a anns)
  obtain k v where a: "a = (k, v)" by (cases a)
  then have plain: "plain k" "plain v" using Cons.prems by (auto simp: plain_annotations_def)
  have "lexes (sq @ k @ sq @ '' => '' @ sq @ v @ sq @ '','' @ nl) [RT_STR k, RT_ARROW, RT_STR v, RT_COMMA, RT_NL]"
    using plain by (simp add: lexes_intros)
  then have "says 0 (putl (sq @ k @ sq @ '' => '' @ sq @ v @ sq @ '',''))
      [RT_STR k, RT_ARROW, RT_STR v, RT_COMMA, RT_NL]"
    by (intro says_putl) simp
  moreover have "entries L [RT_STR k, RT_ARROW, RT_STR v, RT_COMMA, RT_NL] [(RStr UTF8 k, RStr UTF8 v)]"
    using entries_line [OF reads_atom reads_atom, of L "RT_STR k" _ "RT_STR v"] by simp
  ultimately have "writes L (putl (sq @ k @ sq @ '' => '' @ sq @ v @ sq @ '','')) [(RStr UTF8 k, RStr UTF8 v)]"
    unfolding writes_def by blast
  moreover have "writes L (out_annotations anns) (map (\<lambda>(k, v). (RStr UTF8 k, RStr UTF8 v)) anns)"
    using Cons by (simp add: plain_annotations_def)
  ultimately show ?case
    using writes_bind [where f = "\<lambda>_. out_annotations anns"] by (fastforce simp: a out_annotations_def)
qed

lemma says_block_append: "says a (block ms) ts \<Longrightarrow> says b (block ms') us \<Longrightarrow> says (a + b) (block (ms @ ms')) (ts @ us)"
proof -
  assume a: "says a (block ms) ts" and b: "says b (block ms') us"
  have "block (ms @ ms') = sbind (block ms) (\<lambda>_. block ms')"
  proof (induction ms)
    case Nil
    show ?case by (simp add: block_def sbind_unit_fun del: sret_apply)
  next
    case (Cons m ms)
    then show ?case by (auto simp: block_def sbind_def split: prod.splits sum.splits)
  qed
  then show ?thesis using says_bind [OF a, of b "\<lambda>_. block ms'"] b by simp
qed

text \<open>A hash over several lines, and the same as the value of a symbol.\<close>

lemma says_table:
  assumes "writes L (block ms) kvs" "lexes (head_line @ nl) (ts @ [RT_LBRACE, RT_NL])" "p = putl \<or> p = (\<lambda>s. out_str (s @ nl))"
    "lexes last_line (RT_RBRACE # us)"
  shows "\<exists>vs. reads L vs (RHash (hash_of kvs))
    \<and> says 0 (block ([p head_line, out_indent_up] @ ms @ [out_indent_down, put last_line])) (ts @ vs @ us)"
proof -
  obtain bs where bs: "says 0 (block ms) bs" "entries L bs kvs"
    using assms(1) unfolding writes_def by blast
  have "entries L (RT_NL # bs) kvs" using entries_append [OF entries_nl bs(2)] by simp
  then have "reads L (RT_LBRACE # (RT_NL # bs) @ [RT_RBRACE]) (RHash (hash_of kvs))" by (rule reads_hash)
  moreover have "says 0 (p head_line) (ts @ [RT_LBRACE, RT_NL])"
    using assms(2,3) by (auto intro: says_putl says_out_str)
  then have "says 1 (block [p head_line, out_indent_up]) (ts @ [RT_LBRACE, RT_NL])"
    using says_block_Cons [OF _ says_block_Cons [OF says_up says_block_Nil]] by fastforce
  moreover have "says (- 1) (block [out_indent_down, put last_line]) (RT_RBRACE # us)"
    using says_block_Cons [OF says_down says_block_Cons [OF says_put [OF assms(4)] says_block_Nil]] by simp
  ultimately show ?thesis
    using says_block_append [OF _ says_block_append [OF bs(1)]] by fastforce
qed

lemma writes_annotations:
  assumes "plain_annotations anns"
  shows "\<exists>h. writes L (block [putl '':annotations => {'', out_indent_up, out_annotations anns, out_indent_down,
    putl ''},'']) [(RSym ''annotations'', h)]"
proof -
  have "lexes ('':annotations => {'' @ nl) ([RT_SYM ''annotations'', RT_ARROW] @ [RT_LBRACE, RT_NL])"
    using lexes_key [OF keys(11), of "''{'' @ nl"] by (simp add: lexes_intros)
  moreover have "lexes (''},'' @ nl) (RT_RBRACE # [RT_COMMA, RT_NL])"
    by (simp add: lexes_intros)
  moreover have "writes L (block [out_annotations anns]) (map (\<lambda>(k, v). (RStr UTF8 k, RStr UTF8 v)) anns @ [])"
    by (intro writes_Cons writes_Nil out_annotations_writes assms)
  ultimately obtain vs where "reads L vs (RHash (hash_of (map (\<lambda>(k, v). (RStr UTF8 k, RStr UTF8 v)) anns @ [])))"
    and "says 0 (block ([putl '':annotations => {'', out_indent_up] @ [out_annotations anns]
      @ [out_indent_down, put (''},'' @ nl)])) ([RT_SYM ''annotations'', RT_ARROW] @ vs @ [RT_COMMA, RT_NL])"
    using says_table [where p = putl] by metis
  then show ?thesis unfolding writes_def using entries_key by (fastforce simp: putl_def)
qed

end
