(* ===== verification/LoadProps.thy ===== *)
theory LoadProps
  imports RubyText
begin

text \<open>
  The table of fields that the Ruby generator writes for a struct, read by Ruby and handed to the
  extension, is the table of the struct's Thrift types: the text of \<^verbatim>\<open>generate_field_defns\<close>
  is an assignment to \<^verbatim>\<open>FIELDS\<close>, and \<^verbatim>\<open>CreateFieldInfoMap\<close> makes of its value what
  the types say (\<open>type_entry\<close>).
\<close>

section \<open>What a type stands for\<close>

text \<open>
  The entry of a table that a Thrift type asks for: its wire type behind the typedefs, the class of a
  struct as the loaded constants give it, and the elements of a container, which have no name. It
  is undefined for a type that cannot be loaded, where an enum needs its class as well.
\<close>

fun wire_type :: "t_base \<Rightarrow> ttype option" where
  "wire_type TYPE_VOID = None"
| "wire_type TYPE_STRING = Some T_STRING"
| "wire_type TYPE_BOOL = Some T_BOOL"
| "wire_type TYPE_BYTE = Some T_BYTE"
| "wire_type TYPE_I16 = Some T_I16"
| "wire_type TYPE_I32 = Some T_I32"
| "wire_type TYPE_I64 = Some T_I64"
| "wire_type TYPE_DOUBLE = Some T_DOUBLE"

definition class_value :: "gen_env \<Rightarrow> constants \<Rightarrow> t_type \<Rightarrow> rvalue option" where
  "class_value env L t =
     (case full_type_name env t of
        Inr full \<Rightarrow> if const_path full then L full else None
      | Inl e \<Rightarrow> None)"

fun type_entry :: "nat \<Rightarrow> gen_env \<Rightarrow> constants \<Rightarrow> t_type \<Rightarrow> string \<Rightarrow> bool \<Rightarrow> FieldInfo option" where
  "type_entry 0 env L ty name opt = None"
| "type_entry (Suc n) env L ty name opt =
     (let info = (\<lambda>t k. FieldInfo t k (if name = [] then None else Some (''@'' @ name))
                   (if name = [] then None else Some name) opt);
          sub = (\<lambda>e. type_entry n env L e [] False) in
      case true_type env ty of
        Inl e \<Rightarrow> None
      | Inr t \<Rightarrow>
        (case t of
           t_base_type nm b bin sl \<Rightarrow>
             map_option (\<lambda>w. info w None (b = TYPE_STRING \<and> bin) None None) (wire_type b)
         | t_enum_type e \<Rightarrow> map_option (\<lambda>v. info T_I32 None False None None) (class_value env L t)
         | t_struct_type s \<Rightarrow>
             map_option (\<lambda>v. info T_STRUCT (class_object v) False None None) (class_value env L t)
         | t_list e \<Rightarrow> map_option (\<lambda>el. info T_LIST None False (Some el) None) (sub e)
         | t_set e \<Rightarrow> map_option (\<lambda>el. info T_SET None False (Some el) None) (sub e)
         | t_map k v \<Rightarrow>
             (case (sub k, sub v) of
                (Some ky, Some el) \<Rightarrow> Some (info T_MAP None False (Some el) (Some ky))
              | _ \<Rightarrow> None)
         | t_typedef p s target \<Rightarrow> None))"

declare type_entry.simps(2) [simp del]

section \<open>Defaults\<close>

text \<open>
  Defaults that are numbers, truth values, strings or values of enums; those of type double are
  written as integers here.
\<close>

definition simple_default :: "gen_env \<Rightarrow> t_type \<Rightarrow> t_const_value \<Rightarrow> bool" where
  "simple_default env ty v =
     (case true_type env ty of
        Inr (t_base_type n b bin sl) \<Rightarrow>
          b = TYPE_STRING
          \<or> (b \<noteq> TYPE_VOID \<and> (b = TYPE_DOUBLE \<longrightarrow> cv_type v = CVT_INTEGER) \<and> is_ok (get_integer v))
      | Inr (t_enum_type e) \<Rightarrow> is_ok (get_integer v)
      | _ \<Rightarrow> False)"

lemma true_type_again:
  assumes "true_type env ty = Inr t"
  shows "true_type env t = Inr t"
proof (cases "env_fuel env")
  case 0
  then show ?thesis using assms by (simp add: true_type_def)
next
  case (Suc n)
  then show ?thesis
    using get_true_type_not_typedef [OF assms [unfolded true_type_def]] get_true_type_direct
    by (simp add: true_type_def)
qed

lemma render_simple_default:
  assumes "true_type env t = Inr t" "simple_default env t v"
  shows "\<exists>d. valued L (render_const_value env t v) d"
proof -
  have show_it: "\<exists>d. valued L (out_integer show_it v) d" "\<exists>d. valued L (sbind out_indent (\<lambda>_. out_integer show_it v)) d"
    if ok: "is_ok (get_integer v)" and shown: "\<And>i. \<exists>vs d. ends (show_it i) vs \<and> reads L vs d" for show_it
  proof -
    obtain i where i: "get_integer v = Inr i" using ok by (auto simp: is_ok_iff)
    then obtain vs d where "ends (show_it i) vs" "reads L vs d" using shown by blast
    from valued_out_str [OF this] valued_put [OF this]
    show "\<exists>d. valued L (out_integer show_it v) d" "\<exists>d. valued L (sbind out_indent (\<lambda>_. out_integer show_it v)) d"
      by (auto simp: out_integer_def i sbind_unit_fun put_def)
  qed
  have int: "\<exists>vs d. ends (show_int i) vs \<and> reads L vs d" for i
    using ends_int reads_atom [of L "RT_INT i"] by fastforce
  have bool: "\<exists>vs d. ends (if 0 < i then ''true'' else ''false'') vs \<and> reads L vs d" for i :: int
    using ends_true ends_false reads_atom [of L RT_TRUE] reads_atom [of L RT_FALSE] by (cases "0 < i") fastforce+
  have str: "\<exists>d. valued L (out_str (''%q'' @ dq @ get_escaped_string v @ dq)) d"
    using valued_out_str [OF ends_lexes [OF lexes_q [OF lexes_Nil]] reads_atom, of L]
    by (fastforce simp: get_escaped_string_def)
  show ?thesis
    using assms(2) show_it(1) [OF _ int] show_it(2) [OF _ int] show_it(1) [OF _ bool] str
    by (subst render_const_value.simps)
       (auto simp: simple_default_def assms(1) sbind_unit_fun render_base_def split: t_type.splits t_base.splits)
qed

section \<open>The table of one field\<close>

definition optional_entry :: "string \<Rightarrow> rvalue option \<Rightarrow> (rvalue \<times> rvalue) list" where
  "optional_entry k v = (case v of None \<Rightarrow> [] | Some x \<Rightarrow> [(RSym k, x)])"

text \<open>The entries of a table in the order of the text; \<open>kind\<close> are those that depend on the type.\<close>

definition row :: "ttype \<Rightarrow> string \<Rightarrow> rvalue option \<Rightarrow> (rvalue \<times> rvalue) list \<Rightarrow> bool \<Rightarrow> rvalue option
    \<Rightarrow> rvalue option \<Rightarrow> (rvalue \<times> rvalue) list" where
  "row t name dv kind opt ec anns =
     [(RSym ''type'', RInt (ttype_id t))] @ (if name = [] then [] else [(RSym ''name'', RStr UTF8 name)])
     @ optional_entry ''default'' dv @ kind @ (if opt then [(RSym ''optional'', RBool True)] else [])
     @ optional_entry ''enum_class'' ec @ optional_entry ''annotations'' anns"

definition kind_ok :: "(rvalue \<times> rvalue) list \<Rightarrow> bool" where
  "kind_ok kind \<longleftrightarrow> distinct (map fst kind)
     \<and> fst ` set kind \<subseteq> RSym ` {''binary'', ''class'', ''element'', ''key'', ''value''}"

lemma row_distinct: "kind_ok kind \<Longrightarrow> distinct (map fst (row t name dv kind opt ec anns))"
  by (cases dv; cases ec; cases anns) (auto simp: row_def optional_entry_def kind_ok_def)

lemma kind_none: "kind_ok kind \<Longrightarrow> s \<notin> {''binary'', ''class'', ''element'', ''key'', ''value''} \<Longrightarrow>
    map_of kind (RSym s) = None"
  by (auto simp: kind_ok_def map_of_eq_None_iff)

lemma row_lookup:
  assumes "kind_ok kind" and r_def: "r = row t name dv kind opt ec anns"
  shows "rb_hash_aref (RHash r) ''type'' = Inr (RInt (ttype_id t))"
    "rb_hash_aref (RHash r) ''optional'' = Inr (if opt then RBool True else RNil)"
    "rb_hash_aref (RHash r) ''name'' = Inr (if name = [] then RNil else RStr UTF8 name)"
    "s \<in> {''binary'', ''class'', ''element'', ''key'', ''value''} \<Longrightarrow>
       rb_hash_aref (RHash r) s = Inr (case map_of kind (RSym s) of None \<Rightarrow> RNil | Some v \<Rightarrow> v)"
  using kind_none [OF assms(1)] unfolding r_def
  by (cases dv; cases ec; cases anns;
      auto simp: row_def optional_entry_def rb_hash_aref_def map_add_def split: option.splits)+

definition wire_types :: "ttype set" where
  "wire_types = {T_BOOL, T_BYTE, T_DOUBLE, T_I16, T_I32, T_I64, T_STRING, T_STRUCT, T_MAP, T_SET, T_LIST}"

lemma type_read_back: "t \<in> wire_types \<Longrightarrow> R_FIX_TO_TTYPE E (RInt (ttype_id t)) = Inr t"
proof -
  assume t: "t \<in> wire_types"
  then have "in_signed 32 (ttype_id t)" by (auto simp: wire_types_def in_signed_def)
  moreover have "ttype_of_id (ttype_id t) = t" using t by (auto simp: wire_types_def ttype_of_id_def)
  ultimately show ?thesis
    using sint_of_in_signed [where 'w = 32] by (simp add: R_FIX_TO_TTYPE_def VALUE2INT_def FIX2INT_def)
qed

lemma wire_ids:
  "R_FIX_TO_TTYPE E (RInt 2) = Inr T_BOOL" "R_FIX_TO_TTYPE E (RInt 3) = Inr T_BYTE"
  "R_FIX_TO_TTYPE E (RInt 4) = Inr T_DOUBLE" "R_FIX_TO_TTYPE E (RInt 6) = Inr T_I16"
  "R_FIX_TO_TTYPE E (RInt 8) = Inr T_I32" "R_FIX_TO_TTYPE E (RInt 10) = Inr T_I64"
  "R_FIX_TO_TTYPE E (RInt 11) = Inr T_STRING" "R_FIX_TO_TTYPE E (RInt 12) = Inr T_STRUCT"
  "R_FIX_TO_TTYPE E (RInt 13) = Inr T_MAP" "R_FIX_TO_TTYPE E (RInt 14) = Inr T_SET"
  "R_FIX_TO_TTYPE E (RInt 15) = Inr T_LIST"
  using type_read_back [of T_BOOL E] type_read_back [of T_BYTE E] type_read_back [of T_DOUBLE E]
    type_read_back [of T_I16 E] type_read_back [of T_I32 E] type_read_back [of T_I64 E]
    type_read_back [of T_STRING E] type_read_back [of T_STRUCT E] type_read_back [of T_MAP E]
    type_read_back [of T_SET E] type_read_back [of T_LIST E]
  by (simp_all add: wire_types_def)

text \<open>The part of a description that does not depend on the type.\<close>

definition described :: "string \<Rightarrow> bool \<Rightarrow> ttype \<Rightarrow> klass option \<Rightarrow> bool \<Rightarrow> FieldInfo option \<Rightarrow> FieldInfo option
    \<Rightarrow> FieldInfo" where
  "described name opt t k = FieldInfo t k (if name = [] then None else Some (''@'' @ name))
     (if name = [] then None else Some name) opt"

lemma row_info:
  assumes "kind_ok kind" and r_def: "r = RHash (row t name dv kind opt ec anns)"
  shows
    "t \<in> {T_BOOL, T_BYTE, T_DOUBLE, T_I16, T_I32, T_I64} \<Longrightarrow>
       CreateFieldInfo E r = Inr (described name opt t None False None None)"
    "t = T_STRING \<Longrightarrow> kind = (if bin then [(RSym ''binary'', RBool True)] else []) \<Longrightarrow>
       CreateFieldInfo E r = Inr (described name opt t None bin None None)"
    "t = T_STRUCT \<Longrightarrow> kind = [(RSym ''class'', c)] \<Longrightarrow>
       CreateFieldInfo E r = Inr (described name opt t (class_object c) False None None)"
    "t \<in> {T_LIST, T_SET} \<Longrightarrow> kind = [(RSym ''element'', e)] \<Longrightarrow> CreateFieldInfo E e = Inr el \<Longrightarrow>
       CreateFieldInfo E r = Inr (described name opt t None False (Some el) None)"
    "t = T_MAP \<Longrightarrow> kind = [(RSym ''key'', k), (RSym ''value'', e)] \<Longrightarrow>
       CreateFieldInfo E k = Inr ky \<Longrightarrow> CreateFieldInfo E e = Inr el \<Longrightarrow>
       CreateFieldInfo E r = Inr (described name opt t None False (Some el) (Some ky))"
proof -
  have look: "rb_hash_aref r ''type'' = Inr (RInt (ttype_id t))"
    "rb_hash_aref r ''optional'' = Inr (if opt then RBool True else RNil)"
    "rb_hash_aref r ''name'' = Inr (if name = [] then RNil else RStr UTF8 name)"
    and kinds: "\<And>s. s \<in> {''binary'', ''class'', ''element'', ''key'', ''value''} \<Longrightarrow>
       rb_hash_aref r s = Inr (case map_of kind (RSym s) of None \<Rightarrow> RNil | Some v \<Rightarrow> v)"
    and r: "\<not> NIL_P r"
    unfolding r_def by (simp_all only: row_lookup [OF assms(1) refl] NIL_P_def rvalue.distinct not_False_eq_True)
  note info = CreateFieldInfo.simps [of E r] look kinds r wire_ids RTEST_def described_def
    field_name_to_ivar_id_def field_name_to_sym_def
  show "t \<in> {T_BOOL, T_BYTE, T_DOUBLE, T_I16, T_I32, T_I64} \<Longrightarrow>
       CreateFieldInfo E r = Inr (described name opt t None False None None)"
    by (auto simp: info)
  show "t = T_STRING \<Longrightarrow> kind = (if bin then [(RSym ''binary'', RBool True)] else []) \<Longrightarrow>
       CreateFieldInfo E r = Inr (described name opt t None bin None None)"
    by (simp add: info)
  show "t = T_STRUCT \<Longrightarrow> kind = [(RSym ''class'', c)] \<Longrightarrow>
       CreateFieldInfo E r = Inr (described name opt t (class_object c) False None None)"
    by (simp add: info)
  show "t \<in> {T_LIST, T_SET} \<Longrightarrow> kind = [(RSym ''element'', e)] \<Longrightarrow> CreateFieldInfo E e = Inr el \<Longrightarrow>
       CreateFieldInfo E r = Inr (described name opt t None False (Some el) None)"
    by (auto simp: info)
  show "t = T_MAP \<Longrightarrow> kind = [(RSym ''key'', k), (RSym ''value'', e)] \<Longrightarrow>
       CreateFieldInfo E k = Inr ky \<Longrightarrow> CreateFieldInfo E e = Inr el \<Longrightarrow>
       CreateFieldInfo E r = Inr (described name opt t None False (Some el) (Some ky))"
    by (simp add: info)
qed

text \<open>The lines around those that depend on the type.\<close>

definition type_line :: "gen_env \<Rightarrow> t_type \<Rightarrow> unit emit" where
  "type_line env t = sbind (slift (type_to_enum env t)) (\<lambda>te. putl ('':type => '' @ te @ '',''))"

definition name_line :: "string \<Rightarrow> unit emit" where
  "name_line name = (if name \<noteq> [] then putl ('':name => '' @ sq @ name @ sq @ '','') else sret ())"

definition default_line :: "gen_env \<Rightarrow> t_type \<Rightarrow> t_const_value option \<Rightarrow> unit emit" where
  "default_line env t fvalue =
     (case fvalue of None \<Rightarrow> sret ()
      | Some v \<Rightarrow> block [put '':default => '', render_const_value env t v, out_str ('','' @ nl)])"

definition optional_line :: "bool \<Rightarrow> unit emit" where
  "optional_line opt = (if opt then putl '':optional => true,'' else sret ())"

definition enum_lines :: "gen_env \<Rightarrow> t_type \<Rightarrow> unit emit" where
  "enum_lines env t =
     (if is_enum t then sbind (slift (full_type_name env t)) (\<lambda>full.
        block [put ('':enum_class => '' @ full), putl '','']) else sret ())"

definition annotation_lines :: "annotations option \<Rightarrow> unit emit" where
  "annotation_lines anns =
     (case anns of None \<Rightarrow> sret ()
      | Some a \<Rightarrow> block [putl '':annotations => {'', out_indent_up, out_annotations a, out_indent_down,
           putl ''},''])"

lemma writes_name: "plain name \<Longrightarrow>
  writes L (name_line name) (if name = [] then [] else [(RSym ''name'', RStr UTF8 name)])"
  using writes_line(1) [OF keys(2) ends_sq reads_atom, of name L] writes_Nil(2) [of L]
  by (auto simp: name_line_def simp del: sret_apply)

lemma writes_default:
  assumes "true_type env t = Inr t" "\<And>v. fvalue = Some v \<Longrightarrow> simple_default env t v"
  shows "\<exists>dv. writes L (default_line env t fvalue) (optional_entry ''default'' dv)"
proof (cases fvalue)
  case None
  then show ?thesis
    using writes_Nil(2) [of L] by (auto simp: default_line_def optional_entry_def intro!: exI [of _ None] simp del: sret_apply)
next
  case (Some v)
  obtain d where "valued L (render_const_value env t v) d"
    using render_simple_default assms Some by blast
  from writes_value [OF keys(3) this, of put] Some show ?thesis
    by (auto simp: default_line_def optional_entry_def intro!: exI [of _ "Some d"])
qed

lemma writes_optional: "writes L (optional_line opt) (if opt then [(RSym ''optional'', RBool True)] else [])"
  using writes_line(1) [OF keys(9) ends_true reads_atom, of L "RBool True"] writes_Nil(2) [of L]
  by (auto simp: optional_line_def simp del: sret_apply)

lemma class_valueD:
  "class_value env L t = Some v \<Longrightarrow> \<exists>full. full_type_name env t = Inr full \<and> const_path full \<and> L full = Some v"
  by (auto simp: class_value_def split: sum.splits if_splits)

lemma writes_enum:
  assumes "is_enum t \<Longrightarrow> class_value env L t \<noteq> None"
  shows "\<exists>ec. writes L (enum_lines env t) (optional_entry ''enum_class'' ec)"
proof (cases "is_enum t")
  case True
  then obtain full v where v: "full_type_name env t = Inr full" "const_path full" "L full = Some v"
    using assms class_valueD by blast
  have "writes L (block [put ('':enum_class => '' @ full), putl '','']) [(RSym ''enum_class'', v)]"
    using writes_class [OF keys(10) ends_const [OF v(2)] reads_atom, of L v] v(3) by simp
  then show ?thesis
    using True v(1) by (auto simp: enum_lines_def sbind_unit_fun optional_entry_def intro!: exI [of _ "Some v"])
next
  case False
  then show ?thesis
    using writes_Nil(2) [of L] by (auto simp: enum_lines_def optional_entry_def intro!: exI [of _ None] simp del: sret_apply)
qed

lemma writes_annotation_lines:
  assumes "\<And>a. anns = Some a \<Longrightarrow> plain_annotations a"
  shows "\<exists>an. writes L (annotation_lines anns) (optional_entry ''annotations'' an)"
proof (cases anns)
  case None
  then show ?thesis
    using writes_Nil(2) [of L] by (auto simp: annotation_lines_def optional_entry_def intro!: exI [of _ None] simp del: sret_apply)
next
  case (Some a)
  from writes_annotations [OF assms [OF this], of L] Some show ?thesis
    by (auto simp: annotation_lines_def optional_entry_def intro: exI [of _ "Some _"])
qed

lemma row_says:
  assumes te: "type_to_enum env t = Inr te" "const_path te" "L te = Some (RInt (ttype_id w))"
    and t: "true_type env t = Inr t" and name: "plain name"
    and dflt: "\<And>v. fvalue = Some v \<Longrightarrow> simple_default env t v"
    and enum: "is_enum t \<Longrightarrow> class_value env L t \<noteq> None"
    and anns: "\<And>a. anns = Some a \<Longrightarrow> plain_annotations a"
    and kind: "writes L kindm kind" "kind_ok kind"
  shows "\<exists>ts dv ec an. reads L ts (RHash (row w name dv kind opt ec an)) \<and>
    says 0 (block [out_str (''{'' @ nl), out_indent_up, type_line env t, name_line name, default_line env t fvalue,
      kindm, optional_line opt, enum_lines env t, annotation_lines anns, out_indent_down, put ''}'']) ts"
proof -
  obtain dv where dv: "writes L (default_line env t fvalue) (optional_entry ''default'' dv)"
    using writes_default [OF t dflt] by blast
  obtain ec where ec: "writes L (enum_lines env t) (optional_entry ''enum_class'' ec)"
    using writes_enum enum by blast
  obtain an where an: "writes L (annotation_lines anns) (optional_entry ''annotations'' an)"
    using writes_annotation_lines anns by blast
  have "writes L (type_line env t) [(RSym ''type'', RInt (ttype_id w))]"
    using writes_line(1) [OF keys(1) ends_const [OF te(2)] reads_atom, of L] te(3)
    by (simp add: type_line_def te(1) sbind_unit_fun)
  note lines = this writes_name [OF name] dv kind(1) writes_optional ec an
  have "writes L (block [type_line env t, name_line name, default_line env t fvalue, kindm, optional_line opt,
      enum_lines env t, annotation_lines anns]) (row w name dv kind opt ec an @ [])"
    unfolding row_def append_assoc by (intro writes_Cons lines writes_Nil)
  from says_table [OF this, where ts = "[]" and p = "\<lambda>s. out_str (s @ nl)" and head_line = "''{''" and last_line = "''}''" and us = "[]"]
  obtain ts where "reads L ts (RHash (hash_of (row w name dv kind opt ec an)))"
    "says 0 (block [out_str (''{'' @ nl), out_indent_up, type_line env t, name_line name, default_line env t fvalue,
      kindm, optional_line opt, enum_lines env t, annotation_lines anns, out_indent_down, put ''}'']) ts"
    by (auto simp: lexes_intros)
  then show ?thesis
    using hash_of_distinct [OF row_distinct [OF kind(2)]] by metis
qed

definition kind_lines :: "nat \<Rightarrow> gen_env \<Rightarrow> t_type \<Rightarrow> unit emit" where
  "kind_lines n env t =
     (let element = (\<lambda>key ety. block [out_str key, generate_field_data n env ety [] None False None,
                       out_str ('','' @ nl)]) in
      case t of
        t_base_type nm b bin sl \<Rightarrow> if is_binary t then out_str ('':binary => true,'' @ nl) else sret ()
      | t_struct_type s \<Rightarrow>
          sbind (slift (full_type_name env t)) (\<lambda>full. putl ('':class => '' @ full @ '',''))
      | t_list e \<Rightarrow> element '':element => '' e
      | t_map k v \<Rightarrow> block [element '':key => '' k, element '':value => '' v]
      | t_set e \<Rightarrow> element '':element => '' e
      | _ \<Rightarrow> sret ())"

lemma field_data_lines:
  "true_type env ty = Inr t \<Longrightarrow>
   generate_field_data (Suc n) env ty name fvalue opt anns =
     block [out_str (''{'' @ nl), out_indent_up, type_line env t, name_line name, default_line env t fvalue,
      kind_lines n env t, optional_line opt, enum_lines env t, annotation_lines anns, out_indent_down, put ''}'']"
  by (simp add: sbind_unit_fun type_line_def name_line_def default_line_def kind_lines_def optional_line_def
      enum_lines_def annotation_lines_def Let_def del: sret_apply)

lemma types_paths:
  assumes "types_loaded L"
  shows "const_path ''::Sparsam::Types::BOOL'' \<and> L ''::Sparsam::Types::BOOL'' = Some (RInt (ttype_id T_BOOL))"
    "const_path ''::Sparsam::Types::BYTE'' \<and> L ''::Sparsam::Types::BYTE'' = Some (RInt (ttype_id T_BYTE))"
    "const_path ''::Sparsam::Types::DOUBLE'' \<and> L ''::Sparsam::Types::DOUBLE'' = Some (RInt (ttype_id T_DOUBLE))"
    "const_path ''::Sparsam::Types::I16'' \<and> L ''::Sparsam::Types::I16'' = Some (RInt (ttype_id T_I16))"
    "const_path ''::Sparsam::Types::I32'' \<and> L ''::Sparsam::Types::I32'' = Some (RInt (ttype_id T_I32))"
    "const_path ''::Sparsam::Types::I64'' \<and> L ''::Sparsam::Types::I64'' = Some (RInt (ttype_id T_I64))"
    "const_path ''::Sparsam::Types::STRING'' \<and> L ''::Sparsam::Types::STRING'' = Some (RInt (ttype_id T_STRING))"
    "const_path ''::Sparsam::Types::STRUCT'' \<and> L ''::Sparsam::Types::STRUCT'' = Some (RInt (ttype_id T_STRUCT))"
    "const_path ''::Sparsam::Types::MAP'' \<and> L ''::Sparsam::Types::MAP'' = Some (RInt (ttype_id T_MAP))"
    "const_path ''::Sparsam::Types::SET'' \<and> L ''::Sparsam::Types::SET'' = Some (RInt (ttype_id T_SET))"
    "const_path ''::Sparsam::Types::LIST'' \<and> L ''::Sparsam::Types::LIST'' = Some (RInt (ttype_id T_LIST))"
  using assms unfolding types_loaded_def Types_def
  by (simp_all add: const_path.simps word_char_def is_upper_def is_lower_def is_digit_def char_between_def)

text \<open>What the type contributes to a table.\<close>

definition typed_lines :: "ruby_env \<Rightarrow> constants \<Rightarrow> gen_env \<Rightarrow> t_type \<Rightarrow> unit emit \<Rightarrow> string \<Rightarrow> bool
    \<Rightarrow> FieldInfo \<Rightarrow> bool" where
  "typed_lines E L env t kindm name opt info \<longleftrightarrow> (\<exists>te w kind. type_to_enum env t = Inr te
     \<and> (const_path te \<and> L te = Some (RInt (ttype_id w))) \<and> (is_enum t \<longrightarrow> class_value env L t \<noteq> None)
     \<and> writes L kindm kind \<and> kind_ok kind
     \<and> (\<forall>dv ec an. CreateFieldInfo E (RHash (row w name dv kind opt ec an)) = Inr info))"

lemma typed_linesI:
  assumes "type_to_enum env t = Inr te" "const_path te \<and> L te = Some (RInt (ttype_id w))"
    "is_enum t \<longrightarrow> class_value env L t \<noteq> None" "writes L kindm kind" "kind_ok kind"
    "\<And>dv ec an. CreateFieldInfo E (RHash (row w name dv kind opt ec an)) = Inr info"
  shows "typed_lines E L env t kindm name opt info"
  unfolding typed_lines_def using assms by blast

lemma kind_oks:
  "kind_ok []" "kind_ok [(RSym ''binary'', v)]" "kind_ok [(RSym ''class'', v)]" "kind_ok [(RSym ''element'', v)]"
  "kind_ok [(RSym ''key'', k), (RSym ''value'', v)]"
  by (auto simp: kind_ok_def)

lemma typed_base:
  assumes "types_loaded L" "true_type env t = Inr t" "t = t_base_type nm b bin sl" "wire_type b = Some w"
  shows "typed_lines E L env t (kind_lines n env t) name opt
    (described name opt w None (b = TYPE_STRING \<and> bin) None None)"
proof (cases "b = TYPE_STRING \<and> bin")
  case True
  have "writes L (kind_lines n env t) [(RSym ''binary'', RBool True)]"
    using writes_line(2) [OF keys(4) ends_true reads_atom, of L "RBool True"] True
    by (simp add: kind_lines_def assms(3))
  then show ?thesis
    unfolding typed_lines_def
    using True assms types_paths(7) [OF assms(1)] row_info(2) [OF kind_oks(2) refl refl, where bin = True] kind_oks(2)
    by (intro exI [of _ "''::Sparsam::Types::STRING''"] exI [of _ T_STRING] exI conjI)
       (auto simp: type_to_enum_def)
next
  case False
  have kind: "writes L (kind_lines n env t) []"
    using False writes_Nil(2) [of L] by (auto simp: kind_lines_def assms(3) simp del: sret_apply)
  obtain te where te: "base_to_enum b = Inr te" "const_path te \<and> L te = Some (RInt (ttype_id w))"
    using assms(4) types_paths [OF assms(1)] by (cases b) auto
  have info: "CreateFieldInfo E (RHash (row w name dv [] opt ec an)) = Inr (described name opt w None False None None)"
    for dv ec an
    using assms(4) False row_info(1) [OF kind_oks(1) refl] row_info(2) [OF kind_oks(1) refl, where bin = False]
    by (cases b) auto
  have ty: "type_to_enum env t = Inr te" using te(1) assms(2,3) by (simp add: type_to_enum_def)
  have bin: "(b = TYPE_STRING \<and> bin) = False" using False by simp
  show ?thesis
    unfolding bin by (rule typed_linesI [OF ty te(2) _ kind kind_oks(1) info]) (simp add: assms(3))
qed

lemma typed_enum:
  assumes "types_loaded L" "true_type env t = Inr t" "t = t_enum_type e" "class_value env L t \<noteq> None"
  shows "typed_lines E L env t (kind_lines n env t) name opt (described name opt T_I32 None False None None)"
proof -
  have "writes L (kind_lines n env t) []"
    using writes_Nil(2) [of L] by (auto simp: kind_lines_def assms(3) simp del: sret_apply)
  then show ?thesis
    unfolding typed_lines_def
    using assms types_paths(5) [OF assms(1)] row_info(1) [OF kind_oks(1) refl, where t = T_I32] kind_oks(1)
    by (intro exI [of _ "''::Sparsam::Types::I32''"] exI [of _ T_I32] exI conjI)
       (auto simp: type_to_enum_def)
qed

lemma typed_struct:
  assumes "types_loaded L" "true_type env t = Inr t" "t = t_struct_type s" "class_value env L t = Some v"
  shows "typed_lines E L env t (kind_lines n env t) name opt
    (described name opt T_STRUCT (class_object v) False None None)"
proof -
  obtain full where full: "full_type_name env t = Inr full" "const_path full" "L full = Some v"
    using class_valueD [OF assms(4)] by blast
  have "writes L (kind_lines n env t) [(RSym ''class'', v)]"
    using writes_line(1) [OF keys(5) ends_const [OF full(2)] reads_atom, of L v] full
    by (simp add: kind_lines_def assms(3) sbind_unit_fun)
  then show ?thesis
    unfolding typed_lines_def
    using assms types_paths(8) [OF assms(1)] row_info(3) [OF kind_oks(3) refl refl refl] kind_oks(3)
    by (intro exI [of _ "''::Sparsam::Types::STRUCT''"] exI [of _ T_STRUCT] exI conjI)
       (auto simp: type_to_enum_def)
qed

text \<open>The table of an element, as its type's lines refer to it.\<close>

definition loads :: "ruby_env \<Rightarrow> constants \<Rightarrow> unit emit \<Rightarrow> FieldInfo \<Rightarrow> bool" where
  "loads E L m info \<longleftrightarrow> (\<exists>ts r. says 0 m ts \<and> reads L ts r \<and> CreateFieldInfo E r = Inr info)"

lemma loads_value: "loads E L m info \<Longrightarrow> \<exists>r. valued L m r \<and> CreateFieldInfo E r = Inr info"
  unfolding loads_def using valued_says by blast

lemma typed_sequence:
  assumes "types_loaded L" "true_type env t = Inr t" "t = t_list e \<and> w = T_LIST \<or> t = t_set e \<and> w = T_SET"
    "loads E L (generate_field_data n env e [] None False None) el"
  shows "typed_lines E L env t (kind_lines n env t) name opt (described name opt w None False (Some el) None)"
proof -
  obtain r where r: "valued L (generate_field_data n env e [] None False None) r" "CreateFieldInfo E r = Inr el"
    using loads_value [OF assms(4)] by blast
  have "writes L (kind_lines n env t) [(RSym ''element'', r)]"
    using writes_value [OF keys(6) r(1), of out_str] assms(3) by (auto simp: kind_lines_def)
  moreover have "CreateFieldInfo E (RHash (row w name dv [(RSym ''element'', r)] opt ec an))
      = Inr (described name opt w None False (Some el) None)" for dv ec an
    using row_info(4) [OF kind_oks(4) refl _ refl r(2)] assms(3) by blast
  moreover obtain te where "type_to_enum env t = Inr te" "const_path te \<and> L te = Some (RInt (ttype_id w))"
    using assms(2,3) types_paths(10,11) [OF assms(1)] by (auto simp: type_to_enum_def)
  moreover have "is_enum t \<longrightarrow> class_value env L t \<noteq> None" using assms(3) by auto
  ultimately show ?thesis
    using typed_linesI [OF _ _ _ _ kind_oks(4)] by metis
qed

lemma typed_map:
  assumes "types_loaded L" "true_type env t = Inr t" "t = t_map k v"
    "loads E L (generate_field_data n env k [] None False None) ky"
    "loads E L (generate_field_data n env v [] None False None) el"
  shows "typed_lines E L env t (kind_lines n env t) name opt (described name opt T_MAP None False (Some el) (Some ky))"
proof -
  obtain r where r: "valued L (generate_field_data n env k [] None False None) r" "CreateFieldInfo E r = Inr ky"
    using loads_value [OF assms(4)] by blast
  obtain s where s: "valued L (generate_field_data n env v [] None False None) s" "CreateFieldInfo E s = Inr el"
    using loads_value [OF assms(5)] by blast
  have "writes L (kind_lines n env t) [(RSym ''key'', r), (RSym ''value'', s)]"
    using writes_Cons [OF writes_value [OF keys(7) r(1), of out_str]
        writes_Cons [OF writes_value [OF keys(8) s(1), of out_str] writes_Nil(1)]] assms(3)
    by (simp add: kind_lines_def)
  then show ?thesis
    unfolding typed_lines_def
    using assms(2,3) types_paths(9) [OF assms(1)] row_info(5) [OF kind_oks(5) refl refl refl r(2) s(2)] kind_oks(5)
    by (intro exI [of _ "''::Sparsam::Types::MAP''"] exI [of _ T_MAP] exI conjI)
       (auto simp: type_to_enum_def)
qed

lemma typed_entry:
  assumes L: "types_loaded L" and t: "true_type env ty = Inr t"
    and entry: "type_entry (Suc n) env L ty name opt = Some info"
    and sub: "\<And>ty el. type_entry n env L ty [] False = Some el \<Longrightarrow>
      loads E L (generate_field_data n env ty [] None False None) el"
  shows "typed_lines E L env t (kind_lines n env t) name opt info"
proof (cases t)
  case (t_base_type nm b bin sl)
  then obtain w where "wire_type b = Some w" "info = described name opt w None (b = TYPE_STRING \<and> bin) None None"
    using entry t by (auto simp: type_entry.simps(2) described_def)
  then show ?thesis using typed_base [OF L true_type_again [OF t] t_base_type] by simp
next
  case (t_enum_type e)
  then have "class_value env L t \<noteq> None" "info = described name opt T_I32 None False None None"
    using entry t by (auto simp: type_entry.simps(2) described_def)
  then show ?thesis using typed_enum [OF L true_type_again [OF t] t_enum_type] by simp
next
  case (t_struct_type s)
  then obtain v where "class_value env L t = Some v" "info = described name opt T_STRUCT (class_object v) False None None"
    using entry t by (auto simp: type_entry.simps(2) described_def)
  then show ?thesis using typed_struct [OF L true_type_again [OF t] t_struct_type] by simp
next
  case (t_list e)
  then obtain el where "type_entry n env L e [] False = Some el" "info = described name opt T_LIST None False (Some el) None"
    using entry t by (auto simp: type_entry.simps(2) described_def)
  then show ?thesis using typed_sequence [OF L true_type_again [OF t]] t_list sub by blast
next
  case (t_set e)
  then obtain el where "type_entry n env L e [] False = Some el" "info = described name opt T_SET None False (Some el) None"
    using entry t by (auto simp: type_entry.simps(2) described_def)
  then show ?thesis using typed_sequence [OF L true_type_again [OF t]] t_set sub by blast
next
  case (t_map k v)
  then obtain ky el where "type_entry n env L k [] False = Some ky" "type_entry n env L v [] False = Some el"
    "info = described name opt T_MAP None False (Some el) (Some ky)"
    using entry t by (auto simp: type_entry.simps(2) described_def split: option.splits)
  then show ?thesis using typed_map [OF L true_type_again [OF t] t_map] sub by blast
next
  case (t_typedef p s target)
  then show ?thesis using entry t by (simp add: type_entry.simps(2))
qed

lemma data_loads:
  assumes L: "types_loaded L"
  shows "type_entry n env L ty name opt = Some info \<Longrightarrow> plain name \<Longrightarrow>
    (\<And>v. fvalue = Some v \<Longrightarrow> simple_default env ty v) \<Longrightarrow> (\<And>a. anns = Some a \<Longrightarrow> plain_annotations a) \<Longrightarrow>
    loads E L (generate_field_data n env ty name fvalue opt anns) info"
proof (induction n arbitrary: ty name fvalue opt anns info)
  case 0
  then show ?case by simp
next
  case (Suc n)
  obtain t where t: "true_type env ty = Inr t"
    using Suc.prems(1) by (cases "true_type env ty") (auto simp: type_entry.simps(2))
  have "loads E L (generate_field_data n env ty [] None False None) el"
    if "type_entry n env L ty [] False = Some el" for ty el
    by (rule Suc.IH [OF that]) (simp_all add: plain_def)
  from typed_entry [OF L t Suc.prems(1) this]
  obtain te w kind where te: "type_to_enum env t = Inr te" "const_path te" "L te = Some (RInt (ttype_id w))"
    and enum: "is_enum t \<longrightarrow> class_value env L t \<noteq> None" and kind: "writes L (kind_lines n env t) kind" "kind_ok kind"
    and info: "\<And>dv ec an. CreateFieldInfo E (RHash (row w name dv kind opt ec an)) = Inr info"
    unfolding typed_lines_def by blast
  have dflt: "simple_default env t v" if "fvalue = Some v" for v
    using Suc.prems(3) [OF that] t true_type_again [OF t] by (simp add: simple_default_def)
  show ?case
    using row_says [OF te true_type_again [OF t] Suc.prems(2) dflt _ Suc.prems(4) kind] enum info
    unfolding loads_def field_data_lines [OF t] by metis
qed

section \<open>The table of a struct\<close>

text \<open>A doc comment is nothing but line breaks.\<close>

lemma getline_1024_no_nl: "getline_1024 s = (line, rest, eof, bad) \<Longrightarrow> CHR 0x0A \<notin> set line"
proof (cases "str_find CHR 0x0A s")
  case None
  then have "CHR 0x0A \<notin> set s" by (simp add: str_find_None)
  moreover assume "getline_1024 s = (line, rest, eof, bad)"
  ultimately show ?thesis
    using None by (auto simp: getline_1024_def split: if_splits dest: in_set_takeD)
next
  case (Some j)
  moreover assume "getline_1024 s = (line, rest, eof, bad)"
  moreover have "\<not> j \<le> 1023 \<Longrightarrow> set (take 1023 s) \<subseteq> set (take j s)"
    by (simp add: set_take_subset_set_take)
  ultimately show ?thesis
    using str_find_Some(3) [OF Some] by (auto simp: getline_1024_def split: if_splits)
qed

lemma lexes_docstring:
  assumes "set ind \<subseteq> {CHR '' ''}"
  shows "\<exists>j. lexes (docstring_lines ind ''# '' doc) (replicate j RT_NL)"
proof (induction "length doc" arbitrary: doc rule: less_induct)
  case less
  obtain line rest eof bad where g: "getline_1024 doc = (line, rest, eof, bad)"
    by (cases "getline_1024 doc") auto
  have "CHR 0x0A \<notin> set (CHR '' '' # c_string line)"
    using getline_1024_no_nl [OF g] by (auto simp: c_string_def dest: set_takeWhileD)
  from lexes_append [OF lexes_spaces [OF assms] lexes_comment [OF this lexes_Nil]]
  have "\<exists>i. lexes (docstring_line ind ''# '' (c_string line) eof) (replicate i RT_NL)"
    by (cases "c_string line = [] \<and> eof")
       (auto simp: docstring_line_def lexes_Nil intro: exI [of _ 1] exI [of _ 0])
  then obtain i where i: "lexes (docstring_line ind ''# '' (c_string line) eof) (replicate i RT_NL)" ..
  obtain j where j: "lexes (if eof \<or> bad then [] else docstring_lines ind ''# '' rest) (replicate j RT_NL)"
  proof (cases "eof \<or> bad")
    case True
    then show ?thesis using that [of 0] by (simp add: lexes_Nil)
  next
    case False
    then show ?thesis using that less getline_1024_shorter [OF g] by auto
  qed
  from lexes_append [OF i j] show ?case
    by (subst docstring_lines.simps) (auto simp: g replicate_add [symmetric])
qed

lemma says_rdoc: "\<exists>j. says 0 (generate_rdoc this doc) (replicate j RT_NL)"
proof (cases doc)
  case None
  then show ?thesis using says_ret by (auto simp: generate_rdoc_def intro!: exI [of _ 0] simp del: sret_apply)
next
  case (Some d)
  obtain j where "lexes (docstring_lines (indent this) ''# '' d) (replicate j RT_NL)"
    using lexes_docstring [of "indent this" d] indentation_blank by (auto simp: indent_def)
  then have "says (0 + 0) (generate_rdoc this doc) ([] @ replicate j RT_NL)"
    unfolding Some generate_rdoc_def option.case
    by (intro says_bind says_out_indent says_out_str) (simp add: generate_docstring_comment_def)
  then show ?thesis by auto
qed

text \<open>An item of the table: its comment, its number and its value.\<close>

definition item :: "constants \<Rightarrow> unit emit \<Rightarrow> int \<Rightarrow> rvalue \<Rightarrow> bool" where
  "item L m k v \<longleftrightarrow> (\<exists>j vs. says 0 m (replicate j RT_NL @ RT_INT k # RT_ARROW # vs) \<and> reads L vs v)"

lemma field_item:
  assumes "loads E L (generate_field_data (env_fuel env) env (field_type f) (field_name f) (field_default f)
      (field_req f = T_OPTIONAL) (Some (field_annotations f))) info"
  shows "\<exists>v. item L (generate_field_entry env this f) (field_key f) v \<and> CreateFieldInfo E v = Inr info"
proof -
  obtain vs v where v: "says 0 (generate_field_data (env_fuel env) env (field_type f) (field_name f)
      (field_default f) (field_req f = T_OPTIONAL) (Some (field_annotations f))) vs"
    "reads L vs v" "CreateFieldInfo E v = Inr info"
    using assms unfolding loads_def by blast
  obtain j where j: "says 0 (generate_rdoc this (field_doc f)) (replicate j RT_NL)" using says_rdoc by blast
  have "lexes (show_int (field_key f) @ '' => '') [RT_INT (field_key f), RT_ARROW]"
    using ends_int [of "field_key f"] by (simp add: ends_def delim_def lexes_intros)
  from says_block_Cons [OF j says_block_Cons [OF says_put [OF this] says_block_Cons [OF v(1) says_block_Nil]]]
  show ?thesis using v(2,3) unfolding item_def generate_field_entry_def by fastforce
qed

lemma entries_nls: "entries L (replicate j RT_NL) []"
  using entries_append [OF entries_nl] by (induction j) (fastforce simp: entries_Nil)+

lemma sbind_assoc: "sbind (sbind a f) g = sbind a (\<lambda>x. sbind (f x) g)"
  by (auto simp: sbind_def fun_eq_iff split: prod.splits sum.splits)

lemma items_say:
  assumes "\<forall>z \<in> set (x # xs). item L (m z) (k z) (v z)"
  shows "\<exists>ts. says 0 (sbind (m x) (\<lambda>_. sfor (\<lambda>m. sbind (out_str ('','' @ nl)) (\<lambda>_. m)) (map m xs))) ts
    \<and> (\<forall>rest. rb_pairs L (2 * length ts) (skip_nl (ts @ RT_NL # RT_RBRACE # rest))
         = Some (map (\<lambda>x. (RInt (k x), v x)) (x # xs), rest))"
  using assms
proof (induction xs arbitrary: x)
  case Nil
  obtain j vs where j: "says 0 (m x) (replicate j RT_NL @ RT_INT (k x) # RT_ARROW # vs)" "reads L vs (v x)"
    using Nil unfolding item_def by auto
  have "rb_pairs L (2 * length (replicate j RT_NL @ RT_INT (k x) # RT_ARROW # vs))
      (skip_nl (replicate j RT_NL @ RT_INT (k x) # RT_ARROW # vs @ RT_NL # RT_RBRACE # rest))
      = Some ([(RInt (k x), v x)], rest)" for rest
    using entriesD [OF entries_nls last_pair [OF reads_atom j(2), of "RT_INT (k x)" "RInt (k x)" rest], of j] by simp
  moreover have "says 0 (sbind (m x) (\<lambda>_. sfor (\<lambda>m. sbind (out_str ('','' @ nl)) (\<lambda>_. m)) (map m [])))
      (replicate j RT_NL @ RT_INT (k x) # RT_ARROW # vs)"
    using says_bind [OF j(1), of 0 "\<lambda>_. sret ()" "[]"] says_ret by (simp del: sret_apply)
  ultimately show ?case by fastforce
next
  case (Cons y xs)
  obtain j vs where j: "says 0 (m x) (replicate j RT_NL @ RT_INT (k x) # RT_ARROW # vs)" "reads L vs (v x)"
    using Cons.prems unfolding item_def by fastforce
  let ?ts = "replicate j RT_NL @ RT_INT (k x) # RT_ARROW # vs @ [RT_COMMA, RT_NL]"
  obtain us where us: "says 0 (sbind (m y) (\<lambda>_. sfor (\<lambda>m. sbind (out_str ('','' @ nl)) (\<lambda>_. m)) (map m xs))) us"
    "\<And>rest. rb_pairs L (2 * length us) (skip_nl (us @ RT_NL # RT_RBRACE # rest))
         = Some (map (\<lambda>x. (RInt (k x), v x)) (y # xs), rest)"
    using Cons.IH [of y] Cons.prems by auto
  have e: "entries L ?ts [(RInt (k x), v x)]"
    using entries_append [OF entries_nls entries_line [OF reads_atom j(2), of "RT_INT (k x)" "RInt (k x)"]] by simp
  have "rb_pairs L (2 * length (?ts @ us)) (skip_nl ((?ts @ us) @ RT_NL # RT_RBRACE # rest))
      = Some (map (\<lambda>x. (RInt (k x), v x)) (x # y # xs), rest)" for rest
    using entriesD [OF e us(2), of _ rest] by simp
  moreover have assoc: "sbind (m x) (\<lambda>_. sfor (\<lambda>m. sbind (out_str ('','' @ nl)) (\<lambda>_. m)) (map m (y # xs)))
      = sbind (m x) (\<lambda>_. sbind (out_str ('','' @ nl)) (\<lambda>_.
          sbind (m y) (\<lambda>_. sfor (\<lambda>m. sbind (out_str ('','' @ nl)) (\<lambda>_. m)) (map m xs))))"
    unfolding list.map sfor.simps sbind_assoc ..
  moreover have "lexes ('','' @ nl) [RT_COMMA, RT_NL]" by (simp add: lexes_intros)
  from says_bind [OF j(1) says_bind [OF says_out_str [OF this] us(1)]]
  have "says 0 (sbind (m x) (\<lambda>_. sbind (out_str ('','' @ nl)) (\<lambda>_.
      sbind (m y) (\<lambda>_. sfor (\<lambda>m. sbind (out_str ('','' @ nl)) (\<lambda>_. m)) (map m xs))))) (?ts @ us)"
    by simp
  ultimately show ?case unfolding assoc by blast
qed

lemma separated_says:
  assumes "\<forall>x \<in> set xs. item L (m x) (k x) (v x)"
  shows "\<exists>ts. says 0 (separated (out_str ('','' @ nl)) (map m xs)) ts
    \<and> (\<forall>rest. rb_pairs L (2 * length ts + 1) (skip_nl (ts @ RT_NL # RT_RBRACE # rest))
         = Some (map (\<lambda>x. (RInt (k x), v x)) xs, rest))"
proof (cases xs)
  case Nil
  have "says 0 (separated (out_str ('','' @ nl)) (map m xs)) []" using says_ret Nil by (simp del: sret_apply)
  then show ?thesis using Nil by (intro exI [of _ "[]"]) (simp add: skip_nl_def rb_pairs_step)
next
  case (Cons x ys)
  have "\<forall>z \<in> set (x # ys). item L (m z) (k z) (v z)" using assms Cons by simp
  from items_say [OF this]
  obtain ts where ts: "says 0 (separated (out_str ('','' @ nl)) (map m xs)) ts"
    "\<And>rest. rb_pairs L (2 * length ts) (skip_nl (ts @ RT_NL # RT_RBRACE # rest))
         = Some (map (\<lambda>x. (RInt (k x), v x)) xs, rest)"
    using Cons by auto
  have "rb_pairs L (2 * length ts + 1) (skip_nl (ts @ RT_NL # RT_RBRACE # rest))
         = Some (map (\<lambda>x. (RInt (k x), v x)) xs, rest)" for rest
    by (rule rb_fuel(2) [OF _ ts(2)]) simp
  then show ?thesis using ts(1) by blast
qed

lemma read_assignment_hash:
  assumes "\<And>rest. rb_pairs L (2 * length ts + 1) (skip_nl (ts @ RT_NL # RT_RBRACE # rest)) = Some (kvs, rest)"
    and "rb_tokens text = Some ([RT_CONST name, RT_ASSIGN, RT_LBRACE, RT_NL] @ ts @ [RT_NL, RT_RBRACE, RT_NL, RT_NL])"
  shows "read_assignment L text = Some (name, RHash (hash_of kvs))"
proof -
  have "rb_pairs L (2 * length (RT_NL # ts @ [RT_NL]) + 1) (skip_nl ((RT_NL # ts @ [RT_NL]) @ RT_RBRACE # rest))
      = Some (kvs, rest)" for rest
    using rb_fuel(2) [OF _ assms(1), of _ rest] by (simp add: skip_nl_def)
  from readsD [OF reads_braces [OF this], of "2 * length (RT_LBRACE # RT_NL # ts @ [RT_NL, RT_RBRACE, RT_NL, RT_NL])"
      "[RT_NL, RT_NL]"]
  show ?thesis by (simp add: read_assignment_def assms(2) skip_nl_def)
qed

lemma lexes_fields_head: "lexes (''FIELDS = {'' @ nl) [RT_CONST ''FIELDS'', RT_ASSIGN, RT_LBRACE, RT_NL]"
proof -
  have tail: "lexes (CHR '' '' # ''= {'' @ nl) [RT_ASSIGN, RT_LBRACE, RT_NL]" by (simp add: lexes_intros)
  have "takeWhile path_char (''FIELDS'' @ CHR '' '' # r) = ''FIELDS'' \<and> dropWhile path_char (''FIELDS'' @ CHR '' '' # r) = CHR '' '' # r"
    for r
  proof (rule takeWhile_span)
    show "\<forall>c \<in> set ''FIELDS''. path_char c" by (simp add: path_char_def word_char_def is_upper_def)
    show "CHR '' '' # r = [] \<or> \<not> path_char (hd (CHR '' '' # r))"
      using delim_others [of "CHR '' ''"] by (simp add: delim_def)
  qed
  moreover have "constant_name ''FIELDS''"
    by (simp add: constant_name_def const_path.simps word_char_def is_upper_def)
  ultimately have "rb_token CHR ''F'' (''IELDS'' @ (CHR '' '' # ''= {'' @ nl) @ r)
      = Some (RT_CONST ''FIELDS'', (CHR '' '' # ''= {'' @ nl) @ r)" for r
    by (simp add: rb_token_def rb_name_def is_digit_def char_between_def)
  from lexes_then [OF _ _ this tail] show ?thesis by simp
qed

lemma field_id_read_back: "in_signed 16 i \<Longrightarrow> VALUE2INT E (RInt i) = Inr (word_of_int i) \<and> FieldID_of (word_of_int i) = i"
proof
  assume i: "in_signed 16 i"
  then show "VALUE2INT E (RInt i) = Inr (word_of_int i)"
    using in_signed_mono [OF i] by (simp add: VALUE2INT_def FIX2INT_def)
  have "(ucast (word_of_int i :: 32 word) :: 16 word) = word_of_int i"
    by transfer simp
  then show "FieldID_of (word_of_int i) = i"
    using sint_of_in_signed [where 'w = 16] i by (simp add: FieldID_of_def)
qed

lemma field_map_of_items:
  assumes "\<And>x. x \<in> set xs \<Longrightarrow> in_signed 16 (k x) \<and> CreateFieldInfo E (v x) = Inr (info x)"
  shows "rfold (\<lambda>(k, v) fieldMap.
            rbind (VALUE2INT E k) (\<lambda>fid.
            rbind (CreateFieldInfo E v) (\<lambda>info.
            Inr (omap_insert (FieldID_of fid) info fieldMap)))) (map (\<lambda>x. (RInt (k x), v x)) xs) m
    = Inr (foldl (\<lambda>m p. omap_insert (fst p) (snd p) m) m (map (\<lambda>x. (k x, info x)) xs))"
  using assms by (induction xs arbitrary: m) (auto simp: field_id_read_back)

section \<open>Loading what was generated\<close>

text \<open>
  A field whose text can be read: its number has 16 bits, its name and its annotations need no
  escapes, as the generator writes none, and its default is simple.
\<close>

definition readable_field :: "gen_env \<Rightarrow> t_field \<Rightarrow> bool" where
  "readable_field env f \<longleftrightarrow> in_signed 16 (field_key f) \<and> plain (field_name f)
     \<and> plain_annotations (field_annotations f)
     \<and> (case field_default f of None \<Rightarrow> True | Some v \<Rightarrow> simple_default env (field_type f) v)"

definition field_entry :: "gen_env \<Rightarrow> constants \<Rightarrow> t_field \<Rightarrow> FieldInfo option" where
  "field_entry env L f =
     type_entry (env_fuel env) env L (field_type f) (field_name f) (field_req f = T_OPTIONAL)"

lemma member_items:
  assumes "types_loaded L" "f \<in> set (members s) \<Longrightarrow> readable_field env f" "f \<in> set (members s) \<Longrightarrow> field_entry env L f = Some (info f)"
  shows "\<exists>v. f \<in> set (members s) \<longrightarrow> item L (generate_field_entry env this f) (field_key f) v \<and> CreateFieldInfo E v = Inr (info f)"
proof (cases "f \<in> set (members s)")
  case True
  have "loads E L (generate_field_data (env_fuel env) env (field_type f) (field_name f) (field_default f)
      (field_req f = T_OPTIONAL) (Some (field_annotations f))) (info f)"
    by (rule data_loads [OF assms(1)])
       (use assms(2,3) True in \<open>auto simp: field_entry_def readable_field_def\<close>)
  from field_item [OF this] show ?thesis by blast
qed simp

lemma field_defns_say:
  assumes "types_loaded L" "\<forall>f \<in> set (members s). readable_field env f \<and> field_entry env L f = Some (info f)"
  shows "\<exists>ts v. says 0 (generate_field_defns env this s)
      ([RT_CONST ''FIELDS'', RT_ASSIGN, RT_LBRACE, RT_NL] @ ts @ [RT_NL, RT_RBRACE, RT_NL, RT_NL])
    \<and> (\<forall>rest. rb_pairs L (2 * length ts + 1) (skip_nl (ts @ RT_NL # RT_RBRACE # rest))
         = Some (map (\<lambda>f. (RInt (field_key f), v f)) (members s), rest))
    \<and> (\<forall>f \<in> set (members s). CreateFieldInfo E (v f) = Inr (info f))"
proof -
  obtain v where v: "\<And>f. f \<in> set (members s) \<Longrightarrow>
      item L (generate_field_entry env this f) (field_key f) (v f) \<and> CreateFieldInfo E (v f) = Inr (info f)"
    using member_items [OF assms(1), of _ s env info this E] assms(2) by metis
  then have "\<forall>f \<in> set (members s). item L (generate_field_entry env this f) (field_key f) (v f)" by blast
  from separated_says [OF this] obtain ts
    where ts: "says 0 (separated (out_str ('','' @ nl)) (map (generate_field_entry env this) (members s))) ts"
    and pairs: "\<forall>rest. rb_pairs L (2 * length ts + 1) (skip_nl (ts @ RT_NL # RT_RBRACE # rest))
         = Some (map (\<lambda>f. (RInt (field_key f), v f)) (members s), rest)"
    by blast
  have ends: "lexes nl [RT_NL]" "lexes ((''}'' @ nl) @ nl) [RT_RBRACE, RT_NL, RT_NL]" by (simp_all add: lexes_intros)
  have "says (0 + (1 + (0 + (- 1 + (0 + (0 + 0)))))) (generate_field_defns env this s)
      ([RT_CONST ''FIELDS'', RT_ASSIGN, RT_LBRACE, RT_NL] @ [] @ ts @ [] @ [RT_NL] @ [RT_RBRACE, RT_NL, RT_NL] @ [])"
    unfolding generate_field_defns_def
    by (intro says_block_Cons says_block_Nil says_up says_down says_putl says_out_str lexes_fields_head ts ends)
  then show ?thesis using pairs v by fastforce
qed

lemma says_at: "says k m ts \<Longrightarrow> fst (m (stream_at n)) = Inr () \<and> rb_tokens (text_at n m) = Some ts"
proof -
  assume "says k m ts"
  then obtain t where t: "lexes t ts" "m (stream_at n) = (Inr (), (stream_at n)\<lparr>contents := contents (stream_at n) @ t,
      ofs_indent := ofs_indent (stream_at n) + k\<rparr>)"
    unfolding says_def by blast
  have "rb_tokens (t @ []) = prefixed ts (rb_tokens [])" using t(1) unfolding lexes_def by blast
  then show ?thesis using t(2) by (simp add: text_at_def stream_at_def)
qed

text \<open>C2: The compiler and the extension agree on a struct: what the generator writes as the table of its
fields is read by Ruby as a hash, of which the extension makes the table that the Thrift types ask
for, one description for each field under its number, at any level of indentation and whatever the
doc comments say. For this the constants of the types and the classes of the structs and enums are
loaded, the numbers are distinct and have 16 bits, names and annotations hold no quote and no
backslash, and the defaults are simple.\<close>

theorem generated_table_loads:
  assumes loaded: "types_loaded L"
    and readable: "\<forall>f \<in> set (members s). readable_field env f"
    and keys: "distinct (map field_key (members s))"
    and infos: "map (field_entry env L) (members s) = map Some infos"
    and tbl: "FIELDS E klass = assigned L (text_at n (generate_field_defns env this s)) ''FIELDS''"
  shows "fst (generate_field_defns env this s (stream_at n)) = Inr ()
    \<and> CreateFieldInfoMap E klass = Inr (omap_of_list (zip (map field_key (members s)) infos))"
proof -
  define info where "info = (\<lambda>f. the (field_entry env L f))"
  have "map the (map (field_entry env L) (members s)) = map the (map Some infos)"
    unfolding infos ..
  then have "infos = map info (members s)" by (simp add: info_def comp_def)
  then have zip: "zip (map field_key (members s)) infos = map (\<lambda>f. (field_key f, info f)) (members s)"
    by (simp add: zip_map_map zip_same_conv_map)
  have "Some (info f) = field_entry env L f" if "f \<in> set (members s)" for f
  proof -
    have "field_entry env L f \<in> set (map Some infos)" using that infos by (metis image_eqI set_map)
    then show ?thesis by (auto simp: info_def)
  qed
  then have "\<forall>f \<in> set (members s). readable_field env f \<and> field_entry env L f = Some (info f)"
    using readable by metis
  from field_defns_say [OF loaded this, of this E] obtain ts v
    where said: "says 0 (generate_field_defns env this s)
      ([RT_CONST ''FIELDS'', RT_ASSIGN, RT_LBRACE, RT_NL] @ ts @ [RT_NL, RT_RBRACE, RT_NL, RT_NL])"
    and pairs: "\<And>rest. rb_pairs L (2 * length ts + 1) (skip_nl (ts @ RT_NL # RT_RBRACE # rest))
         = Some (map (\<lambda>f. (RInt (field_key f), v f)) (members s), rest)"
    and v: "\<And>f. f \<in> set (members s) \<Longrightarrow> CreateFieldInfo E (v f) = Inr (info f)"
    by blast
  have "distinct (map fst (map (\<lambda>f. (RInt (field_key f), v f)) (members s)))"
    using keys by (simp add: distinct_map comp_def inj_on_def)
  then have "FIELDS E klass = Some (RHash (map (\<lambda>f. (RInt (field_key f), v f)) (members s)))"
    using read_assignment_hash [OF pairs conjunct2 [OF says_at [OF said]]] tbl
    by (simp add: assigned_def hash_of_distinct)
  moreover have "in_signed 16 (field_key f) \<and> CreateFieldInfo E (v f) = Inr (info f)" if "f \<in> set (members s)" for f
    using v [OF that] readable that by (simp add: readable_field_def)
  ultimately show ?thesis
    using says_at [OF said] field_map_of_items [of "members s" field_key E v info "[]"]
    by (simp add: CreateFieldInfoMap_def omap_of_list_def zip)
qed

text \<open>A struct with an enum, another struct in a map in a list, and a binary string with a comment.\<close>

definition demo_constants :: constants where
  "demo_constants p = map_of
     (map (\<lambda>(n, i). (''::Sparsam::Types::'' @ n, RInt i)) Types
      @ [(''::My::Ns::Sub'', RClass ''My::Ns::Sub''), (''::My::Ns::Color'', ROther ''Module'')]) p"

definition demo_env :: gen_env where
  "demo_env = \<lparr>env_programs = (\<lambda>path. if path = ''a.thrift''
       then Some ((new_program ''a.thrift'')\<lparr>namespaces := [(''rb'', ''my.ns'')]\<rparr>) else None),
     env_fuel = 4, env_version = ''1''\<rparr>"

definition demo_members :: "t_field list" where
  "demo_members =
     [t_field (t_enum_type (t_enum ''a.thrift'' ''color'' [t_enum_value ''RED'' 1 None] None)) ''c'' 2 T_REQUIRED
        (Some (CV_INTEGER 1)) [(''k'', ''v'')] None,
      t_field (t_typedef ''a.thrift'' ''subs''
          (Some (t_list (t_map g_type_i64 (t_struct_type (new_struct ''a.thrift'' ''sub'')))))) ''subs'' (-3) T_OPTIONAL
        None [] None,
      t_field g_type_binary ''bytes'' 1 T_OPT_IN_REQ_OUT (Some (CV_STRING (''a'' @ dq))) [] (Some (''x'' @ nl @ ''y'' @ nl))]"

definition demo_struct :: t_struct where
  "demo_struct = t_struct ''a.thrift'' ''msg'' demo_members [] False False True 0 [] None"

definition demo_infos :: "FieldInfo list" where
  "demo_infos =
     [FieldInfo T_I32 None (Some ''@c'') (Some ''c'') False False None None,
      FieldInfo T_LIST None (Some ''@subs'') (Some ''subs'') True False
        (Some (FieldInfo T_MAP None None None False False
          (Some (FieldInfo T_STRUCT (Some ''My::Ns::Sub'') None None False False None None))
          (Some (FieldInfo T_I64 None None None False False None None)))) None,
      FieldInfo T_STRING None (Some ''@bytes'') (Some ''bytes'') False True None None]"

definition demo_ruby :: "rvalue option \<Rightarrow> ruby_env" where
  "demo_ruby table =
     \<lparr>FIELDS = (\<lambda>k. table), inherits_union = (\<lambda>k. False), new_instance = (\<lambda>k. Inr (RObj k [])),
      key_eql = (=), num2int = (\<lambda>v. Inl (RubyError ''TypeError''))\<rparr>"

theorem generated_table_loads_witness:
  "\<exists>table. assigned demo_constants (text_at 1 (generate_field_defns demo_env
      (new_generator (Program (new_program ''a.thrift'') [])) demo_struct)) ''FIELDS'' = Some table
    \<and> CreateFieldInfoMap (demo_ruby (Some table)) ''My::Ns::Msg''
        = Inr [(-3, demo_infos ! 1), (1, demo_infos ! 2), (2, demo_infos ! 0)]"
proof -
  let ?table = "assigned demo_constants (text_at 1 (generate_field_defns demo_env
      (new_generator (Program (new_program ''a.thrift'') [])) demo_struct)) ''FIELDS''"
  have "types_loaded demo_constants" by code_simp
  moreover have "\<forall>f \<in> set (members demo_struct). readable_field demo_env f" by code_simp
  moreover have "distinct (map field_key (members demo_struct))" by code_simp
  moreover have "map (field_entry demo_env demo_constants) (members demo_struct) = map Some demo_infos"
    by code_simp
  moreover have "FIELDS (demo_ruby ?table) ''My::Ns::Msg'' = ?table" by (simp add: demo_ruby_def)
  ultimately have loaded: "CreateFieldInfoMap (demo_ruby ?table) ''My::Ns::Msg''
      = Inr (omap_of_list (zip (map field_key (members demo_struct)) demo_infos))"
    using generated_table_loads [where L = demo_constants and env = demo_env and n = 1] by blast
  then obtain table where "?table = Some table"
    by (cases ?table) (simp_all add: CreateFieldInfoMap_def demo_ruby_def)
  moreover have "omap_of_list (zip (map field_key (members demo_struct)) demo_infos)
      = [(-3, demo_infos ! 1), (1, demo_infos ! 2), (2, demo_infos ! 0)]" by code_simp
  ultimately show ?thesis using loaded by auto
qed

end
