(* ===== verification/RubyLib.thy ===== *)
theory RubyLib
  imports RubyData Reader
begin

text \<open>
  The Ruby library, \<^verbatim>\<open>lib/sparsam\<close>: what \<^verbatim>\<open>init_thrift_struct\<close> makes of a generated
  class, the constructors of structs and unions, the accessors of their fields, equality, and the
  calls into the extension. An object is its class and its instance variables. A method that a
  field would hide by its name (a field called \<^verbatim>\<open>class\<close>, say) is taken to be the library's,
  and the names of fields are taken to be identifiers without a dot, so that Ruby accepts them as
  names of methods.
\<close>

section \<open>Generated classes\<close>

text \<open>
  What a class knows after \<^verbatim>\<open>init_thrift_struct\<close>. The reader and the writer of a field are
  named after it, so the names stand for \<^verbatim>\<open>FIELD_SYMS\<close>, which has each name as a symbol and
  as a string; \<open>accessors\<close> are the names of the methods that are defined.
\<close>

record ruby_class =
  class_path :: klass
  accessors :: "string list"
  FIELD_SYMS :: "string list"
  DEFAULT_VALUES :: rvalue

text \<open>\<^verbatim>\<open>info[:key]\<close>; what is no hash has no such method here.\<close>

definition ruby_aref :: "rvalue \<Rightarrow> sym \<Rightarrow> rberror + rvalue" where
  "ruby_aref h s =
     (case h of
        RHash kvs \<Rightarrow> Inr (case map_of kvs (RSym s) of None \<Rightarrow> RNil | Some v \<Rightarrow> v)
      | _ \<Rightarrow> Inl (RubyError ''NoMethodError''))"

text \<open>\<^verbatim>\<open>klass::FIELDS.each\<close>: the values of the table.\<close>

definition field_infos :: "rvalue option \<Rightarrow> rberror + rvalue list" where
  "field_infos table =
     (case table of
        None \<Rightarrow> Inl (RubyError ''NameError'')
      | Some (RHash kvs) \<Rightarrow> Inr (map snd kvs)
      | Some _ \<Rightarrow> Inl (RubyError ''NoMethodError''))"

text \<open>\<^verbatim>\<open>to_sym\<close>, of strings and symbols only.\<close>

definition to_sym :: "rvalue \<Rightarrow> rberror + sym" where
  "to_sym v =
     (case v of RStr e s \<Rightarrow> Inr s | RSym s \<Rightarrow> Inr s | _ \<Rightarrow> Inl (RubyError ''NoMethodError''))"

text \<open>
  The name is put between quotes into the text of a definition; without a name the definition is
  one of an empty name, which is refused.
\<close>

definition generate_accessors :: "rvalue option \<Rightarrow> rberror + string list" where
  "generate_accessors table =
     rbind (field_infos table) (rmap (\<lambda>info.
       rbind (ruby_aref info ''name'') (\<lambda>name.
       case name of
         RStr e s \<Rightarrow> if s = [] then Inl (RubyError ''NameError'') else Inr s
       | RSym s \<Rightarrow> if s = [] then Inl (RubyError ''NameError'') else Inr s
       | _ \<Rightarrow> Inl (RubyError ''NameError''))))"

definition generate_field_syms :: "rvalue option \<Rightarrow> rberror + string list" where
  "generate_field_syms table =
     rbind (field_infos table) (rmap (\<lambda>info. rbind (ruby_aref info ''name'') to_sym))"

definition generate_default_values :: "rvalue option \<Rightarrow> rberror + rvalue" where
  "generate_default_values table =
     rbind (field_infos table) (\<lambda>infos.
     rbind (rfold (\<lambda>field_def h.
         rbind (ruby_aref field_def ''default'') (\<lambda>dv.
         if NIL_P dv then Inr h
         else rbind (ruby_aref field_def ''name'') (\<lambda>name. Inr (hash_put name dv h)))) infos [])
       (\<lambda>h. Inr (if h = [] then RNil else RHash h)))"

definition init_thrift_struct :: "ruby_env \<Rightarrow> klass \<Rightarrow> ('p sstate, rberror, ruby_class) sexn" where
  "init_thrift_struct E klass =
     sbind (slift (generate_accessors (FIELDS E klass))) (\<lambda>methods.
     sbind (slift (generate_field_syms (FIELDS E klass))) (\<lambda>syms.
     sbind (cache_fields E klass) (\<lambda>_.
     sbind (slift (generate_default_values (FIELDS E klass))) (\<lambda>defaults.
     sret \<lparr>class_path = klass, accessors = methods, FIELD_SYMS = syms, DEFAULT_VALUES = defaults\<rparr>))))"

definition name_to_accessors :: "ruby_class \<Rightarrow> rvalue \<Rightarrow> string option" where
  "name_to_accessors cls name =
     (case name of
        RSym s \<Rightarrow> if s \<in> set (FIELD_SYMS cls) then Some s else None
      | RStr e s \<Rightarrow> if s \<in> set (FIELD_SYMS cls) then Some s else None
      | _ \<Rightarrow> None)"

section \<open>Structs\<close>

text \<open>\<^verbatim>\<open>attr_accessor\<close>.\<close>

definition struct_read :: "string \<Rightarrow> rvalue \<Rightarrow> rvalue" where
  "struct_read name obj = rb_ivar_get obj (''@'' @ name)"

definition struct_write :: "string \<Rightarrow> rvalue \<Rightarrow> rvalue \<Rightarrow> rvalue" where
  "struct_write name value obj = rb_ivar_set obj (''@'' @ name) value"

definition send_writer :: "ruby_class \<Rightarrow> string \<Rightarrow> rvalue \<Rightarrow> rvalue \<Rightarrow> rberror + rvalue" where
  "send_writer cls name value obj =
     (if name \<in> set (accessors cls) then Inr (struct_write name value obj)
      else Inl (RubyError ''NoMethodError''))"

text \<open>\<^verbatim>\<open>d.each do |name, value|\<close>: an element of an array is taken apart, or has no value.\<close>

definition each_pair :: "rvalue \<Rightarrow> rberror + (rvalue \<times> rvalue) list" where
  "each_pair d =
     (let pair = (\<lambda>v. case v of
          RArray (a # b # _) \<Rightarrow> (a, b) | RArray [a] \<Rightarrow> (a, RNil) | RArray [] \<Rightarrow> (RNil, RNil) | _ \<Rightarrow> (v, RNil)) in
      case d of
        RHash kvs \<Rightarrow> Inr kvs
      | RArray vs \<Rightarrow> Inr (map pair vs)
      | RSet vs \<Rightarrow> Inr (map pair vs)
      | _ \<Rightarrow> Inl (RubyError ''NoMethodError''))"

definition lib_assign_defaults :: "ruby_class \<Rightarrow> rvalue \<Rightarrow> rvalue \<Rightarrow> rberror + rvalue" where
  "lib_assign_defaults cls defaults obj =
     rbind (each_pair defaults) (\<lambda>kvs.
     rfold (\<lambda>(name, default_value) obj.
       case name_to_accessors cls name of
         None \<Rightarrow> Inl (RubyError ''NoMethodError'')
       | Some n \<Rightarrow> send_writer cls n default_value obj) kvs obj)"

text \<open>The text of a name is that of \<^verbatim>\<open>to_s\<close>, a parameter.\<close>

definition unknown_key :: "ruby_class \<Rightarrow> (rvalue \<Rightarrow> string) \<Rightarrow> rvalue \<Rightarrow> rberror" where
  "unknown_key cls to_s name =
     NativeError (''Unknown key given to '' @ class_path cls @ ''.new: '' @ to_s name)"

definition lib_assign_from_arg ::
  "ruby_class \<Rightarrow> (rvalue \<Rightarrow> string) \<Rightarrow> rvalue \<Rightarrow> rvalue \<Rightarrow> rberror + rvalue" where
  "lib_assign_from_arg cls to_s d obj =
     rbind (each_pair d) (\<lambda>kvs.
     rfold (\<lambda>(name, value) obj.
       case name_to_accessors cls name of
         None \<Rightarrow> Inl (unknown_key cls to_s name)
       | Some n \<Rightarrow> send_writer cls n value obj) kvs obj)"

text \<open>
  \<^verbatim>\<open>new\<close> of a struct or exception: the constructor of the extension calls the library's
  methods on an object without instance variables, and then the block.
\<close>

definition run_init_call ::
  "ruby_class \<Rightarrow> (rvalue \<Rightarrow> string) \<Rightarrow> (rvalue \<Rightarrow> rberror + rvalue) \<Rightarrow> init_call \<Rightarrow> rvalue \<Rightarrow> rberror + rvalue" where
  "run_init_call cls to_s blk c obj =
     (case c of
        assign_defaults v \<Rightarrow> lib_assign_defaults cls v obj
      | assign_from_arg v \<Rightarrow> lib_assign_from_arg cls to_s v obj
      | rb_yield_self \<Rightarrow> blk obj)"

definition struct_new ::
  "ruby_class \<Rightarrow> (rvalue \<Rightarrow> string) \<Rightarrow> rvalue list \<Rightarrow> (rvalue \<Rightarrow> rberror + rvalue) option \<Rightarrow> rberror + rvalue" where
  "struct_new cls to_s argv blk =
     rbind (sparsam_struct_initialize (Some (DEFAULT_VALUES cls)) argv (blk \<noteq> None)) (\<lambda>calls.
     rfold (run_init_call cls to_s (case blk of Some f \<Rightarrow> f | None \<Rightarrow> Inr)) calls (RObj (class_path cls) []))"

text \<open>
  Equality of structs: the same object, or one of exactly the same class whose fields are equal,
  in the order of the table. The equality of values is a parameter.
\<close>

definition struct_equal :: "ruby_class \<Rightarrow> (rvalue \<Rightarrow> rvalue \<Rightarrow> bool) \<Rightarrow> bool \<Rightarrow> rvalue \<Rightarrow> rvalue \<Rightarrow> bool" where
  "struct_equal cls eq same self other \<longleftrightarrow>
     same \<or> (class_name other = class_name self
       \<and> (\<forall>n \<in> set (FIELD_SYMS cls). eq (struct_read n self) (struct_read n other)))"

section \<open>Unions\<close>

text \<open>\<^verbatim>\<open>remove_instance_variable\<close>.\<close>

definition rb_remove_ivar :: "rvalue \<Rightarrow> ivar \<Rightarrow> rberror + rvalue" where
  "rb_remove_ivar obj i =
     (case obj of
        RObj k ivs \<Rightarrow> if i \<in> fst ` set ivs then Inr (RObj k (filter (\<lambda>(j, v). j \<noteq> i) ivs))
                      else Inl (RubyError ''NameError'')
      | _ \<Rightarrow> Inl (RubyError ''NameError''))"

definition get_set_field :: "rvalue \<Rightarrow> rvalue" where
  "get_set_field u = rb_ivar_get u ''@setfield''"

text \<open>\<^verbatim>\<open>@setfield\<close> goes into the name of the variable to remove; only a symbol or a string makes one.\<close>

definition union_write :: "string \<Rightarrow> rvalue \<Rightarrow> rvalue \<Rightarrow> rberror + rvalue" where
  "union_write name value u =
     rbind (if RTEST (get_set_field u)
            then rbind (to_sym (get_set_field u)) (\<lambda>s. rb_remove_ivar u (''@'' @ s)) else Inr u) (\<lambda>u.
     Inr (rb_ivar_set (rb_ivar_set u ''@setfield'' (RSym name)) (''@'' @ name) value))"

definition union_read :: "string \<Rightarrow> rvalue \<Rightarrow> rberror + rvalue" where
  "union_read name u =
     (if get_set_field u = RSym name then Inr (rb_ivar_get u (''@'' @ name))
      else Inl (UnionException (name @ '' is not union'' @ [CHR 0x27] @ ''s set field'')))"

definition union_initialize ::
  "ruby_class \<Rightarrow> (rvalue \<Rightarrow> string) \<Rightarrow> rvalue \<Rightarrow> rvalue \<Rightarrow> rberror + rvalue" where
  "union_initialize cls to_s name value =
     rbind (case name of
              RHash kvs \<Rightarrow>
                if length kvs > 1 then
                  Inl (UnionException (class_path cls @ '' cannot be instantiated with more than one field!''))
                else Inr (case kvs of [] \<Rightarrow> (RNil, RNil) | (k, v) # _ \<Rightarrow> (k, v))
            | _ \<Rightarrow> Inr (name, value)) (\<lambda>(name, value).
     if RTEST name then
       (case name_to_accessors cls name of
          None \<Rightarrow> Inl (unknown_key cls to_s name)
        | Some n \<Rightarrow> if n \<in> set (accessors cls) then union_write n value (RObj (class_path cls) [])
                    else Inl (RubyError ''NoMethodError''))
     else Inr (RObj (class_path cls) []))"

definition get_value :: "ruby_class \<Rightarrow> rvalue \<Rightarrow> rberror + rvalue" where
  "get_value cls u =
     (if RTEST (get_set_field u) then
        (case name_to_accessors cls (get_set_field u) of
           None \<Rightarrow> Inl (RubyError ''NoMethodError'')
         | Some n \<Rightarrow> union_read n u)
      else Inr RNil)"

definition union_equal ::
  "ruby_class \<Rightarrow> (rvalue \<Rightarrow> rvalue \<Rightarrow> bool) \<Rightarrow> bool \<Rightarrow> rvalue \<Rightarrow> rvalue \<Rightarrow> rberror + bool" where
  "union_equal cls eq same self other =
     (if same then Inr True
      else if class_name other \<noteq> class_name self \<or> \<not> eq (get_set_field self) (get_set_field other) then Inr False
      else rbind (get_value cls self) (\<lambda>v. rbind (get_value cls other) (\<lambda>w. Inr (eq v w))))"

section \<open>Calls into the extension\<close>

text \<open>The protocol that a number stands for is a parameter, as is the encoding itself.\<close>

definition lib_serialize ::
  "ruby_env \<Rightarrow> (Proto \<Rightarrow> 's tproto) \<Rightarrow> 32 word \<Rightarrow> rvalue \<Rightarrow> (wstate, rberror, rvalue) sexn" where
  "lib_serialize E protocols prot obj =
     sbind (slift (serializer_initialize (RInt (sint prot)) (RStr UTF8 []))) (\<lambda>(p, buffer).
     serializer_writeStruct E (protocols p) (class_name obj) obj)"

definition lib_validate ::
  "ruby_env \<Rightarrow> (Proto \<Rightarrow> 's tproto) \<Rightarrow> rvalue \<Rightarrow> (wstate, rberror, rvalue) sexn" where
  "lib_validate E protocols data = sbind (lib_serialize E protocols 0 data) (\<lambda>_. sret (RBool True))"

text \<open>
  \<^verbatim>\<open>Deserializer.deserialize\<close>: the protocol starts with the string as its buffer.
\<close>

definition lib_deserialize ::
  "nat \<Rightarrow> ruby_env \<Rightarrow> (Proto \<Rightarrow> 's tproto) \<Rightarrow> klass \<Rightarrow> string \<Rightarrow> 32 word \<Rightarrow> 's reader" where
  "lib_deserialize n E protocols klass serialized_string prot =
     sbind (slift (serializer_initialize (RInt (sint prot)) (RStr ASCII_8BIT serialized_string))) (\<lambda>(p, buffer).
     sbind sget (\<lambda>st.
     sbind (sput (st\<lparr>tprot := r_init (protocols p) buffer\<rparr>)) (\<lambda>_.
     if inherits_union E klass then serializer_readUnion n E (protocols p) klass
     else serializer_readStruct n E (protocols p) klass)))"

end
