(* ===== verification/RubyLibProps.thy ===== *)
theory RubyLibProps
  imports RubyLib WriterProps
begin

text \<open>
  Correctness of the Ruby library with the extension: what a constructor leaves in a struct, and that
  a union holds one field, which is the one that is serialized.
\<close>

section \<open>Structs\<close>

text \<open>A class as \<^verbatim>\<open>init_thrift_struct\<close> leaves it, with its table.\<close>

definition class_ready :: "ruby_class \<Rightarrow> bool" where
  "class_ready cls \<longleftrightarrow> set (accessors cls) = set (FIELD_SYMS cls)
     \<and> (DEFAULT_VALUES cls = RNil
        \<or> (\<exists>kvs. DEFAULT_VALUES cls = RHash kvs \<and> (\<forall>(k, v) \<in> set kvs. name_to_accessors cls k \<noteq> None)))"

lemma rmap_agree:
  "(\<And>x a b. f x = Inr a \<Longrightarrow> g x = Inr b \<Longrightarrow> a = b) \<Longrightarrow> rmap f xs = Inr as \<Longrightarrow> rmap g xs = Inr bs \<Longrightarrow> as = bs"
proof (induction xs arbitrary: as bs)
  case (Cons x xs)
  from Cons.prems(2,3) obtain a ys b zs where "f x = Inr a" "rmap f xs = Inr ys" "as = a # ys"
    "g x = Inr b" "rmap g xs = Inr zs" "bs = b # zs"
    by (auto simp: result_simps)
  then show ?case using Cons.IH Cons.prems(1) by blast
qed simp

lemma accessors_syms:
  assumes "generate_accessors table = Inr a" "generate_field_syms table = Inr b"
  shows "a = b"
proof -
  obtain infos where infos: "field_infos table = Inr infos"
    using assms(1) by (auto simp: generate_accessors_def result_simps)
  have agree: "x = y" if "rbind (ruby_aref info ''name'') (\<lambda>name. case name of
         RStr e s \<Rightarrow> if s = [] then Inl (RubyError ''NameError'') else Inr s
       | RSym s \<Rightarrow> if s = [] then Inl (RubyError ''NameError'') else Inr s
       | _ \<Rightarrow> Inl (RubyError ''NameError'')) = Inr x"
    "rbind (ruby_aref info ''name'') to_sym = Inr y" for info x y
  proof (cases "ruby_aref info ''name''")
    case (Inr name)
    then show ?thesis using that by (cases name) (auto simp: to_sym_def split: if_splits)
  qed (use that in simp)
  show ?thesis
    by (rule rmap_agree [OF agree]) (use assms infos in \<open>simp_all add: generate_accessors_def generate_field_syms_def\<close>)
qed

lemma sym_known:
  "rmap (\<lambda>info. rbind (ruby_aref info ''name'') to_sym) infos = Inr syms \<Longrightarrow> info \<in> set infos \<Longrightarrow>
     ruby_aref info ''name'' = Inr k \<Longrightarrow> FIELD_SYMS cls = syms \<Longrightarrow> name_to_accessors cls k \<noteq> None"
proof (induction infos arbitrary: syms cls)
  case (Cons i infos)
  obtain k' s rest where i: "ruby_aref i ''name'' = Inr k'" "to_sym k' = Inr s"
    "rmap (\<lambda>info. rbind (ruby_aref info ''name'') to_sym) infos = Inr rest" "syms = s # rest"
    using Cons.prems(1) by (auto simp: result_simps)
  show ?case
  proof (cases "info = i")
    case True
    then show ?thesis
      using i Cons.prems(3,4) by (auto simp: name_to_accessors_def to_sym_def split: rvalue.splits)
  next
    case False
    then have "name_to_accessors (cls\<lparr>FIELD_SYMS := rest\<rparr>) k \<noteq> None"
      using Cons.IH [OF i(3) _ Cons.prems(3)] Cons.prems(2) by simp
    then show ?thesis
      using i(4) Cons.prems(4) by (auto simp: name_to_accessors_def split: rvalue.splits if_splits)
  qed
qed simp

lemma hash_put_keys: "fst ` set (hash_put k v h) = insert k (fst ` set h)"
  by (induction k v h rule: hash_put.induct) auto

text \<open>\<^verbatim>\<open>init_thrift_struct\<close> makes its classes ready.\<close>

lemma init_ready:
  assumes "fst (init_thrift_struct E klass st) = Inr cls"
  shows "class_ready cls" "class_path cls = klass"
proof -
  obtain st' where "init_thrift_struct E klass st = (Inr cls, st')"
    using assms by (cases "init_thrift_struct E klass st") auto
  then obtain a b d where gen: "generate_accessors (FIELDS E klass) = Inr a" "generate_field_syms (FIELDS E klass) = Inr b"
    "generate_default_values (FIELDS E klass) = Inr d"
    and cls: "cls = \<lparr>class_path = klass, accessors = a, FIELD_SYMS = b, DEFAULT_VALUES = d\<rparr>"
    unfolding init_thrift_struct_def by (auto simp: sbind_eq_Inr)
  obtain infos h where infos: "field_infos (FIELDS E klass) = Inr infos"
    and h: "rfold (\<lambda>field_def h.
         rbind (ruby_aref field_def ''default'') (\<lambda>dv.
         if NIL_P dv then Inr h
         else rbind (ruby_aref field_def ''name'') (\<lambda>name. Inr (hash_put name dv h)))) infos [] = Inr h"
    and d: "d = (if h = [] then RNil else RHash h)"
    using gen(3) unfolding generate_default_values_def by (auto simp: result_simps)
  have syms: "rmap (\<lambda>info. rbind (ruby_aref info ''name'') to_sym) infos = Inr b"
    using gen(2) infos by (simp add: generate_field_syms_def)
  have "a = b" using gen(1,2) by (rule accessors_syms)
  moreover have "fst ` set h \<subseteq> {k. name_to_accessors cls k \<noteq> None}"
  proof (rule rfold_invariant [OF h, of "\<lambda>h. fst ` set h \<subseteq> {k. name_to_accessors cls k \<noteq> None}"])
    fix info u v
    assume info: "info \<in> set infos" and u: "fst ` set u \<subseteq> {k. name_to_accessors cls k \<noteq> None}"
      and "rbind (ruby_aref info ''default'') (\<lambda>dv. if NIL_P dv then Inr u
         else rbind (ruby_aref info ''name'') (\<lambda>name. Inr (hash_put name dv u))) = Inr v"
    then consider "v = u" | k dv where "ruby_aref info ''name'' = Inr k" "v = hash_put k dv u"
      by (auto simp: result_simps split: if_splits)
    then show "fst ` set v \<subseteq> {k. name_to_accessors cls k \<noteq> None}"
    proof cases
      case 2
      then have "name_to_accessors cls k \<noteq> None" using sym_known [OF syms info] cls by simp
      then show ?thesis using u 2(2) by (simp add: hash_put_keys)
    qed (use u in simp)
  qed simp
  ultimately show "class_ready cls"
    unfolding class_ready_def by (cases "h = []") (force simp: cls d)+
  show "class_path cls = klass" by (simp add: cls)
qed

text \<open>The values that a list of pairs gives to a field; the last one counts.\<close>

definition given :: "ruby_class \<Rightarrow> string \<Rightarrow> (rvalue \<times> rvalue) list \<Rightarrow> rvalue option" where
  "given cls n kvs =
     (case filter (\<lambda>(k, v). name_to_accessors cls k = Some n) kvs of [] \<Rightarrow> None | ps \<Rightarrow> Some (snd (last ps)))"

definition defaults_of :: "ruby_class \<Rightarrow> (rvalue \<times> rvalue) list" where
  "defaults_of cls = (case DEFAULT_VALUES cls of RHash kvs \<Rightarrow> kvs | _ \<Rightarrow> [])"

lemma accessors_known: "name_to_accessors cls k = Some n \<Longrightarrow> n \<in> set (FIELD_SYMS cls)"
  by (auto simp: name_to_accessors_def split: rvalue.splits if_splits)

lemma rbind_rfold_Nil: "rbind m (rfold f []) = m"
  by (cases m) simp_all

text \<open>Assigning pairs whose names are known.\<close>

lemma assign_pairs:
  assumes "set (accessors cls) = set (FIELD_SYMS cls)"
    and "\<forall>(k, v) \<in> set kvs. name_to_accessors cls k \<noteq> None"
  shows "\<exists>ivs'. rfold (\<lambda>(name, value) obj.
       case name_to_accessors cls name of
         None \<Rightarrow> Inl (err name)
       | Some n \<Rightarrow> send_writer cls n value obj) kvs (RObj c ivs) = Inr (RObj c ivs')
     \<and> (\<forall>n. struct_read n (RObj c ivs') = (case given cls n kvs of Some v \<Rightarrow> v | None \<Rightarrow> struct_read n (RObj c ivs)))"
  using assms(2)
proof (induction kvs arbitrary: ivs)
  case Nil
  then show ?case by (simp add: given_def)
next
  case (Cons p kvs)
  obtain k v where p: "p = (k, v)" by (cases p)
  then obtain m where m: "name_to_accessors cls k = Some m" using Cons.prems by auto
  then have "m \<in> set (accessors cls)" using accessors_known assms(1) by blast
  moreover obtain ivs' where ivs': "rfold (\<lambda>(name, value) obj.
       case name_to_accessors cls name of
         None \<Rightarrow> Inl (err name)
       | Some n \<Rightarrow> send_writer cls n value obj) kvs (RObj c (ivar_update ivs (''@'' @ m) v)) = Inr (RObj c ivs')"
    "\<And>n. struct_read n (RObj c ivs') = (case given cls n kvs of Some w \<Rightarrow> w
       | None \<Rightarrow> struct_read n (RObj c (ivar_update ivs (''@'' @ m) v)))"
    using Cons.IH [of "ivar_update ivs (''@'' @ m) v"] Cons.prems by auto
  moreover have "(case given cls n kvs of Some w \<Rightarrow> w | None \<Rightarrow> struct_read n (RObj c (ivar_update ivs (''@'' @ m) v)))
      = (case given cls n (p # kvs) of Some w \<Rightarrow> w | None \<Rightarrow> struct_read n (RObj c ivs))" for n
    by (auto simp: given_def p m struct_read_def map_of_ivar_update split: option.split list.split)
  ultimately show ?case
    by (simp add: p m send_writer_def struct_write_def)
qed

text \<open>The first name that is not known ends the assignment.\<close>

lemma assign_unknown:
  assumes "set (accessors cls) = set (FIELD_SYMS cls)"
    and "find (\<lambda>(k, v). name_to_accessors cls k = None) kvs = Some (name, value)"
  shows "rfold (\<lambda>(name, value) obj.
       case name_to_accessors cls name of
         None \<Rightarrow> Inl (err name)
       | Some n \<Rightarrow> send_writer cls n value obj) kvs obj = Inl (err name)"
  using assms(2)
proof (induction kvs arbitrary: obj)
  case (Cons p kvs)
  obtain k v where p: "p = (k, v)" by (cases p)
  show ?case
  proof (cases "name_to_accessors cls k")
    case None
    then show ?thesis using Cons.prems p by simp
  next
    case (Some m)
    then have "m \<in> set (accessors cls)" using accessors_known assms(1) by blast
    then show ?thesis using Cons p Some by (simp add: send_writer_def)
  qed
qed simp


definition ruby_tables :: "klass \<Rightarrow> rvalue option" where
  "ruby_tables k =
     (if k = ''Msg'' then Some (RHash
        [(RInt 1, sample_field 8 ''id'' False []),
         (RInt 2, sample_field 11 ''name'' True [(RSym ''default'', RStr UTF8 ''x'')])])
      else if k = ''Choice'' then Some (RHash
        [(RInt 1, sample_field 8 ''a'' True []), (RInt 2, sample_field 11 ''b'' True [])])
      else None)"

definition ruby_sample :: ruby_env where
  "ruby_sample = sample_env\<lparr>FIELDS := ruby_tables\<rparr>"

definition msg_class :: ruby_class where
  "msg_class = \<lparr>class_path = ''Msg'', accessors = [''id'', ''name''], FIELD_SYMS = [''id'', ''name''],
     DEFAULT_VALUES = RHash [(RStr UTF8 ''name'', RStr UTF8 ''x'')]\<rparr>"


section \<open>Unions\<close>

text \<open>A union of class \<open>c\<close> that holds \<open>v\<close> in its field \<open>n\<close>, and nothing else.\<close>

definition holds :: "klass \<Rightarrow> string \<Rightarrow> rvalue \<Rightarrow> rvalue \<Rightarrow> bool" where
  "holds c n v u \<longleftrightarrow> (\<exists>ivs. u = RObj c ivs \<and> map_of ivs = [''@setfield'' \<mapsto> RSym n, ''@'' @ n \<mapsto> v])"

lemma map_of_without: "map_of (filter (\<lambda>(j, v). j \<noteq> i) ivs) = (map_of ivs)(i := None)"
  by (induction ivs) (auto simp: fun_eq_iff)

lemma holds_set:
  assumes "n \<noteq> ''setfield''" "map_of ivs = [''@setfield'' \<mapsto> x] \<or> map_of ivs = Map.empty"
  shows "holds c n v (rb_ivar_set (rb_ivar_set (RObj c ivs) ''@setfield'' (RSym n)) (''@'' @ n) v)"
  using assms by (auto simp: holds_def map_of_ivar_update)

lemma union_write_empty: "n \<noteq> ''setfield'' \<Longrightarrow> \<exists>u. union_write n v (RObj c []) = Inr u \<and> holds c n v u"
  using holds_set [of n "[]"] by (simp add: union_write_def get_set_field_def RTEST_def)

lemma union_write_holds:
  assumes "holds c m w u" "m \<noteq> ''setfield''" "n \<noteq> ''setfield''"
  shows "\<exists>u'. union_write n v u = Inr u' \<and> holds c n v u'"
proof -
  obtain ivs where u: "u = RObj c ivs" "map_of ivs = [''@setfield'' \<mapsto> RSym m, ''@'' @ m \<mapsto> w]"
    using assms(1) unfolding holds_def by blast
  have "''@'' @ m \<in> fst ` set ivs"
    using u(2) by (metis dom_map_of_conv_image_fst domI fun_upd_same)
  moreover have "map_of (filter (\<lambda>(j, x). j \<noteq> ''@'' @ m) ivs) = [''@setfield'' \<mapsto> RSym m]"
    unfolding map_of_without u(2) using assms(2) by (auto simp: fun_eq_iff)
  ultimately show ?thesis
    using holds_set [OF assms(3), of "filter (\<lambda>(j, x). j \<noteq> ''@'' @ m) ivs" "RSym m" c v] u assms(2)
    by (simp add: union_write_def get_set_field_def RTEST_def to_sym_def rb_remove_ivar_def)
qed

lemma union_writes:
  assumes "holds c m w u" "m \<noteq> ''setfield''" "''setfield'' \<notin> fst ` set ops"
  shows "\<exists>u'. rfold (\<lambda>(n, v) u. union_write n v u) ops u = Inr u'
    \<and> holds c (fst (last ((m, w) # ops))) (snd (last ((m, w) # ops))) u'"
  using assms
proof (induction ops arbitrary: m w u)
  case (Cons p ops)
  obtain n v where p: "p = (n, v)" by (cases p)
  have n: "n \<noteq> ''setfield''" using Cons.prems(3) p by auto
  then obtain u' where u': "union_write n v u = Inr u'" "holds c n v u'"
    using union_write_holds [OF Cons.prems(1,2)] by blast
  show ?case using Cons.IH [OF u'(2) n] Cons.prems(3) u'(1) p by auto
qed simp

lemma holds_read:
  assumes "holds c n v u" "n \<noteq> ''setfield''"
  shows "union_read n u = Inr v" "m \<noteq> n \<Longrightarrow> is_ok (union_read m u) = False" "get_set_field u = RSym n"
    "m \<noteq> ''setfield'' \<Longrightarrow> rb_ivar_get u (''@'' @ m) = (if m = n then v else RNil)"
  using assms by (auto simp: holds_def union_read_def get_set_field_def split: option.split)

text \<open>The table of a union: every field is optional and kept under its name.\<close>

definition union_table :: "FieldInfoMap \<Rightarrow> bool" where
  "union_table flds \<longleftrightarrow> distinct (map (symName \<circ> snd) flds)
     \<and> (\<forall>(fid, info) \<in> set flds. isOptional info
          \<and> (\<exists>n. n \<noteq> ''setfield'' \<and> symName info = Some n \<and> ivarName info = Some (''@'' @ n)))"

lemma sbind_sret_right: "sbind m sret = m"
  by (auto simp: sbind_def fun_eq_iff split: prod.splits sum.splits)

lemma sfor_only:
  assumes "x \<in> set xs" "distinct (map key xs)" "\<And>y. y \<in> set xs \<Longrightarrow> key y \<noteq> key x \<Longrightarrow> f y = sret ()"
  shows "sfor f xs = f x"
proof -
  have skip: "\<forall>y \<in> set ys. f y = sret () \<Longrightarrow> sfor f ys = sret ()" for ys
    by (induction ys) (simp_all add: sbind_unit_fun del: sret_apply)
  show ?thesis
    using assms
  proof (induction xs)
    case (Cons y ys)
    show ?case
    proof (cases "key y = key x")
      case True
      have new: "key y \<notin> key ` set ys" using Cons.prems(2) by simp
      then have "x = y" using True Cons.prems(1) by auto
      moreover have "\<forall>z \<in> set ys. f z = sret ()"
      proof
        fix z
        assume z: "z \<in> set ys"
        then have "key z \<noteq> key x" using new True by (metis imageI)
        then show "f z = sret ()" using Cons.prems(3) z by (simp del: sret_apply)
      qed
      ultimately show ?thesis using skip Cons.prems(1) sbind_sret_right [of "f y"] by (simp del: sret_apply)
    next
      case False
      then have "f y = sret ()" "x \<in> set ys" using Cons.prems by auto
      then show ?thesis using Cons by (simp add: sbind_unit_fun del: sret_apply)
    qed
  qed simp
qed

lemma check_optional: "\<forall>(fid, info) \<in> set flds. isOptional info \<Longrightarrow> check_required c data flds = Inr ()"
  by (induction flds) auto

lemma loaded_again:
  "cache_ok E st \<Longrightarrow> CreateFieldInfoMap E k = Inr m \<Longrightarrow> loaded E k (loaded E k st) = loaded E k st"
  by (cases "klassCache st k")
     (auto simp: loaded_def FindOrCreateFieldInfoMap_def sbind_def cache_ok_def split: option.split)

lemma union_written:
  assumes "cache_ok E st" "CreateFieldInfoMap E c = Inr flds" "union_table flds" "(fid, info) \<in> set flds"
    and "holds c n v u" "symName info = Some n"
  shows "writeStruct E P c u st =
     (if v = RNil then (Inr (), loaded E c st)
      else sbind (emit P (WFieldBegin (ftype info) (word_of_int fid))) (\<lambda>_.
           sbind (writeAny E P (ftype info) info v u (Some n)) (\<lambda>_. emit P WFieldEnd)) (loaded E c st))"
proof -
  have n: "n \<noteq> ''setfield''" "ivarName info = Some (''@'' @ n)"
    using assms(3,4,6) by (auto simp: union_table_def)
  let ?f = "\<lambda>(fid, info).
       case ivarName info of
         None \<Rightarrow> sraise NullDeref
       | Some ivar \<Rightarrow>
           if \<not> NIL_P (rb_ivar_get u ivar) then
             sbind (emit P (WFieldBegin (ftype info) (word_of_int fid))) (\<lambda>_.
             sbind (writeAny E P (ftype info) info (rb_ivar_get u ivar) u (symName info)) (\<lambda>_.
             emit P WFieldEnd))
           else sret ()"
  have "?f y = sret ()" if y: "y \<in> set flds" "(symName \<circ> snd) y \<noteq> (symName \<circ> snd) (fid, info)" for y
  proof -
    obtain m where m: "m \<noteq> ''setfield''" "symName (snd y) = Some m" "ivarName (snd y) = Some (''@'' @ m)"
      using y(1) assms(3) unfolding union_table_def by fastforce
    then have "rb_ivar_get u (''@'' @ m) = RNil"
      using holds_read(4) [OF assms(5) n(1) m(1)] y(2) assms(6) by auto
    then show ?thesis using m by (cases y) (simp add: NIL_P_def del: sret_apply)
  qed
  then have "sfor ?f flds = ?f (fid, info)"
    using assms(3,4) by (intro sfor_only [where key = "symName \<circ> snd"]) (auto simp: union_table_def)
  moreover have "check_required c u flds = Inr ()"
    using assms(3) by (intro check_optional) (auto simp: union_table_def)
  moreover have tbl: "FindOrCreateFieldInfoMap E c st = (Inr flds, loaded E c st)"
    using FindOrCreate_loaded [OF assms(1)] assms(2) by simp
  moreover have "FindOrCreateFieldInfoMap E c (loaded E c st) = (Inr flds, loaded E c st)"
    using FindOrCreate_loaded [OF loaded_cache_ok [OF assms(1)], of c] assms(2) loaded_again [OF assms(1,2)] by simp
  then have "checkRequiredFields E c u (loaded E c st) = (check_required c u flds, loaded E c st)"
    by (simp add: checkRequiredFields_def sbind_returns)
  ultimately have "writeStruct E P c u st = ?f (fid, info) (loaded E c st)"
    by (subst writeStruct.simps) (simp only: sbind_returns)
  then show ?thesis
    using n assms(6) holds_read(4) [OF assms(5) n(1) n(1)] by (simp add: NIL_P_def)
qed

text \<open>C13: A union to which fields are assigned in Ruby, one after the other, holds the last one only: its
reader gives the value, those of all other fields raise, and the extension writes this field alone, or
nothing when its value is nil. No field may be called \<^verbatim>\<open>setfield\<close>, as its variable is the one
in which the union keeps the name of the field.\<close>

theorem union_holds_last:
  assumes "ops \<noteq> []" "''setfield'' \<notin> fst ` set ops" "last ops = (n, v)"
    and "cache_ok E st" "CreateFieldInfoMap E c = Inr flds" "union_table flds" "(fid, info) \<in> set flds"
    and "symName info = Some n"
  shows "\<exists>u. rfold (\<lambda>(n, v) u. union_write n v u) ops (RObj c []) = Inr u
    \<and> (\<forall>m. union_read m u = (if m = n then Inr v
          else Inl (UnionException (m @ '' is not union'' @ [CHR 0x27] @ ''s set field''))))
    \<and> writeStruct E P c u st =
     (if v = RNil then (Inr (), loaded E c st)
      else sbind (emit P (WFieldBegin (ftype info) (word_of_int fid))) (\<lambda>_.
           sbind (writeAny E P (ftype info) info v u (Some n)) (\<lambda>_. emit P WFieldEnd)) (loaded E c st))"
proof -
  obtain m w rest where ops: "ops = (m, w) # rest" using assms(1) by (cases ops) auto
  obtain u where "union_write m w (RObj c []) = Inr u" "holds c m w u"
    using union_write_empty [of m w c] assms(2) ops by auto
  then obtain u where u: "rfold (\<lambda>(n, v) u. union_write n v u) ops (RObj c []) = Inr u" "holds c n v u"
    using union_writes [of c m w u rest] assms(2,3) ops by auto
  have n: "n \<noteq> ''setfield''" using assms(1-3) last_in_set by force
  have "union_read m u = (if m = n then Inr v
          else Inl (UnionException (m @ '' is not union'' @ [CHR 0x27] @ ''s set field'')))" for m
    using holds_read(1,3) [OF u(2) n] by (simp add: union_read_def)
  then show ?thesis using u(1) union_written [OF assms(4-7) u(2) assms(8)] by blast
qed

theorem union_holds_last_witness:
  "\<exists>u. rfold (\<lambda>(n, v) u. union_write n v u) [(''a'', RInt 1), (''b'', RStr UTF8 ''y'')] (RObj ''Choice'' []) = Inr u
    \<and> union_read ''b'' u = Inr (RStr UTF8 ''y'') \<and> \<not> is_ok (union_read ''a'' u)
    \<and> tprot (snd (writeStruct ruby_sample log_protocol ''Choice'' u (fresh [])))
        = [WFieldBegin T_STRING 2, WString ''y'', WFieldEnd]"
proof -
  let ?flds = "[(1, FieldInfo T_I32 None (Some ''@a'') (Some ''a'') True False None None),
     (2, FieldInfo T_STRING None (Some ''@b'') (Some ''b'') True False None None)] :: FieldInfoMap"
  let ?ops = "[(''a'', RInt 1), (''b'', RStr UTF8 ''y'')]"
  have "CreateFieldInfoMap ruby_sample ''Choice'' = Inr ?flds" by code_simp
  moreover have "union_table ?flds" by (simp add: union_table_def)
  ultimately obtain u where u: "rfold (\<lambda>(n, v) u. union_write n v u) ?ops (RObj ''Choice'' []) = Inr u"
    "\<forall>m. union_read m u = (if m = ''b'' then Inr (RStr UTF8 ''y'')
          else Inl (UnionException (m @ '' is not union'' @ [CHR 0x27] @ ''s set field'')))"
    "writeStruct ruby_sample log_protocol ''Choice'' u (fresh []) =
      sbind (emit log_protocol (WFieldBegin T_STRING 2)) (\<lambda>_.
           sbind (writeAny ruby_sample log_protocol T_STRING (snd (?flds ! 1)) (RStr UTF8 ''y'') u (Some ''b''))
             (\<lambda>_. emit log_protocol WFieldEnd)) (loaded ruby_sample ''Choice'' (fresh []))"
    using union_holds_last [where ops = ?ops and n = "''b''" and v = "RStr UTF8 ''y''" and E = ruby_sample
        and st = "fresh []" and c = "''Choice''" and flds = ?flds and fid = 2 and info = "snd (?flds ! 1)"
        and P = log_protocol] by auto
  moreover have "tprot (snd (writeStruct ruby_sample log_protocol ''Choice'' u (fresh [])))
        = [WFieldBegin T_STRING 2, WString ''y'', WFieldEnd]"
    unfolding u(3) by (simp add: sbind_def emit_def log_protocol_def writeAny.simps SPARSAM_CHECK_TYPE_def)
  ultimately show ?thesis by auto
qed

end
